(* ===== verification/Prelude.thy ===== *)
theory Prelude
  imports Main "HOL-Library.Word" "HOL-Library.AList" "HOL-Library.Multiset" "HOL-Library.Char_ord" "HOL-Library.List_Lexorder"
begin

text \<open>
  Shared vocabulary of the development: the names given to Go's basic types, the outcome of
  a Go statement that may panic, and generic lemmas on lists and association lists.

  \<^item> Go's \<open>string\<close> and \<open>[]byte\<close> are both \<open>bytes\<close>, a list of 8-bit characters; string
    comparison is the lexicographic order of \<^theory_text>\<open>HOL-Library.List_Lexorder\<close>, as in Go.
  \<^item> \<open>uint16\<close>, \<open>uint32\<close>, \<open>uint\<close>/\<open>uint64\<close> are words of that width (their arithmetic
    wraps); Go's \<open>int\<close>, where no overflow is possible in the code, is \<open>int\<close>.
  \<^item> a call that can panic returns an \<open>outcome\<close>; a call that can return an error returns a
    sum whose left side is an error datatype of the component.
\<close>

type_synonym bytes = "char list"
type_synonym uint16 = "16 word"
type_synonym uint32 = "32 word"
type_synonym uint64 = "64 word"

datatype panic = NilDereference | IndexOutOfRange | DivisionByZero | NonPositiveTicker
  | ExplicitPanic bytes | SendOnClosedChannel | TypeAssertion

datatype 'a outcome = Panic panic | Ok 'a

primrec bind_outcome :: "'a outcome \<Rightarrow> ('a \<Rightarrow> 'b outcome) \<Rightarrow> 'b outcome" where
  "bind_outcome (Panic p) f = Panic p"
| "bind_outcome (Ok x) f = f x"

lemma bind_outcome_eq_Ok [simp]:
  "bind_outcome m f = Ok y \<longleftrightarrow> (\<exists>x. m = Ok x \<and> f x = Ok y)"
  by (cases m) auto

primrec bind_result :: "'e + 'a \<Rightarrow> ('a \<Rightarrow> 'e + 'b) \<Rightarrow> 'e + 'b" where
  "bind_result (Inl e) f = Inl e"
| "bind_result (Inr x) f = f x"

lemma bind_result_eq_Inr [simp]:
  "bind_result m f = Inr y \<longleftrightarrow> (\<exists>x. m = Inr x \<and> f x = Inr y)"
  by (cases m) auto

lemma bind_result_cong [fundef_cong]:
  "m = m' \<Longrightarrow> (\<And>x. m' = Inr x \<Longrightarrow> f x = f' x) \<Longrightarrow> bind_result m f = bind_result m' f'"
  by (cases m') auto

text \<open>A call that may panic or return an error, and the rest of the function after it succeeded.\<close>

primrec try_result :: "'e + 'a \<Rightarrow> ('a \<Rightarrow> ('e + 'b) outcome) \<Rightarrow> ('e + 'b) outcome" where
  "try_result (Inl e) f = Ok (Inl e)"
| "try_result (Inr x) f = f x"

definition bind_try :: "('e + 'a) outcome \<Rightarrow> ('a \<Rightarrow> ('e + 'b) outcome) \<Rightarrow> ('e + 'b) outcome" where
  "bind_try m f = bind_outcome m (\<lambda>r. try_result r f)"

lemma try_result_eq_Inr [simp]: "try_result r f = Ok (Inr y) \<longleftrightarrow> (\<exists>x. r = Inr x \<and> f x = Ok (Inr y))"
  by (cases r) auto

lemma bind_try_eq_Inr [simp]: "bind_try m f = Ok (Inr y) \<longleftrightarrow> (\<exists>x. m = Ok (Inr x) \<and> f x = Ok (Inr y))"
  by (cases m) (auto simp: bind_try_def)

lemma bind_try_simps [simp]:
  "bind_try (Panic p) f = Panic p" "bind_try (Ok (Inl e)) f = Ok (Inl e)" "bind_try (Ok (Inr x)) f = f x"
  by (simp_all add: bind_try_def)

named_theorems go_string "characterisations of the string routines by concatenation"
named_theorems inv_intros "introduction rules for the component invariants"

subsection \<open>Lists\<close>

text \<open>Deleting the element at an index, as \<open>append(xs[:i], xs[i+1:]...)\<close> does.\<close>

definition remove_nth :: "nat \<Rightarrow> 'a list \<Rightarrow> 'a list" where
  "remove_nth i xs = take i xs @ drop (Suc i) xs"

lemma length_remove_nth [simp]: "i < length xs \<Longrightarrow> length (remove_nth i xs) = length xs - 1"
  by (simp add: remove_nth_def min_def)

lemma nth_remove_nth:
  "i < length xs \<Longrightarrow> j < length xs - 1 \<Longrightarrow>
     remove_nth i xs ! j = (if j < i then xs ! j else xs ! Suc j)"
  by (auto simp: remove_nth_def nth_append min_def)

lemma mset_remove_nth:
  "i < length xs \<Longrightarrow> add_mset (xs ! i) (mset (remove_nth i xs)) = mset xs"
  by (metis add_mset_add_single id_take_nth_drop mset.simps(2) mset_append remove_nth_def union_mset_add_mset_right)

lemma set_remove_nth_subset: "set (remove_nth i xs) \<subseteq> set xs"
  by (auto simp: remove_nth_def dest: in_set_takeD in_set_dropD)

text \<open>The first element of a list that satisfies a test, and its position.\<close>

lemma find_append:
  "find P (xs @ ys) = (case find P xs of None \<Rightarrow> find P ys | Some x \<Rightarrow> Some x)"
  by (induction xs) auto

fun find_index :: "('a \<Rightarrow> bool) \<Rightarrow> 'a list \<Rightarrow> nat option" where
  "find_index P [] = None"
| "find_index P (x # xs) = (if P x then Some 0 else map_option Suc (find_index P xs))"

lemma find_index_None_iff: "find_index P xs = None \<longleftrightarrow> (\<forall>x \<in> set xs. \<not> P x)"
  by (induction xs) auto

lemma find_index_SomeD:
  "find_index P xs = Some i \<Longrightarrow> i < length xs \<and> P (xs ! i) \<and> (\<forall>j < i. \<not> P (xs ! j))"
proof (induction xs arbitrary: i)
  case Nil
  then show ?case by simp
next
  case (Cons x xs)
  then show ?case
    by (cases i) (auto simp: nth_Cons split: if_splits nat.splits)
qed

lemma takeWhile_id: "(\<forall>x \<in> set xs. P x) \<Longrightarrow> takeWhile P xs = xs"
  by simp

lemma dropWhile_append_stop:
  "(\<forall>x \<in> set xs. P x) \<Longrightarrow> \<not> P y \<Longrightarrow> dropWhile P (xs @ y # ys) = y # ys"
  by (simp add: dropWhile_append)

lemma takeWhile_append_stop:
  "(\<forall>x \<in> set xs. P x) \<Longrightarrow> \<not> P y \<Longrightarrow> takeWhile P (xs @ y # ys) = xs"
  by (simp add: takeWhile_append)

lemma list_all2_source: "list_all2 P xs ys \<Longrightarrow> y \<in> set ys \<Longrightarrow> \<exists>x \<in> set xs. P x y"
  by (induction rule: list_all2_induct) auto

end
