(* ===== verification/Go_Strings.thy ===== *)
theory Go_Strings
  imports Prelude
begin

text \<open>
  The routines of Go's standard packages \<open>bytes\<close>, \<open>strings\<close> and \<open>strconv\<close> that the
  relay calls. White space and digits are the ASCII ones: metric lines are ASCII in the
  relay's protocols, and a byte outside ASCII is an ordinary byte here.
\<close>

subsection \<open>Prefixes, suffixes, substrings\<close>

fun has_prefix :: "bytes \<Rightarrow> bytes \<Rightarrow> bool" where
  "has_prefix s [] = True"
| "has_prefix [] (p # ps) = False"
| "has_prefix (c # cs) (p # ps) = (c = p \<and> has_prefix cs ps)"

lemma has_prefix_iff [go_string]: "has_prefix s p \<longleftrightarrow> (\<exists>t. s = p @ t)"
  by (induction s p rule: has_prefix.induct) auto

lemma has_prefix_append [simp]: "has_prefix (p @ t) p"
  by (simp add: has_prefix_iff)

definition has_suffix :: "bytes \<Rightarrow> bytes \<Rightarrow> bool" where
  "has_suffix s p = has_prefix (rev s) (rev p)"

lemma has_suffix_iff [go_string]: "has_suffix s p \<longleftrightarrow> (\<exists>t. s = t @ p)"
  unfolding has_suffix_def has_prefix_iff
  by (metis rev_append rev_rev_ident)

definition trim_suffix :: "bytes \<Rightarrow> bytes \<Rightarrow> bytes" where
  "trim_suffix s p = (if has_suffix s p then take (length s - length p) s else s)"

lemma trim_suffix_append [simp]: "trim_suffix (s @ p) p = s"
  by (auto simp: trim_suffix_def has_suffix_iff)

fun contains :: "bytes \<Rightarrow> bytes \<Rightarrow> bool" where
  "contains [] sub = (sub = [])"
| "contains (c # cs) sub = (has_prefix (c # cs) sub \<or> contains cs sub)"

lemma contains_iff [go_string]: "contains s sub \<longleftrightarrow> (\<exists>a b. s = a @ sub @ b)"
proof (induction s)
  case Nil
  then show ?case by auto
next
  case (Cons c cs)
  have "(\<exists>a b. c # cs = a @ sub @ b) \<longleftrightarrow>
        (\<exists>b. c # cs = sub @ b) \<or> (\<exists>a b. cs = a @ sub @ b)" (is "?L \<longleftrightarrow> ?R")
  proof
    assume ?L
    then obtain a b where "c # cs = a @ sub @ b" by blast
    then show ?R by (cases a) auto
  next
    assume ?R
    then show ?L by (metis append_Cons append_Nil)
  qed
  with Cons show ?case by (simp add: has_prefix_iff)
qed

fun index_byte :: "bytes \<Rightarrow> char \<Rightarrow> nat option" where
  "index_byte [] x = None"
| "index_byte (c # cs) x = (if c = x then Some 0 else map_option Suc (index_byte cs x))"

lemma index_byte_SomeD: "index_byte s x = Some i \<Longrightarrow> i < length s \<and> s ! i = x \<and> x \<notin> set (take i s)"
  by (induction s x arbitrary: i rule: index_byte.induct) (auto split: if_splits)

lemma index_byte_None_iff: "index_byte s x = None \<longleftrightarrow> x \<notin> set s"
  by (induction s x rule: index_byte.induct) auto

lemma index_byte_append_stop: "x \<notin> set a \<Longrightarrow> index_byte (a @ x # b) x = Some (length a)"
  by (induction a) auto

subsection \<open>Replace, split, join\<close>

text \<open>
  \<open>bytes.Replace(s, old, new, n)\<close>: the first \<open>n\<close> non-overlapping occurrences, all of them
  when \<open>n < 0\<close>. With an empty \<open>old\<close> Go inserts \<open>new\<close> before every character and at the end.
\<close>

fun replace_old :: "bytes \<Rightarrow> bytes \<Rightarrow> bytes \<Rightarrow> int \<Rightarrow> bytes" where
  "replace_old old new [] n = []"
| "replace_old old new (c # cs) n =
     (if n \<noteq> 0 \<and> has_prefix (c # cs) old
      then new @ replace_old old new (drop (length old - 1) cs) (n - 1)
      else c # replace_old old new cs n)"

fun replace_empty :: "bytes \<Rightarrow> bytes \<Rightarrow> int \<Rightarrow> bytes" where
  "replace_empty new [] n = (if n \<noteq> 0 then new else [])"
| "replace_empty new (c # cs) n =
     (if n \<noteq> 0 then new @ c # replace_empty new cs (n - 1) else c # cs)"

definition go_replace :: "bytes \<Rightarrow> bytes \<Rightarrow> bytes \<Rightarrow> int \<Rightarrow> bytes" where
  "go_replace s old new n =
     (if old = [] then replace_empty new s n else replace_old old new s n)"

lemma replace_old_zero [simp]: "replace_old old new s 0 = s"
  by (induction s) auto

text \<open>\<open>strings.SplitN(s, sep, n)\<close> with a negative \<open>n\<close> is \<open>strings.Split\<close>; \<open>sep\<close> is not empty.\<close>

fun cut_at :: "bytes \<Rightarrow> bytes \<Rightarrow> (bytes \<times> bytes) option" where
  "cut_at sep [] = (if sep = [] then Some ([], []) else None)"
| "cut_at sep (c # cs) =
     (if has_prefix (c # cs) sep then Some ([], drop (length sep) (c # cs))
      else map_option (\<lambda>(a, b). (c # a, b)) (cut_at sep cs))"

lemma cut_at_length:
  "cut_at sep s = Some (a, b) \<Longrightarrow> length a + length sep + length b = length s"
proof (induction sep s arbitrary: a b rule: cut_at.induct)
  case (1 sep)
  then show ?case by (auto split: if_splits)
next
  case (2 sep c cs)
  show ?case
  proof (cases "has_prefix (c # cs) sep")
    case True
    then obtain t where t: "c # cs = sep @ t" by (auto simp: has_prefix_iff)
    then have "length sep \<le> Suc (length cs)"
      by (metis length_Cons length_append le_add1)
    with True "2.prems" show ?thesis by auto
  next
    case False
    with 2 show ?thesis by auto
  qed
qed

function split_n :: "bytes \<Rightarrow> bytes \<Rightarrow> int \<Rightarrow> bytes list" where
  "split_n s sep n =
     (if n = 1 \<or> sep = [] then [s]
      else case cut_at sep s of None \<Rightarrow> [s] | Some (a, b) \<Rightarrow> a # split_n b sep (n - 1))"
  by pat_completeness auto
termination
proof (relation "measure (\<lambda>(s, sep, n). length s)")
  fix s sep :: bytes and n :: int and ab a b
  assume "\<not> (n = 1 \<or> sep = [])" "cut_at sep s = Some ab" "(a, b) = ab"
  then have "length a + length sep + length b = length s" "sep \<noteq> []"
    using cut_at_length by auto
  then show "((b, sep, n - 1), s, sep, n) \<in> measure (\<lambda>(s, sep, n). length s)"
    by (cases sep) auto
qed simp

declare split_n.simps [simp del]

definition go_split :: "bytes \<Rightarrow> bytes \<Rightarrow> bytes list" where
  "go_split s sep = split_n s sep (- 1)"

fun go_join :: "bytes list \<Rightarrow> bytes \<Rightarrow> bytes" where
  "go_join [] sep = []"
| "go_join [x] sep = x"
| "go_join (x # y # xs) sep = x @ sep @ go_join (y # xs) sep"

lemma split_n_not_Nil [simp]: "split_n s sep n \<noteq> []"
  by (subst split_n.simps) (auto split: option.splits)

lemma go_join_Cons: "xs \<noteq> [] \<Longrightarrow> go_join (x # xs) sep = x @ sep @ go_join xs sep"
  by (cases xs) auto

lemma cut_at_SomeD: "cut_at sep s = Some (a, b) \<Longrightarrow> s = a @ sep @ b"
  by (induction sep s arbitrary: a b rule: cut_at.induct)
     (auto split: if_splits simp: has_prefix_iff)

lemma cut_at_None_iff: "cut_at sep s = None \<longleftrightarrow> \<not> contains s sep"
  by (induction sep s rule: cut_at.induct) auto

lemma go_join_split_n: "go_join (split_n s sep n) sep = s"
proof (induction s sep n rule: split_n.induct)
  case (1 s sep n)
  then show ?case
    by (subst split_n.simps)
       (auto split: option.splits dest!: cut_at_SomeD simp: go_join_Cons)
qed

lemma go_join_split: "go_join (go_split s sep) sep = s"
  by (simp add: go_split_def go_join_split_n)

text \<open>Replacing up to \<open>n\<close> occurrences is splitting at them and joining with the new text.\<close>

lemma replace_old_cut:
  assumes "old \<noteq> []"
  shows "replace_old old new s n =
    (if n = 0 then s
     else case cut_at old s of None \<Rightarrow> s | Some (a, b) \<Rightarrow> a @ new @ replace_old old new b (n - 1))"
proof (cases "n = 0")
  case True
  then show ?thesis by simp
next
  case False
  then show ?thesis
  proof (induction s)
    case Nil
    then show ?case using assms by simp
  next
    case (Cons c cs)
    then have "drop (length old) (c # cs) = drop (length old - 1) cs"
      using assms by (cases old) auto
    with Cons show ?case by (auto split: option.splits)
  qed
qed

lemma replace_old_split:
  assumes "old \<noteq> []" and "n < 0 \<or> 0 \<le> n"
  shows "replace_old old new s n = go_join (split_n s old (if n < 0 then n else n + 1)) new"
  using assms
proof (induction s old "if n < 0 then n else n + 1" arbitrary: n rule: split_n.induct)
  case (1 s old n)
  show ?case
  proof (cases "n = 0")
    case True
    then show ?thesis by (subst split_n.simps) simp
  next
    case n: False
    show ?thesis
    proof (cases "cut_at old s")
      case None
      with n 1 show ?thesis
        by (subst split_n.simps, subst replace_old_cut) auto
    next
      case (Some ab)
      then obtain a b where ab: "cut_at old s = Some (a, b)" by (cases ab) auto
      let ?k = "if n < 0 then n else n + 1"
      have k: "?k - 1 = (if n - 1 < 0 then n - 1 else n - 1 + 1)" using n by auto
      have k1: "\<not> (?k = 1 \<or> old = [])" using n 1(2) by auto
      have ih: "replace_old old new b (n - 1) = go_join (split_n b old (?k - 1)) new"
        using "1.hyps" [of "(a, b)" a b "n - 1"] k1 ab k 1(2) by simp
      show ?thesis using n ab ih k1 1(2)
        by (subst split_n.simps, subst replace_old_cut) (auto simp: go_join_Cons)
    qed
  qed
qed

lemma replace_old_single:
  "n < 0 \<Longrightarrow> replace_old [x] new s n = concat (map (\<lambda>c. if c = x then new else [c]) s)"
  by (induction s arbitrary: n) auto

subsection \<open>White space and fields\<close>

definition is_space :: "char \<Rightarrow> bool" where
  "is_space c \<longleftrightarrow> c = CHR '' '' \<or> c = CHR 0x09 \<or> c = CHR 0x0A \<or> c = CHR 0x0B \<or> c = CHR 0x0C \<or> c = CHR 0x0D"

definition trim_space :: "bytes \<Rightarrow> bytes" where
  "trim_space s = rev (dropWhile is_space (rev (dropWhile is_space s)))"

definition trim_chars :: "bytes \<Rightarrow> bytes \<Rightarrow> bytes" where
  "trim_chars cutset s =
     rev (dropWhile (\<lambda>c. c \<in> set cutset) (rev (dropWhile (\<lambda>c. c \<in> set cutset) s)))"

function fields :: "bytes \<Rightarrow> bytes list" where
  "fields s =
     (let t = dropWhile is_space s in
      if t = [] then []
      else takeWhile (\<lambda>c. \<not> is_space c) t # fields (dropWhile (\<lambda>c. \<not> is_space c) t))"
  by pat_completeness auto
termination
proof (relation "measure length", simp)
  fix s t
  assume t: "t = dropWhile is_space s" "t \<noteq> []"
  then have "\<not> is_space (hd t)" by (metis hd_dropWhile)
  with t(2) have "length (dropWhile (\<lambda>c. \<not> is_space c) t) < length t"
    by (cases t) (auto simp: le_imp_less_Suc length_dropWhile_le)
  also have "length t \<le> length s" using t(1) by (simp add: length_dropWhile_le)
  finally show "(dropWhile (\<lambda>c. \<not> is_space c) t, s) \<in> measure length" by simp
qed

declare fields.simps [simp del]

definition is_word :: "bytes \<Rightarrow> bool" where
  "is_word w \<longleftrightarrow> w \<noteq> [] \<and> (\<forall>c \<in> set w. \<not> is_space c)"

lemma fields_Nil [simp]: "fields [] = []"
  by (simp add: fields.simps)

lemma fields_skip: "is_space c \<Longrightarrow> fields (c # s) = fields s"
  by (subst (1 2) fields.simps) simp

lemma fields_nonspace:
  assumes "\<not> is_space c"
  shows "fields (c # s) =
    (c # takeWhile (\<lambda>c. \<not> is_space c) s) # fields (dropWhile (\<lambda>c. \<not> is_space c) s)"
  using assms by (subst fields.simps) simp

lemma fields_word_stop:
  assumes "is_word w"
  shows "fields w = [w]" and "is_space d \<Longrightarrow> fields (w @ d # s) = w # fields s"
proof -
  obtain c cs where w: "w = c # cs" "\<not> is_space c" "\<forall>x \<in> set cs. \<not> is_space x"
    using assms by (cases w) (auto simp: is_word_def)
  from w have d: "dropWhile (\<lambda>c. \<not> is_space c) cs = []" by simp
  from w show "fields w = [w]" by (simp add: fields_nonspace d)
  assume "is_space d"
  with w have "takeWhile (\<lambda>c. \<not> is_space c) (cs @ d # s) = cs"
    and "dropWhile (\<lambda>c. \<not> is_space c) (cs @ d # s) = d # s"
    by (simp_all add: takeWhile_append dropWhile_append)
  with w \<open>is_space d\<close> show "fields (w @ d # s) = w # fields s"
    by (simp add: fields_nonspace fields_skip)
qed

lemma is_space_space [simp]: "is_space CHR '' ''"
  by (simp add: is_space_def)

lemma fields_join_words:
  "\<forall>w \<in> set ws. is_word w \<Longrightarrow> fields (go_join ws '' '') = ws"
proof (induction ws "'' ''" rule: go_join.induct)
  case (3 x y xs)
  then show ?case by (simp add: fields_word_stop(2))
qed (auto simp: fields_word_stop(1))

lemma fields_are_words: "\<forall>w \<in> set (fields s). is_word w"
proof (induction "length s" arbitrary: s rule: less_induct)
  case less
  show ?case
  proof (cases s)
    case Nil
    then show ?thesis by simp
  next
    case (Cons c cs)
    let ?r = "dropWhile (\<lambda>c. \<not> is_space c) cs"
    have "length ?r < length s" and "length cs < length s"
      using Cons by (simp_all add: le_imp_less_Suc length_dropWhile_le)
    then have ih: "\<forall>w \<in> set (fields ?r). is_word w" "\<forall>w \<in> set (fields cs). is_word w"
      using less by blast+
    show ?thesis
    proof (cases "is_space c")
      case True
      with Cons ih show ?thesis by (simp add: fields_skip)
    next
      case False
      then have "is_word (c # takeWhile (\<lambda>c. \<not> is_space c) cs)"
        using set_takeWhileD by (fastforce simp: is_word_def)
      with Cons False ih show ?thesis by (simp add: fields_nonspace)
    qed
  qed
qed

end
