(* ===== verification/Go_Strconv.thy ===== *)
theory Go_Strconv
  imports Go_Strings Complex_Main
begin

text \<open>
  Go's \<open>strconv\<close> and the \<open>%d\<close> and \<open>%f\<close> verbs of \<open>fmt\<close>, on ASCII decimal text. A
  \<open>float64\<close> is a real number here: rounding to 53 bits, the infinities and NaN are not
  modelled, and \<open>ParseFloat\<close> is the decimal grammar (sign, digits, fraction, exponent).
\<close>

subsection \<open>Decimal digits\<close>

definition is_digit :: "char \<Rightarrow> bool" where
  "is_digit c \<longleftrightarrow> 48 \<le> (of_char c :: nat) \<and> (of_char c :: nat) \<le> 57"

definition digit_val :: "char \<Rightarrow> nat" where
  "digit_val c = of_char c - 48"

definition digit_char :: "nat \<Rightarrow> char" where
  "digit_char d = char_of (48 + d)"

lemma digit_char_props [simp]:
  "d < 10 \<Longrightarrow> is_digit (digit_char d)" "d < 10 \<Longrightarrow> digit_val (digit_char d) = d"
  by (simp_all add: digit_char_def is_digit_def digit_val_def)

function format_nat :: "nat \<Rightarrow> bytes" where
  "format_nat n = (if n < 10 then [digit_char n] else format_nat (n div 10) @ [digit_char (n mod 10)])"
  by pat_completeness auto
termination by (relation "measure id") auto

declare format_nat.simps [simp del]

definition format_int :: "int \<Rightarrow> bytes" where
  "format_int i = (if i < 0 then CHR ''-'' # format_nat (nat (- i)) else format_nat (nat i))"

definition digits_val :: "bytes \<Rightarrow> nat" where
  "digits_val = foldl (\<lambda>acc c. 10 * acc + digit_val c) 0"

lemma digits_val_snoc [simp]: "digits_val (s @ [c]) = 10 * digits_val s + digit_val c"
  by (simp add: digits_val_def)

lemma format_nat_props:
  "format_nat n \<noteq> [] \<and> (\<forall>c \<in> set (format_nat n). is_digit c) \<and> digits_val (format_nat n) = n"
proof (induction n rule: format_nat.induct)
  case (1 n)
  show ?case
  proof (cases "n < 10")
    case True
    then show ?thesis by (subst (1 2 3) format_nat.simps) (simp add: digits_val_def)
  next
    case False
    with 1 show ?thesis by (subst (1 2 3) format_nat.simps) auto
  qed
qed

lemma format_nat_not_Nil [simp]: "format_nat n \<noteq> []"
  and format_nat_digits: "\<forall>c \<in> set (format_nat n). is_digit c"
  and digits_val_format_nat [simp]: "digits_val (format_nat n) = n"
  using format_nat_props by blast+

lemma not_digit_chars [simp]:
  "\<not> is_digit CHR ''-''" "\<not> is_digit CHR ''+''" "\<not> is_digit CHR '',''" "\<not> is_digit CHR 0x0A"
  "\<not> is_digit CHR '' ''" "\<not> is_digit CHR ''.''" "\<not> is_digit CHR '':''"
  by (simp_all add: is_digit_def)

lemma digit_not_space: "is_digit c \<Longrightarrow> \<not> is_space c"
  by (auto simp: is_space_def is_digit_def)

subsection \<open>ParseUint, ParseInt, Atoi, ParseBool\<close>

datatype num_error = ErrSyntax | ErrRange

definition parse_uint :: "bytes \<Rightarrow> nat \<Rightarrow> num_error + nat" where
  "parse_uint s bits =
     (if s = [] \<or> \<not> list_all is_digit s then Inl ErrSyntax
      else if 2 ^ bits \<le> digits_val s then Inl ErrRange
      else Inr (digits_val s))"

definition parse_int :: "bytes \<Rightarrow> nat \<Rightarrow> num_error + int" where
  "parse_int s bits =
     (let neg = (s \<noteq> [] \<and> hd s = CHR ''-'');
          ds = (if s \<noteq> [] \<and> (hd s = CHR ''-'' \<or> hd s = CHR ''+'') then tl s else s)
      in if ds = [] \<or> \<not> list_all is_digit ds then Inl ErrSyntax
         else let n = int (digits_val ds) in
              if neg then (if 2 ^ (bits - 1) < n then Inl ErrRange else Inr (- n))
              else (if 2 ^ (bits - 1) \<le> n then Inl ErrRange else Inr n))"

text \<open>\<open>int\<close> is 64 bits wide on the relay's platforms.\<close>

definition atoi :: "bytes \<Rightarrow> num_error + int" where
  "atoi s = parse_int s 64"

lemma parse_uint_format_nat: "n < 2 ^ bits \<Longrightarrow> parse_uint (format_nat n) bits = Inr n"
  using format_nat_digits [of n] by (simp add: parse_uint_def list_all_iff)

lemma format_nat_hd: "is_digit (hd (format_nat n))"
  using format_nat_digits [of n] by (cases "format_nat n") auto

lemma parse_int_format_int:
  assumes "- (2 ^ (bits - 1)) \<le> i" and "i < 2 ^ (bits - 1)"
  shows "parse_int (format_int i) bits = Inr i"
proof (cases "i < 0")
  case True
  with assms format_nat_digits [of "nat (- i)"] show ?thesis
    by (simp add: parse_int_def format_int_def list_all_iff Let_def)
next
  case False
  have "hd (format_nat (nat i)) \<noteq> CHR ''-''" "hd (format_nat (nat i)) \<noteq> CHR ''+''"
    using format_nat_hd [of "nat i"] by auto
  with False assms format_nat_digits [of "nat i"] show ?thesis
    by (simp add: parse_int_def format_int_def list_all_iff Let_def)
qed

definition parse_bool :: "bytes \<Rightarrow> num_error + bool" where
  "parse_bool s =
     (if s \<in> {''1'', ''t'', ''T'', ''TRUE'', ''true'', ''True''} then Inr True
      else if s \<in> {''0'', ''f'', ''F'', ''FALSE'', ''false'', ''False''} then Inr False
      else Inl ErrSyntax)"

subsection \<open>Decimal floats\<close>

definition parse_exponent :: "bytes \<Rightarrow> int option" where
  "parse_exponent s =
     (case s of [] \<Rightarrow> Some 0
      | c # r \<Rightarrow>
         if c = CHR ''e'' \<or> c = CHR ''E''
         then (case parse_int r 64 of Inl _ \<Rightarrow> None | Inr e \<Rightarrow> Some e)
         else None)"

definition parse_float :: "bytes \<Rightarrow> num_error + real" where
  "parse_float s =
     (let neg = (s \<noteq> [] \<and> hd s = CHR ''-'');
          u = (if s \<noteq> [] \<and> (hd s = CHR ''-'' \<or> hd s = CHR ''+'') then tl s else s);
          ip = takeWhile is_digit u;
          r = dropWhile is_digit u;
          fp = (if r \<noteq> [] \<and> hd r = CHR ''.'' then takeWhile is_digit (tl r) else []);
          r2 = (if r \<noteq> [] \<and> hd r = CHR ''.'' then dropWhile is_digit (tl r) else r)
      in if ip = [] \<and> fp = [] then Inl ErrSyntax
         else case parse_exponent r2 of
             None \<Rightarrow> Inl ErrSyntax
           | Some e \<Rightarrow>
               (let m = real (digits_val (ip @ fp)) * (10 powi (e - int (length fp)))
                in Inr (if neg then - m else m)))"

text \<open>The verb \<open>%f\<close>: six decimals, rounding to the nearest and to the even digit half-way.\<close>

definition round_half_even :: "real \<Rightarrow> int" where
  "round_half_even x =
     (let f = \<lfloor>x\<rfloor>; d = x - of_int f
      in if d < 1 / 2 then f else if d > 1 / 2 then f + 1 else if even f then f else f + 1)"

definition pad_left :: "nat \<Rightarrow> char \<Rightarrow> bytes \<Rightarrow> bytes" where
  "pad_left w c s = replicate (w - length s) c @ s"

definition format_float6 :: "real \<Rightarrow> bytes" where
  "format_float6 x =
     (let n = nat (round_half_even (\<bar>x\<bar> * 1000000))
      in (if x < 0 then ''-'' else []) @ format_nat (n div 1000000) @ ''.'' @
         pad_left 6 CHR ''0'' (format_nat (n mod 1000000)))"

lemma list_all_is_digit_format_nat [simp]: "list_all is_digit (format_nat n)"
  using format_nat_digits by (simp add: list_all_iff)

lemma format_nat_is_word: "is_word (format_nat n)"
  using format_nat_digits [of n] by (auto simp: is_word_def dest: digit_not_space)

lemma format_float6_is_word: "is_word (format_float6 x)"
proof -
  have "is_digit CHR ''0''" "\<not> is_space CHR ''-''" "\<not> is_space CHR ''.''"
    by (simp_all add: is_digit_def is_space_def)
  then show ?thesis
    using format_nat_digits digit_not_space
    by (fastforce simp: is_word_def format_float6_def Let_def pad_left_def)
qed

end
