(* ===== verification/Go_Regexp.thy ===== *)
theory Go_Regexp
  imports Go_Strconv
begin

text \<open>
  Go's standard package \<open>regexp\<close>, as the relay uses it: \<open>Compile\<close>, \<open>Match\<close>,
  \<open>FindSubmatchIndex\<close>, \<open>Expand\<close> and \<open>ReplaceAll\<close>, with leftmost-first matching. The syntax
  is that of RE2 for single-byte text: literals, escapes of punctuation and the classes
  \<open>\d \D \w \W \s \S\<close>, \<open>.\<close>, bracket classes with ranges and negation, capturing and
  \<open>(?:\<dots>)\<close> groups, \<open>|\<close>, \<open>^\<close>, \<open>$\<close> and the quantifiers \<open>* + ?\<close> and their lazy forms.
  Counted repetitions \<open>{n,m}\<close>, named groups, flags and Unicode classes are answered with
  \<open>Unsupported\<close>, which no pattern of those forms outside the subset confuses with a syntax
  error of the package.
\<close>

subsection \<open>Abstract syntax and matching\<close>

datatype regexp =
    OpEmpty
  | OpLit char
  | OpAnyNotNL
  | OpClass bool "(char \<times> char) list"
  | OpBeginText
  | OpEndText
  | OpCat regexp regexp
  | OpAlt regexp regexp
  | OpStar bool regexp
  | OpPlus bool regexp
  | OpQuest bool regexp
  | OpCapture nat regexp

type_synonym captures = "(nat \<times> (nat \<times> nat)) list"

fun in_ranges :: "(char \<times> char) list \<Rightarrow> char \<Rightarrow> bool" where
  "in_ranges [] c = False"
| "in_ranges ((lo, hi) # rs) c = ((lo \<le> c \<and> c \<le> hi) \<or> in_ranges rs c)"

definition step_char :: "bytes \<Rightarrow> nat \<Rightarrow> (char \<Rightarrow> bool) \<Rightarrow> captures \<Rightarrow> (nat \<times> captures) list" where
  "step_char s i P cap = (if i < length s \<and> P (s ! i) then [(Suc i, cap)] else [])"

text \<open>
  \<open>matches r s i cap\<close> lists the ways \<open>r\<close> can match \<open>s\<close> from position \<open>i\<close>, in the order in
  which the matcher prefers them: the end positions with the captures recorded so far. An
  iteration of a star that consumed nothing leaves the loop.
\<close>

function (sequential) matches :: "regexp \<Rightarrow> bytes \<Rightarrow> nat \<Rightarrow> captures \<Rightarrow> (nat \<times> captures) list" where
  "matches OpEmpty s i cap = [(i, cap)]"
| "matches (OpLit c) s i cap = step_char s i (\<lambda>x. x = c) cap"
| "matches OpAnyNotNL s i cap = step_char s i (\<lambda>x. x \<noteq> CHR 0x0A) cap"
| "matches (OpClass neg rs) s i cap = step_char s i (\<lambda>x. in_ranges rs x \<noteq> neg) cap"
| "matches OpBeginText s i cap = (if i = 0 then [(i, cap)] else [])"
| "matches OpEndText s i cap = (if i = length s then [(i, cap)] else [])"
| "matches (OpCat a b) s i cap = concat (map (\<lambda>(j, cap'). matches b s j cap') (matches a s i cap))"
| "matches (OpAlt a b) s i cap = matches a s i cap @ matches b s i cap"
| "matches (OpStar greedy a) s i cap =
     (let loop = concat (map (\<lambda>(j, cap'). if i < j \<and> j \<le> length s
                                         then matches (OpStar greedy a) s j cap'
                                         else if j = i then [(j, cap')] else [])
                             (matches a s i cap))
      in if greedy then loop @ [(i, cap)] else (i, cap) # loop)"
| "matches (OpPlus greedy a) s i cap =
     concat (map (\<lambda>(j, cap'). if i < j \<and> j \<le> length s
                              then matches (OpStar greedy a) s j cap'
                              else if j = i then [(j, cap')] else [])
                 (matches a s i cap))"
| "matches (OpQuest greedy a) s i cap =
     (if greedy then matches a s i cap @ [(i, cap)] else (i, cap) # matches a s i cap)"
| "matches (OpCapture n a) s i cap =
     map (\<lambda>(j, cap'). (j, AList.update n (i, j) cap')) (matches a s i cap)"
  by pat_completeness auto
termination
  by (relation "measures [\<lambda>(r, s, i, cap). 2 * size r - (case r of OpStar _ _ \<Rightarrow> 1 | _ \<Rightarrow> 0), \<lambda>(r, s, i, cap). length s - i]")
     (auto split: regexp.splits)

definition match_at :: "regexp \<Rightarrow> bytes \<Rightarrow> nat \<Rightarrow> (nat \<times> captures) option" where
  "match_at r s i = (case matches r s i [] of [] \<Rightarrow> None | m # _ \<Rightarrow> Some m)"

text \<open>The leftmost match that starts at or after \<open>i\<close>: its start, its end, its captures.\<close>

function search_from :: "regexp \<Rightarrow> bytes \<Rightarrow> nat \<Rightarrow> (nat \<times> nat \<times> captures) option" where
  "search_from r s i =
     (if length s < i then None
      else case match_at r s i of
          Some (j, cap) \<Rightarrow> Some (i, j, cap)
        | None \<Rightarrow> search_from r s (Suc i))"
  by pat_completeness auto
termination by (relation "measure (\<lambda>(r, s, i). Suc (length s) - i)") auto

declare search_from.simps [simp del]

definition FindSubmatchIndex :: "regexp \<Rightarrow> bytes \<Rightarrow> (nat \<times> nat \<times> captures) option" where
  "FindSubmatchIndex r s = search_from r s 0"

definition MatchBytes :: "regexp \<Rightarrow> bytes \<Rightarrow> bool" where
  "MatchBytes r s \<longleftrightarrow> FindSubmatchIndex r s \<noteq> None"

lemma search_from_Some_iff:
  "(\<exists>m. search_from r s i = Some m) \<longleftrightarrow> (\<exists>k. i \<le> k \<and> k \<le> length s \<and> matches r s k [] \<noteq> [])"
proof (induction r s i rule: search_from.induct)
  case (1 r s i)
  show ?case
  proof (cases "length s < i \<or> match_at r s i \<noteq> None")
    case True
    then show ?thesis
      by (subst search_from.simps) (auto simp: match_at_def split: list.splits)
  next
    case False
    then have none: "\<not> length s < i" "match_at r s i = None" "matches r s i [] = []"
      by (auto simp: match_at_def split: list.splits)
    then have "(\<exists>k. i \<le> k \<and> k \<le> length s \<and> matches r s k [] \<noteq> []) \<longleftrightarrow>
               (\<exists>k. Suc i \<le> k \<and> k \<le> length s \<and> matches r s k [] \<noteq> [])"
      by (metis Suc_leD Suc_leI le_neq_implies_less)
    with none 1 show ?thesis by (subst search_from.simps) simp
  qed
qed

lemma MatchBytes_iff: "MatchBytes r s \<longleftrightarrow> (\<exists>k \<le> length s. matches r s k [] \<noteq> [])"
  using search_from_Some_iff [of r s 0] by (auto simp: MatchBytes_def FindSubmatchIndex_def)

subsection \<open>Regular expressions that start with a literal text\<close>

text \<open>\<open>starts_with r p\<close>: every way to match \<open>r\<close> starts at 0 and reads the bytes \<open>p\<close> first.\<close>

fun lead :: "regexp \<Rightarrow> regexp list" where
  "lead (OpCat a b) = lead a @ lead b"
| "lead OpEmpty = []"
| "lead r = [r]"

definition starts_with :: "regexp \<Rightarrow> bytes \<Rightarrow> bool" where
  "starts_with r p \<longleftrightarrow> take (Suc (length p)) (lead r) = OpBeginText # map OpLit p"

fun matches_all :: "regexp list \<Rightarrow> bytes \<Rightarrow> nat \<Rightarrow> captures \<Rightarrow> (nat \<times> captures) list" where
  "matches_all [] s i cap = [(i, cap)]"
| "matches_all (r # rs) s i cap = concat (map (\<lambda>(j, cap'). matches_all rs s j cap') (matches r s i cap))"

lemma matches_all_append:
  "matches_all (xs @ ys) s i cap = concat (map (\<lambda>(j, cap'). matches_all ys s j cap') (matches_all xs s i cap))"
proof (induction xs arbitrary: i cap)
  case Nil
  then show ?case by simp
next
  case (Cons r xs)
  have "concat (map (\<lambda>(j, c). concat (map (\<lambda>(j, c). matches_all ys s j c) (matches_all xs s j c))) l) =
    concat (map (\<lambda>(j, c). matches_all ys s j c) (concat (map (\<lambda>(j, c). matches_all xs s j c) l)))" for l
    by (induction l) auto
  with Cons show ?case by (simp add: split_def)
qed

lemma matches_all_single: "matches_all [r] s i cap = matches r s i cap"
  by (induction "matches r s i cap") (auto simp: concat_map_singleton split_def)

lemma matches_lead: "matches r s i cap = matches_all (lead r) s i cap"
proof (induction r arbitrary: i cap rule: lead.induct)
  case (1 a b)
  then show ?case by (simp add: matches_all_append split_def)
next
  case 2
  then show ?case by simp
qed (simp_all only: lead.simps matches_all_single)

lemma matches_all_lits:
  "matches_all (map OpLit p @ rs) s i cap \<noteq> [] \<Longrightarrow> i \<le> length s \<Longrightarrow> has_prefix (drop i s) p"
proof (induction p arbitrary: i)
  case Nil
  then show ?case by simp
next
  case (Cons c p)
  then have i: "i < length s" "s ! i = c" and "matches_all (map OpLit p @ rs) s (Suc i) cap \<noteq> []"
    by (auto simp: step_char_def split: if_splits)
  with Cons.IH [of "Suc i"] have "has_prefix (drop (Suc i) s) p" by simp
  with i show ?case by (simp add: Cons_nth_drop_Suc [symmetric])
qed

lemma starts_with_prefix:
  assumes "starts_with r p" and "MatchBytes r s"
  shows "has_prefix s p"
proof -
  from assms(1) obtain rs where l: "lead r = OpBeginText # map OpLit p @ rs"
    unfolding starts_with_def by (metis append_Cons append_take_drop_id)
  from assms(2) obtain k where "matches r s k [] \<noteq> []" by (auto simp: MatchBytes_iff)
  then have "matches_all (OpBeginText # map OpLit p @ rs) s k [] \<noteq> []"
    by (simp add: matches_lead [of r] l)
  then have "matches_all (map OpLit p @ rs) s 0 [] \<noteq> []"
    by (auto split: if_splits)
  then show ?thesis using matches_all_lits [of p rs s 0] by simp
qed

subsection \<open>Compile\<close>

datatype regexp_error = MissingParen | UnexpectedParen | MissingBracket | MissingRepeatArgument
  | InvalidRepeatOp | TrailingBackslash | InvalidEscape | InvalidCharRange | Unsupported

text \<open>
  The parser keeps a stack of open groups, as the package's does: the alternatives already
  completed, the current concatenation (last element first), and how the group captures.
\<close>

record frame =
  alts :: "regexp list"
  cat :: "regexp list"
  capidx :: "nat option"

definition new_frame :: "nat option \<Rightarrow> frame" where
  "new_frame c = \<lparr>alts = [], cat = [], capidx = c\<rparr>"

fun cat_of :: "regexp list \<Rightarrow> regexp" where
  "cat_of [] = OpEmpty"
| "cat_of [r] = r"
| "cat_of (r # rs) = OpCat r (cat_of rs)"

fun alt_of :: "regexp list \<Rightarrow> regexp" where
  "alt_of [] = OpEmpty"
| "alt_of [r] = r"
| "alt_of (r # rs) = OpAlt r (alt_of rs)"

definition close_frame :: "frame \<Rightarrow> regexp" where
  "close_frame f =
     (let body = alt_of (rev (cat_of (rev (cat f)) # alts f))
      in case capidx f of None \<Rightarrow> body | Some n \<Rightarrow> OpCapture n body)"

definition push :: "regexp \<Rightarrow> frame \<Rightarrow> frame" where
  "push r f = f\<lparr>cat := r # cat f\<rparr>"

definition escape_class :: "char \<Rightarrow> regexp option" where
  "escape_class c =
     (let digit = [(CHR ''0'', CHR ''9'')];
          word = [(CHR ''0'', CHR ''9''), (CHR ''A'', CHR ''Z''), (CHR ''_'', CHR ''_''), (CHR ''a'', CHR ''z'')];
          space = [(CHR 0x09, CHR 0x0A), (CHR 0x0C, CHR 0x0D), (CHR '' '', CHR '' '')]
      in if c = CHR ''d'' then Some (OpClass False digit)
         else if c = CHR ''D'' then Some (OpClass True digit)
         else if c = CHR ''w'' then Some (OpClass False word)
         else if c = CHR ''W'' then Some (OpClass True word)
         else if c = CHR ''s'' then Some (OpClass False space)
         else if c = CHR ''S'' then Some (OpClass True space)
         else None)"

definition is_punct :: "char \<Rightarrow> bool" where
  "is_punct c \<longleftrightarrow> (let n = (of_char c :: nat) in
     (33 \<le> n \<and> n \<le> 47) \<or> (58 \<le> n \<and> n \<le> 64) \<or> (91 \<le> n \<and> n \<le> 96) \<or> (123 \<le> n \<and> n \<le> 126))"

definition escape_lit :: "char \<Rightarrow> char option" where
  "escape_lit c =
     (if is_punct c then Some c
      else if c = CHR ''n'' then Some CHR 0x0A
      else if c = CHR ''t'' then Some CHR 0x09
      else if c = CHR ''r'' then Some CHR 0x0D
      else if c = CHR ''f'' then Some CHR 0x0C
      else if c = CHR ''v'' then Some CHR 0x0B
      else if c = CHR ''a'' then Some CHR 0x07
      else None)"

text \<open>
  The inside of \<open>[\<dots>]\<close>, after an optional \<open>^\<close>: ranges up to the closing bracket, which is a
  member when it comes first. Returns the ranges and the rest of the pattern.
\<close>

definition class_char :: "bytes \<Rightarrow> (regexp_error + char \<times> bytes)" where
  "class_char s =
     (case s of
        [] \<Rightarrow> Inl MissingBracket
      | c # r \<Rightarrow>
          if c = CHR 0x5C
          then (case r of
                  [] \<Rightarrow> Inl MissingBracket
                | e # r' \<Rightarrow> (case escape_lit e of None \<Rightarrow> Inl Unsupported | Some l \<Rightarrow> Inr (l, r')))
          else Inr (c, r))"

lemma class_char_length: "class_char s = Inr (c, r) \<Longrightarrow> length r < length s"
  by (auto simp: class_char_def split: list.splits if_splits option.splits)

definition class_item :: "bytes \<Rightarrow> regexp_error + ((char \<times> char) list \<times> bytes)" where
  "class_item s =
     (case s of
        [] \<Rightarrow> Inl MissingBracket
      | c # r \<Rightarrow>
         if c = CHR ''['' \<and> r \<noteq> [] \<and> hd r = CHR '':'' then Inl Unsupported
         else if c = CHR 0x5C \<and> r \<noteq> [] \<and> escape_class (hd r) \<noteq> None
         then (case escape_class (hd r) of
                 Some (OpClass False rs) \<Rightarrow> Inr (rs, tl r)
               | _ \<Rightarrow> Inl Unsupported)
         else case class_char s of
             Inl e \<Rightarrow> Inl e
           | Inr (lo, r1) \<Rightarrow>
               if r1 \<noteq> [] \<and> hd r1 = CHR ''-'' \<and> tl r1 \<noteq> [] \<and> hd (tl r1) \<noteq> CHR '']''
               then (case class_char (tl r1) of
                       Inl e \<Rightarrow> Inl e
                     | Inr (hi, r2) \<Rightarrow> if hi < lo then Inl InvalidCharRange else Inr ([(lo, hi)], r2))
               else Inr ([(lo, lo)], r1))"

lemma class_item_length: "class_item s = Inr (rs, r) \<Longrightarrow> length r < length s"
  unfolding class_item_def
  by (auto split: list.splits if_splits option.splits regexp.splits bool.splits sum.splits
      dest!: class_char_length)

function parse_class :: "bool \<Rightarrow> (char \<times> char) list \<Rightarrow> bytes \<Rightarrow> regexp_error + ((char \<times> char) list \<times> bytes)" where
  "parse_class first acc s =
     (if s \<noteq> [] \<and> hd s = CHR '']'' \<and> \<not> first then Inr (rev acc, tl s)
      else case class_item s of
          Inl e \<Rightarrow> Inl e
        | Inr (rs, s') \<Rightarrow> parse_class False (rev rs @ acc) s')"
  by pat_completeness auto
termination
  by (relation "measure (\<lambda>(first, acc, s). length s)") (auto dest!: class_item_length)

declare parse_class.simps [simp del]

lemma parse_class_length: "parse_class first acc s = Inr (rs, r) \<Longrightarrow> length r < length s"
proof (induction first acc s rule: parse_class.induct)
  case (1 first acc s)
  show ?case
  proof (cases "s \<noteq> [] \<and> hd s = CHR '']'' \<and> \<not> first")
    case True
    with "1.prems" show ?thesis by (subst (asm) parse_class.simps) auto
  next
    case False
    with "1.prems" obtain xs s' where item: "class_item s = Inr (xs, s')"
      and "parse_class False (rev xs @ acc) s' = Inr (rs, r)"
      by (subst (asm) parse_class.simps) (auto split: sum.splits prod.splits)
    with "1.IH" False have "length r < length s'" by blast
    with class_item_length [OF item] show ?thesis by simp
  qed
qed

definition quantify :: "(bool \<Rightarrow> regexp \<Rightarrow> regexp) \<Rightarrow> bool \<Rightarrow> frame \<Rightarrow> regexp_error + frame" where
  "quantify q greedy f =
     (case cat f of [] \<Rightarrow> Inl MissingRepeatArgument | r # rs \<Rightarrow> Inr (f\<lparr>cat := q greedy r # rs\<rparr>))"

definition quantifier :: "char \<Rightarrow> (bool \<Rightarrow> regexp \<Rightarrow> regexp) option" where
  "quantifier c =
     (if c = CHR ''*'' then Some OpStar
      else if c = CHR ''+'' then Some OpPlus
      else if c = CHR ''?'' then Some OpQuest
      else None)"

function parse :: "frame \<Rightarrow> frame list \<Rightarrow> nat \<Rightarrow> bytes \<Rightarrow> regexp_error + regexp" where
  "parse f stack ncap s =
     (case s of
        [] \<Rightarrow> (if stack = [] then Inr (close_frame f) else Inl MissingParen)
      | c # r \<Rightarrow>
         (case quantifier c of
            Some q \<Rightarrow>
              (let lazy = (r \<noteq> [] \<and> hd r = CHR ''?''); r' = (if lazy then tl r else r) in
               if r' \<noteq> [] \<and> quantifier (hd r') \<noteq> None then Inl InvalidRepeatOp
               else case quantify q (\<not> lazy) f of
                   Inl e \<Rightarrow> Inl e
                 | Inr f' \<Rightarrow> parse f' stack ncap r')
          | None \<Rightarrow>
              if c = CHR ''('' then
                (if r \<noteq> [] \<and> hd r = CHR ''?''
                 then (if tl r \<noteq> [] \<and> hd (tl r) = CHR '':''
                       then parse (new_frame None) (f # stack) ncap (tl (tl r))
                       else Inl Unsupported)
                 else parse (new_frame (Some (Suc ncap))) (f # stack) (Suc ncap) r)
              else if c = CHR '')'' then
                (case stack of
                   [] \<Rightarrow> Inl UnexpectedParen
                 | g # stack' \<Rightarrow> parse (push (close_frame f) g) stack' ncap r)
              else if c = CHR ''|'' then
                parse (f\<lparr>alts := cat_of (rev (cat f)) # alts f, cat := []\<rparr>) stack ncap r
              else if c = CHR ''['' then
                (let neg = (r \<noteq> [] \<and> hd r = CHR ''^'') in
                 case parse_class True [] (if neg then tl r else r) of
                   Inl e \<Rightarrow> Inl e
                 | Inr (rs, r') \<Rightarrow> parse (push (OpClass neg rs) f) stack ncap r')
              else if c = CHR 0x5C then
                (case r of
                   [] \<Rightarrow> Inl TrailingBackslash
                 | e # r' \<Rightarrow>
                     (case escape_class e of
                        Some cls \<Rightarrow> parse (push cls f) stack ncap r'
                      | None \<Rightarrow>
                          (case escape_lit e of
                             Some l \<Rightarrow> parse (push (OpLit l) f) stack ncap r'
                           | None \<Rightarrow> Inl (if is_digit e then InvalidEscape else Unsupported))))
              else if c = CHR ''{'' then Inl Unsupported
              else if c = CHR ''.'' then parse (push OpAnyNotNL f) stack ncap r
              else if c = CHR ''^'' then parse (push OpBeginText f) stack ncap r
              else if c = CHR ''$'' then parse (push OpEndText f) stack ncap r
              else parse (push (OpLit c) f) stack ncap r))"
  by pat_completeness auto
termination
  by (relation "measure (\<lambda>(f, stack, ncap, s). length s)")
     (auto simp: Let_def split: if_splits dest!: parse_class_length)

declare parse.simps [simp del]

definition Compile :: "bytes \<Rightarrow> regexp_error + regexp" where
  "Compile s = parse (new_frame None) [] 0 s"

end
