(* ===== verification/Go_Expand.thy ===== *)
theory Go_Expand
  imports Go_Regexp
begin

text \<open>
  Templates of Go's \<open>regexp\<close>: \<open>Expand\<close> replaces \<open>$1\<close>, \<open>${1}\<close> and \<open>$$\<close> in a template by the
  text of the groups, and \<open>ReplaceAll\<close> rewrites every match of an expression by the expanded
  template. A name that is not a number refers to a named group; the patterns modelled have
  none, so it expands to nothing.
\<close>

definition is_name_char :: "char \<Rightarrow> bool" where
  "is_name_char c \<longleftrightarrow> is_digit c \<or> c = CHR ''_'' \<or>
     (CHR ''a'' \<le> c \<and> c \<le> CHR ''z'') \<or> (CHR ''A'' \<le> c \<and> c \<le> CHR ''Z'')"

text \<open>The group number a name stands for: all digits, no leading zero, below \<open>10^9\<close>.\<close>

definition group_number :: "bytes \<Rightarrow> nat option" where
  "group_number name =
     (if list_all is_digit name \<and> (name = ''0'' \<or> hd name \<noteq> CHR ''0'') \<and> length name \<le> 9
      then Some (digits_val name) else None)"

text \<open>\<open>extract_ref\<close>: the group reference after a dollar sign and the rest of the template.\<close>

definition extract_ref :: "bytes \<Rightarrow> (nat option \<times> bytes) option" where
  "extract_ref t =
     (let brace = (t \<noteq> [] \<and> hd t = CHR ''{'');
          u = (if brace then tl t else t);
          name = takeWhile is_name_char u;
          rest = dropWhile is_name_char u
      in if name = [] then None
         else if brace \<and> (rest = [] \<or> hd rest \<noteq> CHR ''}'') then None
         else Some (group_number name, if brace then tl rest else rest))"

lemma extract_ref_length: "extract_ref t = Some (g, rest) \<Longrightarrow> length rest < length t"
proof -
  assume a: "extract_ref t = Some (g, rest)"
  let ?u = "if t \<noteq> [] \<and> hd t = CHR ''{'' then tl t else t"
  have "takeWhile is_name_char ?u \<noteq> []"
    using a by (auto simp: extract_ref_def Let_def split: if_splits)
  then have "length (dropWhile is_name_char ?u) < length ?u"
    by (metis add_less_cancel_right append_Nil length_append length_greater_0_conv
        less_add_same_cancel2 takeWhile_dropWhile_id)
  moreover have "length rest \<le> length (dropWhile is_name_char ?u)"
    using a by (auto simp: extract_ref_def Let_def split: if_splits)
  moreover have "length ?u \<le> length t" by auto
  ultimately show ?thesis by linarith
qed

definition group_text :: "bytes \<Rightarrow> nat \<times> nat \<times> captures \<Rightarrow> nat option \<Rightarrow> bytes" where
  "group_text src m g =
     (case m of (i, j, cap) \<Rightarrow>
       (case g of
          None \<Rightarrow> []
        | Some 0 \<Rightarrow> take (j - i) (drop i src)
        | Some n \<Rightarrow> (case map_of cap n of None \<Rightarrow> [] | Some (a, b) \<Rightarrow> take (b - a) (drop a src))))"

function Expand :: "bytes \<Rightarrow> bytes \<Rightarrow> nat \<times> nat \<times> captures \<Rightarrow> bytes" where
  "Expand template src m =
     (case template of
        [] \<Rightarrow> []
      | c # t \<Rightarrow>
         if c \<noteq> CHR ''$'' then c # Expand t src m
         else if t \<noteq> [] \<and> hd t = CHR ''$'' then CHR ''$'' # Expand (tl t) src m
         else case extract_ref t of
             None \<Rightarrow> CHR ''$'' # Expand t src m
           | Some (g, rest) \<Rightarrow> group_text src m g @ Expand rest src m)"
  by pat_completeness auto
termination
  by (relation "measure (\<lambda>(t, src, m). length t)") (auto dest!: extract_ref_length)

declare Expand.simps [simp del]

lemma Expand_plain: "CHR ''$'' \<notin> set template \<Longrightarrow> Expand template src m = template"
  by (induction template) (auto simp: Expand.simps)

text \<open>The loop of \<open>ReplaceAll\<close> from a search position, with the end of the last match.\<close>

definition next_search :: "nat \<Rightarrow> nat \<Rightarrow> nat" where
  "next_search pos j = (if j < Suc pos then Suc pos else j)"

function replace_all_from :: "regexp \<Rightarrow> bytes \<Rightarrow> bytes \<Rightarrow> nat \<Rightarrow> nat \<Rightarrow> bytes" where
  "replace_all_from r src template lastEnd pos =
     (if length src < pos then drop lastEnd src
      else case search_from r src pos of
          None \<Rightarrow> drop lastEnd src
        | Some (i, j, cap) \<Rightarrow>
            take (i - lastEnd) (drop lastEnd src) @
            (if lastEnd < j \<or> i = 0 then Expand template src (i, j, cap) else []) @
            replace_all_from r src template j (next_search pos j))"
  by pat_completeness auto
termination
  by (relation "measure (\<lambda>(r, src, template, lastEnd, pos). Suc (length src) - pos)")
     (auto simp: next_search_def)

declare replace_all_from.simps [simp del]

definition ReplaceAll :: "regexp \<Rightarrow> bytes \<Rightarrow> bytes \<Rightarrow> bytes" where
  "ReplaceAll r src template = replace_all_from r src template 0 0"

lemma ReplaceAll_no_match: "\<not> MatchBytes r src \<Longrightarrow> ReplaceAll r src template = src"
  unfolding ReplaceAll_def MatchBytes_def FindSubmatchIndex_def
  by (subst replace_all_from.simps) (simp only: not_not option.case drop_0 if_cancel)

end
