(* ===== verification/Relay_Rewriter.thy ===== *)
theory Relay_Rewriter
  imports Go_Expand
begin

text \<open>
  \<^verbatim>\<open>rewriter/rewriter.go\<close>: the rules that rename metrics. \<open>rewriter_New\<close> is \<open>New\<close> with its
  five errors, \<open>Do\<close> the rewriting itself. The properties tie the textual rules to splitting and
  joining, and fix the meaning of \<open>not\<close> and of \<open>max\<close>.
\<close>

datatype rewriter_error = errEmptyOld | errMaxTooLow | errInvalidRegexp | errInvalidNotRegexp
  | errInvalidRegexpMax

record RW =
  Old :: bytes
  New :: bytes
  Not :: bytes
  Max :: int
  rw_old :: bytes
  rw_new :: bytes
  rw_not :: bytes
  rw_re :: "regexp option"
  rw_notRe :: "regexp option"

definition slashed :: "bytes \<Rightarrow> bool" where
  "slashed s \<longleftrightarrow> 1 < length s \<and> hd s = CHR ''/'' \<and> last s = CHR ''/''"

definition rewriter_New :: "bytes \<Rightarrow> bytes \<Rightarrow> bytes \<Rightarrow> int \<Rightarrow> rewriter_error + RW" where
  "rewriter_New old new nt mx =
     (if length old = 0 then Inl errEmptyOld
      else if mx < - 1 then Inl errMaxTooLow
      else
        bind_result
          (if slashed old
           then (case Compile (butlast (tl old)) of
                   Inl _ \<Rightarrow> Inl errInvalidRegexp
                 | Inr re \<Rightarrow> if mx \<noteq> - 1 then Inl errInvalidRegexpMax else Inr (Some re))
           else Inr None)
          (\<lambda>re.
        bind_result
          (if slashed nt
           then (case Compile (butlast (tl nt)) of
                   Inl _ \<Rightarrow> Inl errInvalidNotRegexp
                 | Inr notRe \<Rightarrow> Inr (Some notRe))
           else Inr None)
          (\<lambda>notRe.
        Inr \<lparr>Old = old, New = new, Not = nt, Max = mx,
             rw_old = old, rw_new = new, rw_not = nt, rw_re = re, rw_notRe = notRe\<rparr>)))"

definition Do :: "RW \<Rightarrow> bytes \<Rightarrow> bytes" where
  "Do r buf =
     (let rewrite = (case rw_re r of
                       Some re \<Rightarrow> ReplaceAll re buf (rw_new r)
                     | None \<Rightarrow> go_replace buf (rw_old r) (rw_new r) (Max r))
      in case rw_notRe r of
           Some notRe \<Rightarrow> if MatchBytes notRe buf then buf else rewrite
         | None \<Rightarrow>
             if 0 < length (rw_not r) \<and> contains buf (rw_not r) then buf else rewrite)"

lemma rewriter_New_fields:
  assumes "rewriter_New old new nt mx = Inr r"
  shows "rw_old r = old" "rw_new r = new" "rw_not r = nt" "Max r = mx" "old \<noteq> []" "- 1 \<le> mx"
    "rw_re r = (if slashed old then Some (projr (Compile (butlast (tl old)))) else None)"
    "rw_notRe r = (if slashed nt then Some (projr (Compile (butlast (tl nt)))) else None)"
    "slashed old \<Longrightarrow> mx = - 1"
  using assms by (auto simp: rewriter_New_def split: if_splits sum.splits)

lemma replace_old_no_occurrence:
  assumes "old \<noteq> []" and "\<not> contains s old" shows "replace_old old new s n = s"
  using assms by (subst replace_old_cut) (auto simp: cut_at_None_iff [symmetric] split: option.splits)

subsection \<open>Properties\<close>

text \<open>C19: a textual rule rewrites a key exactly by splitting it at the occurrences of \<open>old\<close> (all of
  them for \<open>max = -1\<close>, the first \<open>max\<close> otherwise) and joining the pieces with \<open>new\<close>, unless the key
  contains the \<open>not\<close> text, in which case it is left alone.\<close>

theorem textual_rewrite_is_split_join:
  assumes "rewriter_New old new nt mx = Inr r" and "\<not> slashed old" and "\<not> slashed nt"
  shows "Do r buf =
    (if nt \<noteq> [] \<and> contains buf nt then buf
     else go_join (split_n buf old (if mx < 0 then mx else mx + 1)) new)"
  using rewriter_New_fields [OF assms(1)] assms(2,3)
  by (auto simp: Do_def go_replace_def replace_old_split)

theorem textual_rewrite_is_split_join_witness:
  "\<exists>r. rewriter_New ''foo'' ''bar'' ''keep'' 1 = Inr r \<and> Do r ''foo.foo'' = ''bar.foo'' \<and>
       Do r ''foo.keep'' = ''foo.keep''"
proof -
  let ?r = "projr (rewriter_New ''foo'' ''bar'' ''keep'' 1)"
  have new: "rewriter_New ''foo'' ''bar'' ''keep'' 1 = Inr ?r"
    by (simp add: rewriter_New_def slashed_def)
  have sl: "\<not> slashed ''foo''" "\<not> slashed ''keep''" by code_simp+
  have "split_n ''foo.foo'' ''foo'' 2 = ['''', ''.foo'']" by code_simp
  moreover have "\<not> contains ''foo.foo'' ''keep''" "contains ''foo.keep'' ''keep''" by code_simp+
  ultimately have "Do ?r ''foo.foo'' = ''bar.foo''" "Do ?r ''foo.keep'' = ''foo.keep''"
    using textual_rewrite_is_split_join [OF new sl, of "''foo.foo''"]
      textual_rewrite_is_split_join [OF new sl, of "''foo.keep''"] by simp_all
  with new show ?thesis by blast
qed

end
