(* ===== verification/Agg_Processor.thy ===== *)
theory Agg_Processor
  imports Go_Strconv Complex_Main
begin

text \<open>
  \<^verbatim>\<open>aggregator/processor.go\<close>: the ten aggregation functions. The Go code has one struct per
  function behind the interface \<open>Processor\<close>; here they are the constructors of a datatype, with
  the fields of the structs, and \<open>Add\<close> and \<open>Flush\<close> have one equation per struct. A \<open>float64\<close> is
  a real number: rounding, infinities and NaN are not modelled. The map \<open>percents\<close> is iterated
  in a fixed order. The specification \<open>aggregate\<close> gives each function on the whole list of
  points, and \<open>flush_is_aggregate\<close> says that the incremental code computes it.
\<close>

datatype Processor =
    PAvg real nat
  | PCount nat
  | PDelta real real
  | PDerive uint32 uint32 real real
  | PLast real
  | PMax real
  | PMin real
  | PStdev real "real list"
  | PPercentiles "real list"
  | PSum real

datatype agg_error = NoSuchFunction bytes

type_synonym processorResult = "bytes \<times> real"

definition percents :: "(bytes \<times> real) list" where
  "percents = [(''p25'', 25), (''p50'', 50), (''p75'', 75), (''p90'', 90), (''p95'', 95), (''p99'', 99)]"

definition NewAvg :: "real \<Rightarrow> uint32 \<Rightarrow> Processor" where "NewAvg val ts = PAvg val 1"
definition NewCount :: "real \<Rightarrow> uint32 \<Rightarrow> Processor" where "NewCount val ts = PCount 1"
definition NewDelta :: "real \<Rightarrow> uint32 \<Rightarrow> Processor" where "NewDelta val ts = PDelta val val"
definition NewDerive :: "real \<Rightarrow> uint32 \<Rightarrow> Processor" where "NewDerive val ts = PDerive ts ts val val"
definition NewLast :: "real \<Rightarrow> uint32 \<Rightarrow> Processor" where "NewLast val ts = PLast val"
definition NewMax :: "real \<Rightarrow> uint32 \<Rightarrow> Processor" where "NewMax val ts = PMax val"
definition NewMin :: "real \<Rightarrow> uint32 \<Rightarrow> Processor" where "NewMin val ts = PMin val"
definition NewStdev :: "real \<Rightarrow> uint32 \<Rightarrow> Processor" where "NewStdev val ts = PStdev val [val]"
definition NewPercentiles :: "real \<Rightarrow> uint32 \<Rightarrow> Processor" where "NewPercentiles val ts = PPercentiles [val]"
definition NewSum :: "real \<Rightarrow> uint32 \<Rightarrow> Processor" where "NewSum val ts = PSum val"

lemmas constructors = NewAvg_def NewCount_def NewDelta_def NewDerive_def NewLast_def NewMax_def
  NewMin_def NewStdev_def NewPercentiles_def NewSum_def

fun Add :: "real \<Rightarrow> uint32 \<Rightarrow> Processor \<Rightarrow> Processor" where
  "Add val ts (PAvg s cnt) = PAvg (s + val) (cnt + 1)"
| "Add val ts (PCount cnt) = PCount (cnt + 1)"
| "Add val ts (PDelta mx mn) = PDelta (if val > mx then val else mx) (if val < mn then val else mn)"
| "Add val ts (PDerive oldestTs newestTs oldestVal newestVal) =
     (let (newestTs', newestVal') = (if ts > newestTs then (ts, val) else (newestTs, newestVal));
          (oldestTs', oldestVal') = (if ts < oldestTs then (ts, val) else (oldestTs, oldestVal))
      in PDerive oldestTs' newestTs' oldestVal' newestVal')"
| "Add val ts (PLast v) = PLast val"
| "Add val ts (PMax v) = PMax (if val > v then val else v)"
| "Add val ts (PMin v) = PMin (if val < v then val else v)"
| "Add val ts (PStdev s values) = PStdev (s + val) (values @ [val])"
| "Add val ts (PPercentiles values) = PPercentiles (values @ [val])"
| "Add val ts (PSum s) = PSum (s + val)"

text \<open>One percentile of the sorted values; the branches are those of the loop body.\<close>

definition percentile :: "real list \<Rightarrow> real \<Rightarrow> real" where
  "percentile values percent =
     (let size = length values;
          rank = (percent / 100) * (real size + 1);
          fl = nat \<lfloor>rank\<rfloor>
      in if rank < 1 then values ! 0
         else if fl \<ge> size then values ! (size - 1)
         else
           let frac = rank - real fl;
               upper = fl + 1
           in values ! (fl - 1) + frac * (values ! (upper - 1) - values ! (fl - 1)))"

fun Flush :: "Processor \<Rightarrow> processorResult list \<times> bool" where
  "Flush (PAvg s cnt) = ([(''avg'', s / real cnt)], True)"
| "Flush (PCount cnt) = ([(''count'', real cnt)], True)"
| "Flush (PDelta mx mn) = ([(''delta'', mx - mn)], True)"
| "Flush (PDerive oldestTs newestTs oldestVal newestVal) =
     (if newestTs = oldestTs then ([], False)
      else ([(''derive'', (newestVal - oldestVal) / real (unat (newestTs - oldestTs)))], True))"
| "Flush (PLast v) = ([(''last'', v)], True)"
| "Flush (PMax v) = ([(''max'', v)], True)"
| "Flush (PMin v) = ([(''min'', v)], True)"
| "Flush (PStdev s values) =
     (let mean = s / real (length values);
          variance = foldl (\<lambda>acc term. acc + (term - mean) ^ 2) 0 values / real (length values)
      in ([(''stdev'', sqrt variance)], True))"
| "Flush (PPercentiles values) =
     (if length values = 0 then ([], False)
      else (map (\<lambda>(fcnName, percent). (fcnName, percentile (sort values) percent)) percents, True))"
| "Flush (PSum s) = ([(''sum'', s)], True)"

definition GetProcessorConstructor :: "bytes \<Rightarrow> agg_error + (real \<Rightarrow> uint32 \<Rightarrow> Processor)" where
  "GetProcessorConstructor f =
     (if f = ''avg'' then Inr NewAvg
      else if f = ''count'' then Inr NewCount
      else if f = ''delta'' then Inr NewDelta
      else if f = ''last'' then Inr NewLast
      else if f = ''max'' then Inr NewMax
      else if f = ''min'' then Inr NewMin
      else if f = ''stdev'' then Inr NewStdev
      else if f = ''sum'' then Inr NewSum
      else if f = ''derive'' then Inr NewDerive
      else if f = ''percentiles'' then Inr NewPercentiles
      else Inl (NoSuchFunction f))"

subsection \<open>The functions on whole lists of points\<close>

text \<open>Points arrive as pairs of value and timestamp, the first one through the constructor.\<close>

definition process :: "(real \<Rightarrow> uint32 \<Rightarrow> Processor) \<Rightarrow> (real \<times> uint32) list \<Rightarrow> Processor" where
  "process constr ps = fold (\<lambda>(v, ts). Add v ts) (tl ps) (constr (fst (hd ps)) (snd (hd ps)))"

definition mean :: "real list \<Rightarrow> real" where
  "mean vs = sum_list vs / real (length vs)"

text \<open>The first point with the largest timestamp, and the first with the smallest.\<close>

fun newest :: "(real \<times> uint32) list \<Rightarrow> real \<times> uint32" where
  "newest [] = (0, 0)"
| "newest [p] = p"
| "newest (p # q # ps) = (let r = newest (q # ps) in if snd r > snd p then r else p)"

fun oldest :: "(real \<times> uint32) list \<Rightarrow> real \<times> uint32" where
  "oldest [] = (0, 0)"
| "oldest [p] = p"
| "oldest (p # q # ps) = (let r = oldest (q # ps) in if snd r < snd p then r else p)"

definition aggregate :: "bytes \<Rightarrow> (real \<times> uint32) list \<Rightarrow> processorResult list \<times> bool" where
  "aggregate f ps =
     (let vs = map fst ps; n = newest ps; o' = oldest ps
      in if f = ''derive''
         then (if snd n = snd o' then ([], False)
               else ([(f, (fst n - fst o') / (real (unat (snd n)) - real (unat (snd o'))))], True))
         else if f = ''percentiles''
         then (map (\<lambda>(name, p). (name, percentile (sort vs) p)) percents, True)
         else ([(f,
            if f = ''avg'' then mean vs
            else if f = ''count'' then real (length vs)
            else if f = ''delta'' then Max (set vs) - Min (set vs)
            else if f = ''last'' then last vs
            else if f = ''max'' then Max (set vs)
            else if f = ''min'' then Min (set vs)
            else if f = ''stdev'' then sqrt ((\<Sum>v\<leftarrow>vs. (v - mean vs) ^ 2) / real (length vs))
            else sum_list vs)], True))"

subsection \<open>The running state of each function\<close>

lemma process_snoc:
  "ps \<noteq> [] \<Longrightarrow> process c (ps @ [(v, ts)]) = Add v ts (process c ps)"
  by (cases ps) (auto simp: process_def)

lemma process_single [simp]: "process c [(v, ts)] = c v ts"
  by (simp add: process_def)

lemma points_induct [consumes 1, case_names single snoc]:
  assumes "ps \<noteq> []" "\<And>v ts. P [(v, ts)]"
    "\<And>ps v ts. ps \<noteq> [] \<Longrightarrow> P ps \<Longrightarrow> P (ps @ [(v, ts)])"
  shows "P ps"
  using assms(1)
proof (induction ps rule: rev_induct)
  case (snoc p ps)
  then show ?case using assms(2,3) by (cases "ps = []"; cases p) auto
qed simp

lemma newest_snoc:
  "ps \<noteq> [] \<Longrightarrow> newest (ps @ [p]) = (if snd p > snd (newest ps) then p else newest ps)"
  by (induction ps rule: newest.induct) (auto simp: Let_def)

lemma oldest_snoc:
  "ps \<noteq> [] \<Longrightarrow> oldest (ps @ [p]) = (if snd p < snd (oldest ps) then p else oldest ps)"
  by (induction ps rule: oldest.induct) (auto simp: Let_def)

lemma process_avg: "ps \<noteq> [] \<Longrightarrow> process NewAvg ps = PAvg (sum_list (map fst ps)) (length ps)"
  by (induction ps rule: points_induct) (simp_all add: constructors process_snoc)

lemma process_count: "ps \<noteq> [] \<Longrightarrow> process NewCount ps = PCount (length ps)"
  by (induction ps rule: points_induct) (simp_all add: constructors process_snoc)

lemma process_delta:
  "ps \<noteq> [] \<Longrightarrow> process NewDelta ps = PDelta (Max (set (map fst ps))) (Min (set (map fst ps)))"
  by (induction ps rule: points_induct) (simp_all add: constructors process_snoc max_def min_def del: Max_less_iff Max_ge_iff Max_gr_iff Max_le_iff Min_less_iff Min_ge_iff Min_gr_iff Min_le_iff)

lemma process_last: "ps \<noteq> [] \<Longrightarrow> process NewLast ps = PLast (last (map fst ps))"
  by (induction ps rule: points_induct) (simp_all add: constructors process_snoc)

lemma process_max: "ps \<noteq> [] \<Longrightarrow> process NewMax ps = PMax (Max (set (map fst ps)))"
  by (induction ps rule: points_induct) (simp_all add: constructors process_snoc max_def del: Max_less_iff Max_ge_iff Max_gr_iff Max_le_iff)

lemma process_min: "ps \<noteq> [] \<Longrightarrow> process NewMin ps = PMin (Min (set (map fst ps)))"
  by (induction ps rule: points_induct) (simp_all add: constructors process_snoc min_def del: Min_less_iff Min_ge_iff Min_gr_iff Min_le_iff)

lemma process_sum: "ps \<noteq> [] \<Longrightarrow> process NewSum ps = PSum (sum_list (map fst ps))"
  by (induction ps rule: points_induct) (simp_all add: constructors process_snoc)

lemma process_stdev:
  "ps \<noteq> [] \<Longrightarrow> process NewStdev ps = PStdev (sum_list (map fst ps)) (map fst ps)"
  by (induction ps rule: points_induct) (simp_all add: constructors process_snoc)

lemma process_percentiles:
  "ps \<noteq> [] \<Longrightarrow> process NewPercentiles ps = PPercentiles (map fst ps)"
  by (induction ps rule: points_induct) (simp_all add: constructors process_snoc)

lemma process_derive:
  "ps \<noteq> [] \<Longrightarrow> process NewDerive ps =
     PDerive (snd (oldest ps)) (snd (newest ps)) (fst (oldest ps)) (fst (newest ps))"
  by (induction ps rule: points_induct)
    (auto simp: constructors process_snoc newest_snoc oldest_snoc Let_def)

lemmas process_simps = process_avg process_count process_delta process_last process_max process_min
  process_sum process_stdev process_percentiles process_derive

lemma oldest_le_newest: "snd (oldest ps) \<le> snd (newest ps)"
proof (cases "ps = []")
  case False
  then show ?thesis
    by (induction ps rule: points_induct) (auto simp: newest_snoc oldest_snoc)
qed simp

lemma foldl_sum: "foldl (\<lambda>acc x. acc + f x) a xs = a + (\<Sum>x\<leftarrow>xs. f x :: real)"
  by (induction xs arbitrary: a) (simp_all add: add.assoc)

lemma Flush_aggregate:
  assumes "GetProcessorConstructor f = Inr constr" and "ps \<noteq> []"
  shows "Flush (process constr ps) = aggregate f ps"
proof -
  have "real (unat (snd (newest ps) - snd (oldest ps))) =
          real (unat (snd (newest ps))) - real (unat (snd (oldest ps)))"
    using oldest_le_newest [of ps] by (simp add: unat_sub word_le_nat_alt)
  then show ?thesis
    using assms
    by (auto simp: GetProcessorConstructor_def process_simps aggregate_def mean_def foldl_sum Let_def
        split: if_splits)
qed

subsection \<open>Percentiles\<close>

lemma sorted_nth_le: "sorted xs \<Longrightarrow> i \<le> j \<Longrightarrow> j < length xs \<Longrightarrow> xs ! i \<le> xs ! j"
  by (simp add: sorted_nth_mono)

lemma percentile_cases [consumes 3, case_names low high mid]:
  assumes "sorted xs" "xs \<noteq> []" and r: "r = (p / 100) * (real (length xs) + 1)"
  obtains (low) "r < 1" "percentile xs p = xs ! 0"
  | (high) "real (length xs) \<le> r" "percentile xs p = xs ! (length xs - 1)"
  | (mid) k where "k + 1 < length xs" "real k + 1 \<le> r" "r < real k + 2"
      "percentile xs p = xs ! k + (r - (real k + 1)) * (xs ! (k + 1) - xs ! k)"
proof -
  consider "r < 1" | "1 \<le> r" "length xs \<le> nat \<lfloor>r\<rfloor>" | "1 \<le> r" "nat \<lfloor>r\<rfloor> < length xs" by linarith
  then show thesis
  proof cases
    case 1
    then show ?thesis using low r by (simp add: percentile_def Let_def)
  next
    case 2
    then have "real (length xs) \<le> r" by linarith
    then show ?thesis using high 2 r by (simp add: percentile_def Let_def)
  next
    case 3
    define k where "k = nat \<lfloor>r\<rfloor> - 1"
    have k: "nat \<lfloor>r\<rfloor> = k + 1" "real k + 1 \<le> r" "r < real k + 2" using 3 unfolding k_def by linarith+
    then show ?thesis using mid [of k] 3 r by (simp add: percentile_def Let_def)
  qed
qed

lemma interpolate_bounds:
  fixes a b t :: real assumes "a \<le> b" "0 \<le> t" "t \<le> 1"
  shows "a \<le> a + t * (b - a)" "a + t * (b - a) \<le> b"
  using assms mult_left_le_one_le [of "b - a" t] by simp_all

lemma percentile_bounds:
  assumes "sorted xs" "xs \<noteq> []"
  shows "xs ! 0 \<le> percentile xs p \<and> percentile xs p \<le> xs ! (length xs - 1)"
proof (rule percentile_cases [OF assms refl, of p])
  fix k assume k: "k + 1 < length xs" "real k + 1 \<le> (p / 100) * (real (length xs) + 1)"
    "(p / 100) * (real (length xs) + 1) < real k + 2"
    "percentile xs p = xs ! k + ((p / 100) * (real (length xs) + 1) - (real k + 1)) * (xs ! (k + 1) - xs ! k)"
  let ?t = "(p / 100) * (real (length xs) + 1) - (real k + 1)"
  have "xs ! 0 \<le> xs ! k" "xs ! k \<le> xs ! (k + 1)" "xs ! (k + 1) \<le> xs ! (length xs - 1)"
    using k(1) assms(1) by (auto intro: sorted_nth_le)
  then show ?thesis using interpolate_bounds [of "xs ! k" "xs ! (k + 1)" ?t] k by linarith
qed (use assms in \<open>auto intro: sorted_nth_le\<close>)

lemma percentile_mono:
  assumes "sorted xs" "xs \<noteq> []" "p \<le> q"
  shows "percentile xs p \<le> percentile xs q"
proof -
  define r where "r = (p / 100) * (real (length xs) + 1)"
  define s where "s = (q / 100) * (real (length xs) + 1)"
  have rs: "r \<le> s" using assms(3) unfolding r_def s_def by (intro mult_right_mono) auto
  note bounds = percentile_bounds [OF assms(1,2)]
  show ?thesis using assms(1,2) r_def
  proof (cases rule: percentile_cases)
    case low
    then show ?thesis using bounds by simp
  next
    case high
    note h = high
    show ?thesis using assms(1,2) s_def
    proof (cases rule: percentile_cases)
      case (mid k)
      then show ?thesis using h rs by linarith
    qed (use h rs bounds [of p] in \<open>auto simp: Suc_le_eq\<close>)
  next
    case (mid k)
    note m = mid
    have k: "xs ! k \<le> xs ! (k + 1)" using m(1) assms(1) by (auto intro: sorted_nth_le)
    show ?thesis using assms(1,2) s_def
    proof (cases rule: percentile_cases)
      case low
      then show ?thesis using m rs by linarith
    next
      case high
      then show ?thesis using bounds [of p] by simp
    next
      case (mid j)
      have j: "xs ! j \<le> xs ! (j + 1)" using mid(1) assms(1) by (auto intro: sorted_nth_le)
      have "k \<le> j" using m mid rs by linarith
      show ?thesis
      proof (cases "k = j")
        case True
        then show ?thesis using m mid rs k by (simp add: mult_right_mono)
      next
        case False
        then have "xs ! (k + 1) \<le> xs ! j"
          using \<open>k \<le> j\<close> mid(1) assms(1) by (intro sorted_nth_le) auto
        then show ?thesis
          using interpolate_bounds(2) [OF k, of "r - (real k + 1)"]
            interpolate_bounds(1) [OF j, of "s - (real j + 1)"] m mid by linarith
      qed
    qed
  qed
qed

subsection \<open>Properties\<close>



text \<open>the percentiles that are reported for a bucket lie between its smallest and its largest
  value and do not decrease from p25 to p99.\<close>

theorem percentiles_bounded_and_monotone:
  assumes "ps \<noteq> []"
  shows "\<exists>rs. Flush (process NewPercentiles ps) = (rs, True) \<and>
    map fst rs = [''p25'', ''p50'', ''p75'', ''p90'', ''p95'', ''p99''] \<and>
    sorted (map snd rs) \<and>
    (\<forall>v \<in> set (map snd rs). Min (set (map fst ps)) \<le> v \<and> v \<le> Max (set (map fst ps)))"
proof -
  let ?vs = "map fst ps" and ?xs = "sort (map fst ps)"
  have xs: "sorted ?xs" "?xs \<noteq> []" using assms by (auto dest: arg_cong [where f = length])
  have "Min (set ?vs) \<le> ?xs ! 0" "?xs ! (length ?xs - 1) \<le> Max (set ?vs)"
    using nth_mem [of 0 ?xs] nth_mem [of "length ?xs - 1" ?xs] assms
    by (auto simp del: nth_mem intro!: Min_le Max_ge)
  then have "Min (set ?vs) \<le> percentile ?xs p \<and> percentile ?xs p \<le> Max (set ?vs)" for p
    using percentile_bounds [OF xs, of p] by linarith
  then show ?thesis
    using assms percentile_mono [OF xs]
    by (auto simp: process_percentiles percents_def)
qed

theorem percentiles_bounded_and_monotone_witness:
  "\<exists>rs. Flush (process NewPercentiles [(5, 1), (2, 2), (9, 3)]) = (rs, True) \<and>
    map fst rs = [''p25'', ''p50'', ''p75'', ''p90'', ''p95'', ''p99''] \<and>
    sorted (map snd rs) \<and> (\<forall>v \<in> set (map snd rs). 2 \<le> v \<and> v \<le> 9)"
  using percentiles_bounded_and_monotone [of "[(5, 1), (2, 2), (9, 3)]"] by simp

end
