(* ===== verification/Go_Hash.thy ===== *)
theory Go_Hash
  imports Go_Strings
begin

unbundle bit_operations_syntax

text \<open>
  Go's \<open>hash/fnv\<close> (FNV-1a, 32 and 64 bits) and \<open>crypto/md5\<close>, which the relay uses for the
  order check, for the shards of the Grafana route and for the consistent-hashing ring.
\<close>

definition byte_word :: "char \<Rightarrow> 'a::len word" where
  "byte_word c = word_of_nat (of_char c)"

definition fnv64a :: "bytes \<Rightarrow> uint64" where
  "fnv64a s = foldl (\<lambda>h c. (h XOR byte_word c) * 1099511628211) 14695981039346656037 s"

definition fnv32a :: "bytes \<Rightarrow> uint32" where
  "fnv32a s = foldl (\<lambda>h c. (h XOR byte_word c) * 16777619) 2166136261 s"

subsection \<open>MD5\<close>

definition md5_shift :: "nat list" where
  "md5_shift = concat (map (\<lambda>xs. concat (replicate 4 xs)) [[7, 12, 17, 22], [5, 9, 14, 20], [4, 11, 16, 23], [6, 10, 15, 21]])"

definition md5_table :: "uint32 list" where
  "md5_table =
    [0xd76aa478, 0xe8c7b756, 0x242070db, 0xc1bdceee, 0xf57c0faf, 0x4787c62a, 0xa8304613, 0xfd469501,
     0x698098d8, 0x8b44f7af, 0xffff5bb1, 0x895cd7be, 0x6b901122, 0xfd987193, 0xa679438e, 0x49b40821,
     0xf61e2562, 0xc040b340, 0x265e5a51, 0xe9b6c7aa, 0xd62f105d, 0x02441453, 0xd8a1e681, 0xe7d3fbc8,
     0x21e1cde6, 0xc33707d6, 0xf4d50d87, 0x455a14ed, 0xa9e3e905, 0xfcefa3f8, 0x676f02d9, 0x8d2a4c8a,
     0xfffa3942, 0x8771f681, 0x6d9d6122, 0xfde5380c, 0xa4beea44, 0x4bdecfa9, 0xf6bb4b60, 0xbebfbc70,
     0x289b7ec6, 0xeaa127fa, 0xd4ef3085, 0x04881d05, 0xd9d4d039, 0xe6db99e5, 0x1fa27cf8, 0xc4ac5665,
     0xf4292244, 0x432aff97, 0xab9423a7, 0xfc93a039, 0x655b59c3, 0x8f0ccc92, 0xffeff47d, 0x85845dd1,
     0x6fa87e4f, 0xfe2ce6e0, 0xa3014314, 0x4e0811a1, 0xf7537e82, 0xbd3af235, 0x2ad7d2bb, 0xeb86d391]"

definition rotl32 :: "nat \<Rightarrow> uint32 \<Rightarrow> uint32" where
  "rotl32 n w = push_bit n w OR drop_bit (32 - n) w"

type_synonym md5_state = "uint32 \<times> uint32 \<times> uint32 \<times> uint32"

definition md5_round :: "uint32 list \<Rightarrow> md5_state \<Rightarrow> nat \<Rightarrow> md5_state" where
  "md5_round M s i =
     (case s of (a, b, c, d) \<Rightarrow>
       let (f, g) =
         (if i < 16 then ((b AND c) OR (NOT b AND d), i)
          else if i < 32 then ((d AND b) OR (NOT d AND c), (5 * i + 1) mod 16)
          else if i < 48 then (b XOR c XOR d, (3 * i + 5) mod 16)
          else (c XOR (b OR NOT d), (7 * i) mod 16))
       in (d, b + rotl32 (md5_shift ! i) (a + f + md5_table ! i + M ! g), b, c))"

fun le_word :: "bytes \<Rightarrow> uint32" where
  "le_word [] = 0"
| "le_word (c # cs) = byte_word c OR push_bit 8 (le_word cs)"

fun chunks :: "nat \<Rightarrow> nat \<Rightarrow> 'a list \<Rightarrow> 'a list list" where
  "chunks w 0 xs = []"
| "chunks w (Suc n) xs = take w xs # chunks w n (drop w xs)"

definition md5_block :: "md5_state \<Rightarrow> bytes \<Rightarrow> md5_state" where
  "md5_block s blk =
     (let M = map le_word (chunks 4 16 blk);
          (a, b, c, d) = s;
          (a', b', c', d') = foldl (md5_round M) s [0..<64]
      in (a + a', b + b', c + c', d + d'))"

fun le_bytes :: "nat \<Rightarrow> nat \<Rightarrow> bytes" where
  "le_bytes 0 n = []"
| "le_bytes (Suc k) n = char_of (n mod 256) # le_bytes k (n div 256)"

definition md5_pad :: "bytes \<Rightarrow> bytes" where
  "md5_pad s = s @ [CHR 0x80] @ replicate ((119 - length s mod 64) mod 64) CHR 0x00 @
     le_bytes 8 (8 * length s mod 2 ^ 64)"

definition md5_Sum :: "bytes \<Rightarrow> bytes" where
  "md5_Sum s =
     (let p = md5_pad s;
          (a, b, c, d) = foldl md5_block (0x67452301, 0xefcdab89, 0x98badcfe, 0x10325476)
                               (chunks 64 (length p div 64) p)
      in concat (map (\<lambda>w. le_bytes 4 (unat w)) [a, b, c, d]))"

end
