(* ===== verification/Relay_Matcher.thy ===== *)
theory Relay_Matcher
  imports Go_Expand
begin

text \<open>
  \<^verbatim>\<open>matcher/matcher.go\<close>: the conditions by which the table, the routes, the destinations,
  the blocklist and the aggregators select metrics. \<open>Matcher\<close> has the user's six options and
  the derived fields; \<open>matcher_New\<close>, \<open>Match\<close>, \<open>PreMatch\<close>, \<open>MatchRegexAndExpand\<close> and
  \<open>regexToPrefix\<close> follow the methods of those names. The lemmas relate the optimised test to
  the plain conjunction of the six conditions (\<open>Match_spec\<close>) and say when the static prefix
  that is cut out of a regular expression is implied by it.
\<close>

record Matcher =
  Prefix :: bytes
  NotPrefix :: bytes
  Sub :: bytes
  NotSub :: bytes
  Regex :: bytes
  NotRegex :: bytes
  iprefix :: bytes
  inotPrefix :: bytes
  isub :: bytes
  inotSub :: bytes
  prefixFromRegex :: bytes
  prefixFromNotRegex :: bytes
  iregex :: "regexp option"
  inotRegex :: "regexp option"

definition Equals :: "Matcher \<Rightarrow> Matcher \<Rightarrow> bool" where
  "Equals m o' \<longleftrightarrow> Prefix m = Prefix o' \<and> NotPrefix m = NotPrefix o' \<and>
     Sub m = Sub o' \<and> NotSub m = NotSub o' \<and>
     Regex m = Regex o' \<and> NotRegex m = NotRegex o'"

subsection \<open>The static prefix of a regular expression\<close>

definition is_static_char :: "char \<Rightarrow> bool" where
  "is_static_char ch \<longleftrightarrow>
     (CHR ''a'' \<le> ch \<and> ch \<le> CHR ''z'') \<or> (CHR ''A'' \<le> ch \<and> ch \<le> CHR ''Z'') \<or>
     (CHR ''0'' \<le> ch \<and> ch \<le> CHR ''9'') \<or> ch = CHR ''_'' \<or> ch = CHR ''-''"

text \<open>The loop of \<open>regexToPrefix\<close> from index 1 on: what is collected, and where it stops.\<close>

fun static_prefix :: "bytes \<Rightarrow> bytes \<times> bytes" where
  "static_prefix [] = ([], [])"
| "static_prefix (ch # r) =
     (if is_static_char ch then (let (p, rest) = static_prefix r in (ch # p, rest))
      else if ch = CHR 0x5C \<and> r \<noteq> [] \<and> hd r = CHR ''.''
      then (let (p, rest) = static_prefix (tl r) in (CHR ''.'' # p, rest))
      else ([], ch # r))"

definition regexToPrefix :: "bytes \<Rightarrow> bytes" where
  "regexToPrefix regex =
     (case regex of
        [] \<Rightarrow> []
      | ch # r \<Rightarrow> if ch = CHR ''^'' then fst (static_prefix r) else [])"

subsection \<open>Construction\<close>

definition updateInternals :: "Matcher \<Rightarrow> Matcher \<times> regexp_error option" where
  "updateInternals m0 =
     (let m1 = m0\<lparr>iprefix := Prefix m0, inotPrefix := NotPrefix m0, isub := Sub m0, inotSub := NotSub m0\<rparr>;
          (m2, e2) =
            (if 0 < length (Regex m1)
             then (case Compile (Regex m1) of
                     Inl err \<Rightarrow> (m1, Some err)
                   | Inr re \<Rightarrow> (m1\<lparr>iregex := Some re, prefixFromRegex := regexToPrefix (Regex m1)\<rparr>, None))
             else (m1, None))
      in case e2 of
           Some err \<Rightarrow> (m2, Some err)
         | None \<Rightarrow>
             if 0 < length (NotRegex m2)
             then (case Compile (NotRegex m2) of
                     Inl err \<Rightarrow> (m2, Some err)
                   | Inr re \<Rightarrow> (m2\<lparr>inotRegex := Some re, prefixFromNotRegex := regexToPrefix (NotRegex m2)\<rparr>, None))
             else (m2, None))"

definition matcher_New :: "bytes \<Rightarrow> bytes \<Rightarrow> bytes \<Rightarrow> bytes \<Rightarrow> bytes \<Rightarrow> bytes \<Rightarrow> Matcher \<times> regexp_error option" where
  "matcher_New prefix notPrefix sub notSub regex notRegex =
     updateInternals
       \<lparr>Prefix = prefix, NotPrefix = notPrefix, Sub = sub, NotSub = notSub,
        Regex = regex, NotRegex = notRegex,
        iprefix = [], inotPrefix = [], isub = [], inotSub = [],
        prefixFromRegex = [], prefixFromNotRegex = [], iregex = None, inotRegex = None\<rparr>"

subsection \<open>Matching\<close>

definition Match :: "Matcher \<Rightarrow> bytes \<Rightarrow> bool" where
  "Match m s =
     (if 0 < length (iprefix m) \<and> \<not> has_prefix s (iprefix m) then False
      else if 0 < length (inotPrefix m) \<and> has_prefix s (inotPrefix m) then False
      else if 0 < length (isub m) \<and> \<not> contains s (isub m) then False
      else if 0 < length (inotSub m) \<and> contains s (inotSub m) then False
      else if (case iregex m of
                 None \<Rightarrow> False
               | Some re \<Rightarrow> (0 < length (prefixFromRegex m) \<and> \<not> has_prefix s (prefixFromRegex m)) \<or>
                            \<not> MatchBytes re s) then False
      else if (case inotRegex m of
                 None \<Rightarrow> False
               | Some re \<Rightarrow> (length (prefixFromNotRegex m) = 0 \<or> has_prefix s (prefixFromNotRegex m)) \<and>
                            MatchBytes re s) then False
      else True)"

definition PreMatch :: "Matcher \<Rightarrow> bytes \<Rightarrow> bool" where
  "PreMatch m s =
     (if 0 < length (iprefix m) \<and> \<not> has_prefix s (iprefix m) then False
      else if 0 < length (inotPrefix m) \<and> has_prefix s (inotPrefix m) then False
      else if 0 < length (isub m) \<and> \<not> contains s (isub m) then False
      else if 0 < length (inotSub m) \<and> contains s (inotSub m) then False
      else if 0 < length (prefixFromRegex m) \<and> \<not> has_prefix s (prefixFromRegex m) then False
      else True)"

definition MatchRegexAndExpand :: "Matcher \<Rightarrow> bytes \<Rightarrow> bytes \<Rightarrow> (bytes \<times> bool) outcome" where
  "MatchRegexAndExpand m key template =
     (case iregex m of
        None \<Rightarrow> Panic NilDereference
      | Some re \<Rightarrow>
          (case FindSubmatchIndex re key of
             None \<Rightarrow> Ok ([], False)
           | Some idx \<Rightarrow> Ok (Expand template key idx, True)))"

subsection \<open>Specification and facts\<close>

definition regex_holds :: "bytes \<Rightarrow> bytes \<Rightarrow> bool" where
  "regex_holds regex s \<longleftrightarrow> (case Compile regex of Inl _ \<Rightarrow> False | Inr re \<Rightarrow> MatchBytes re s)"

definition Match_spec :: "bytes \<Rightarrow> bytes \<Rightarrow> bytes \<Rightarrow> bytes \<Rightarrow> bytes \<Rightarrow> bytes \<Rightarrow> bytes \<Rightarrow> bool" where
  "Match_spec prefix notPrefix sub notSub regex notRegex s \<longleftrightarrow>
     (prefix = [] \<or> has_prefix s prefix) \<and>
     (notPrefix = [] \<or> \<not> has_prefix s notPrefix) \<and>
     (sub = [] \<or> contains s sub) \<and>
     (notSub = [] \<or> \<not> contains s notSub) \<and>
     (regex = [] \<or> regex_holds regex s) \<and>
     (notRegex = [] \<or> \<not> regex_holds notRegex s)"

definition prefix_safe :: "bytes \<Rightarrow> bool" where
  "prefix_safe regex \<longleftrightarrow>
     (case Compile regex of
        Inl _ \<Rightarrow> True
      | Inr re \<Rightarrow> regexToPrefix regex = [] \<or> starts_with re (regexToPrefix regex))"

lemma matcher_New_fields:
  assumes "matcher_New prefix notPrefix sub notSub regex notRegex = (m, None)"
  shows "Prefix m = prefix" "NotPrefix m = notPrefix" "Sub m = sub" "NotSub m = notSub"
    "Regex m = regex" "NotRegex m = notRegex"
    "iprefix m = prefix" "inotPrefix m = notPrefix" "isub m = sub" "inotSub m = notSub"
    "iregex m = (if regex = [] then None else case Compile regex of Inl _ \<Rightarrow> None | Inr re \<Rightarrow> Some re)"
    "inotRegex m = (if notRegex = [] then None else case Compile notRegex of Inl _ \<Rightarrow> None | Inr re \<Rightarrow> Some re)"
    "prefixFromRegex m = (if regex = [] then [] else regexToPrefix regex)"
    "prefixFromNotRegex m = (if notRegex = [] then [] else regexToPrefix notRegex)"
    "regex \<noteq> [] \<Longrightarrow> \<exists>re. Compile regex = Inr re"
    "notRegex \<noteq> [] \<Longrightarrow> \<exists>re. Compile notRegex = Inr re"
  using assms
  by (auto simp: matcher_New_def updateInternals_def Let_def split: sum.splits option.splits if_splits)

lemma prefix_safe_holds:
  "prefix_safe regex \<Longrightarrow> regex_holds regex s \<Longrightarrow> has_prefix s (regexToPrefix regex)"
  by (auto simp: prefix_safe_def regex_holds_def dest: starts_with_prefix split: sum.splits)

lemma Match_sound_lemma:
  assumes m: "matcher_New prefix notPrefix sub notSub regex notRegex = (m, None)"
    and safe: "prefix_safe regex" "prefix_safe notRegex"
  shows "Match m s \<longleftrightarrow> Match_spec prefix notPrefix sub notSub regex notRegex s"
proof -
  note f = matcher_New_fields [OF m]
  have r: "(case iregex m of
                 None \<Rightarrow> False
               | Some re \<Rightarrow> (0 < length (prefixFromRegex m) \<and> \<not> has_prefix s (prefixFromRegex m)) \<or>
                            \<not> MatchBytes re s) \<longleftrightarrow> regex \<noteq> [] \<and> \<not> regex_holds regex s"
    using f(11,13,15) prefix_safe_holds [OF safe(1), of s]
    by (cases "regex = []") (auto simp: regex_holds_def)
  have nr: "(case inotRegex m of
                 None \<Rightarrow> False
               | Some re \<Rightarrow> (length (prefixFromNotRegex m) = 0 \<or> has_prefix s (prefixFromNotRegex m)) \<and>
                            MatchBytes re s) \<longleftrightarrow> notRegex \<noteq> [] \<and> regex_holds notRegex s"
    using f(12,14,16) prefix_safe_holds [OF safe(2), of s]
    by (cases "notRegex = []") (auto simp: regex_holds_def)
  show ?thesis
    unfolding Match_def Match_spec_def r nr f(7-10) by auto
qed

lemma Match_PreMatch_lemma:
  assumes "matcher_New prefix notPrefix sub notSub regex notRegex = (m, None)" and "Match m s"
  shows "PreMatch m s"
  using assms(2) matcher_New_fields(11,13,15) [OF assms(1)]
  by (auto simp: Match_def PreMatch_def split: if_splits)

text \<open>
  A pattern whose static prefix is safe: \<open>^\<close>, the prefix, and a rest without \<open>|\<close> that does not
  start with a repetition. The parser keeps the items of the prefix at the bottom of the
  outermost group.
\<close>

definition keeps_base :: "regexp list \<Rightarrow> frame list \<Rightarrow> bytes \<Rightarrow> bool" where
  "keeps_base base fs s \<longleftrightarrow>
     alts (last fs) = [] \<and> capidx (last fs) = None \<and>
     (\<exists>xs. cat (last fs) = xs @ base \<and>
        (length fs = 1 \<longrightarrow> xs \<noteq> [] \<or> (case s of [] \<Rightarrow> True | c # _ \<Rightarrow> quantifier c = None)))"

lemma keeps_base_push:
  assumes "keeps_base base (f # stack) s"
  shows "keeps_base base (push x f # stack) s'"
proof (cases stack)
  case Nil
  from assms obtain xs where "cat f = xs @ base" and "alts f = []" "capidx f = None"
    using Nil by (auto simp: keeps_base_def)
  then have "cat (push x f) = (x # xs) @ base" "alts (push x f) = []" "capidx (push x f) = None"
    by (simp_all add: push_def)
  with Nil show ?thesis unfolding keeps_base_def by (metis last.simps list.distinct(1))
next
  case (Cons g gs)
  with assms show ?thesis by (auto simp: keeps_base_def)
qed

lemma keeps_base_open:
  "keeps_base base (f # stack) s \<Longrightarrow> keeps_base base (new_frame c # f # stack) s'"
  by (auto simp: keeps_base_def)

lemma keeps_base_close:
  assumes "keeps_base base (f # g # stack) s"
  shows "keeps_base base (push x g # stack) s'"
proof (cases stack)
  case Nil
  with assms obtain xs where "cat g = xs @ base" and "alts g = []" "capidx g = None"
    by (auto simp: keeps_base_def)
  then have "cat (push x g) = (x # xs) @ base" "alts (push x g) = []" "capidx (push x g) = None"
    by (simp_all add: push_def)
  with Nil show ?thesis unfolding keeps_base_def by (metis last.simps list.distinct(1))
next
  case (Cons h hs)
  with assms show ?thesis by (auto simp: keeps_base_def)
qed

lemma keeps_base_quantify:
  assumes k: "keeps_base base (f # stack) (c # r)" and q: "quantifier c = Some q"
    and "quantify q g f = Inr f'"
  shows "keeps_base base (f' # stack) s'"
proof -
  from assms(3) obtain x rs where f: "cat f = x # rs" "f' = f\<lparr>cat := q g x # rs\<rparr>"
    by (auto simp: quantify_def split: list.splits)
  show ?thesis
  proof (cases stack)
    case Nil
    with k q obtain xs where "cat f = xs @ base" "xs \<noteq> []" "alts f = []" "capidx f = None"
      by (auto simp: keeps_base_def)
    with f obtain ys where "cat f' = (q g x # ys) @ base" "alts f' = []" "capidx f' = None"
      by (cases xs) auto
    with Nil show ?thesis unfolding keeps_base_def by (metis last.simps list.distinct(1))
  next
    case (Cons h hs)
    with k show ?thesis by (auto simp: keeps_base_def)
  qed
qed

lemmas keeps_base_steps = keeps_base_push keeps_base_open keeps_base_close keeps_base_quantify

lemma class_char_subset: "class_char s = Inr (c, r) \<Longrightarrow> set r \<subseteq> set s"
  by (auto simp: class_char_def split: list.splits if_splits option.splits)

lemma set_tl_subset: "set (tl r) \<subseteq> set r"
  by (cases r) auto

lemma class_item_subset: "class_item s = Inr (rs, r) \<Longrightarrow> set r \<subseteq> set s"
  unfolding class_item_def
  using set_tl_subset
  by (fastforce split: list.splits if_splits option.splits regexp.splits bool.splits sum.splits
      dest!: class_char_subset)

lemma parse_class_subset: "parse_class first acc s = Inr (rs, r) \<Longrightarrow> set r \<subseteq> set s"
proof (induction first acc s rule: parse_class.induct)
  case (1 first acc s)
  show ?case
  proof (cases "s \<noteq> [] \<and> hd s = CHR '']'' \<and> \<not> first")
    case True
    with "1.prems" set_tl_subset [of s] show ?thesis by (subst (asm) parse_class.simps) auto
  next
    case False
    with "1.prems" obtain xs s' where item: "class_item s = Inr (xs, s')"
      and "parse_class False (rev xs @ acc) s' = Inr (rs, r)"
      by (subst (asm) parse_class.simps) (auto split: sum.splits prod.splits)
    with "1.IH" False have "set r \<subseteq> set s'" by blast
    with class_item_subset [OF item] show ?thesis by blast
  qed
qed

lemma parse_keeps_base:
  assumes "parse f stack ncap s = Inr re" and "keeps_base base (f # stack) s" and "CHR ''|'' \<notin> set s"
  shows "\<exists>xs. re = cat_of (rev (xs @ base))"
  using assms
proof (induction f stack ncap s rule: parse.induct)
  case (1 f stack ncap s)
  show ?case
  proof (cases s)
    case Nil
    with "1.prems" have "stack = []" "re = close_frame f" "alts f = []" "capidx f = None" "\<exists>xs. cat f = xs @ base"
      by (subst (asm) parse.simps; auto simp: keeps_base_def split: if_splits)+
    then show ?thesis by (auto simp: close_frame_def)
  next
    case (Cons c r)
    have sub: "set (tl r) \<subseteq> set r" "set (tl (tl r)) \<subseteq> set r"
      using set_tl_subset [of r] set_tl_subset [of "tl r"] by blast+
    have bar: "CHR ''|'' \<notin> set r" "c \<noteq> CHR ''|''" "CHR ''|'' \<notin> set (tl (tl r))"
      using "1.prems"(3) Cons sub by auto
    note keep = "1.prems"(2) [unfolded Cons]
    note E = "1.prems"(1) [unfolded Cons, simplified parse.simps [of f stack ncap "c # r"]]
    show ?thesis
    proof (cases "quantifier c")
      case (Some q)
      with E obtain f' g r' where "quantify q g f = Inr f'" "parse f' stack ncap r' = Inr re"
        and gr: "g = (\<not> (r \<noteq> [] \<and> hd r = CHR ''?''))" "r' = (if r \<noteq> [] \<and> hd r = CHR ''?'' then tl r else r)"
        and ok: "\<not> (r' \<noteq> [] \<and> quantifier (hd r') \<noteq> None)"
        by (auto simp: Let_def split: if_splits sum.splits)
      moreover have "CHR ''|'' \<notin> set r'" using bar sub gr(2) by auto
      ultimately show ?thesis
        using "1.IH"(12) [OF Cons Some refl gr(2) ok] keeps_base_quantify [OF keep Some] by auto
    next
      case None
      note ih = "1.IH"(1-11) [OF Cons None]
      consider "c = CHR ''(''" | "c = CHR '')''" | "c = CHR ''[''" | "c = CHR 0x5C"
        | "c \<noteq> CHR ''(''" "c \<noteq> CHR '')''" "c \<noteq> CHR ''[''" "c \<noteq> CHR 0x5C" by blast
      then show ?thesis
      proof cases
        case 1
        with E None show ?thesis using ih(1,2) keeps_base_open [OF keep] bar sub
          by (auto split: if_splits)
      next
        case 2
        with E None obtain g gs where "stack = g # gs" "parse (push (close_frame f) g) gs ncap r = Inr re"
          by (auto split: list.splits)
        with 2 show ?thesis using ih(3) keep keeps_base_close bar by auto
      next
        case 3
        with E None obtain neg rs r' where p: "parse_class True [] (if neg then tl r else r) = Inr (rs, r')"
          "neg = (r \<noteq> [] \<and> hd r = CHR ''^'')" "parse (push (OpClass neg rs) f) stack ncap r' = Inr re"
          by (auto simp: Let_def split: sum.splits prod.splits)
        moreover have "CHR ''|'' \<notin> set r'" using parse_class_subset [OF p(1)] bar sub by (auto split: if_splits)
        ultimately show ?thesis using ih(5) 3 keeps_base_push [OF keep] by auto
      next
        case 4
        with E None show ?thesis using ih(6,7) keeps_base_push [OF keep] bar
          by (auto split: list.splits option.splits if_splits)
      next
        case 5
        with E None bar(2) show ?thesis using ih(8-11) keeps_base_push [OF keep] bar(1)
          by (auto split: if_splits)
      qed
    qed
  qed
qed

lemma static_char_plain:
  assumes "is_static_char c"
  shows "quantifier c = None" "c \<noteq> CHR ''(''" "c \<noteq> CHR '')''" "c \<noteq> CHR ''|''" "c \<noteq> CHR ''[''"
    "c \<noteq> CHR 0x5C" "c \<noteq> CHR ''{''" "c \<noteq> CHR ''.''" "c \<noteq> CHR ''^''" "c \<noteq> CHR ''$''"
  using assms by (auto simp: is_static_char_def quantifier_def less_eq_char_def)

lemma escape_dot: "escape_class CHR ''.'' = None" "escape_lit CHR ''.'' = Some CHR ''.''"
  by (simp_all add: escape_class_def escape_lit_def is_punct_def)

lemma parse_static_prefix:
  "static_prefix s = (p, rest) \<Longrightarrow>
   parse f stack ncap s = parse (f\<lparr>cat := map OpLit (rev p) @ cat f\<rparr>) stack ncap rest"
proof (induction s arbitrary: f p rule: static_prefix.induct)
  case 1
  then show ?case by simp
next
  case (2 ch r)
  show ?case
  proof (cases "is_static_char ch")
    case True
    with 2 obtain p' where p': "static_prefix r = (p', rest)" "p = ch # p'"
      by (auto simp: Let_def split: prod.splits)
    have "parse f stack ncap (ch # r) = parse (push (OpLit ch) f) stack ncap r"
      using static_char_plain [OF True] by (subst parse.simps) simp
    also have "\<dots> = parse (f\<lparr>cat := map OpLit (rev p) @ cat f\<rparr>) stack ncap rest"
      using "2.IH"(1) [OF True p'(1)] p'(2) by (simp add: push_def)
    finally show ?thesis .
  next
    case False
    show ?thesis
    proof (cases "ch = CHR 0x5C \<and> r \<noteq> [] \<and> hd r = CHR ''.''")
      case True
      with False 2 obtain p' where p': "static_prefix (tl r) = (p', rest)" "p = CHR ''.'' # p'"
        by (auto simp: Let_def split: prod.splits)
      from True obtain r' where "r = CHR ''.'' # r'" by (cases r) auto
      then have "parse f stack ncap (ch # r) = parse (push (OpLit CHR ''.'') f) stack ncap (tl r)"
        using True by (subst parse.simps) (simp add: quantifier_def escape_dot)
      also have "\<dots> = parse (f\<lparr>cat := map OpLit (rev p) @ cat f\<rparr>) stack ncap rest"
        using "2.IH"(2) [OF False True p'(1)] p'(2) by (simp add: push_def)
      finally show ?thesis .
    next
      case n: False
      with False 2 show ?thesis by simp
    qed
  qed
qed

lemma lead_cat_of: "lead (cat_of rs) = concat (map lead rs)"
  by (induction rs rule: cat_of.induct) auto

lemma prefix_safe_no_bar:
  assumes "static_prefix s = (p, rest)" and "CHR ''|'' \<notin> set rest"
    and "rest = [] \<or> quantifier (hd rest) = None"
  shows "prefix_safe (CHR ''^'' # s)"
proof (cases "Compile (CHR ''^'' # s)")
  case (Inl e)
  then show ?thesis by (simp add: prefix_safe_def)
next
  case (Inr re)
  let ?base = "map OpLit (rev p) @ [OpBeginText]"
  let ?f = "(new_frame None)\<lparr>cat := ?base\<rparr>"
  have "Compile (CHR ''^'' # s) = parse (push OpBeginText (new_frame None)) [] 0 s"
    unfolding Compile_def by (subst parse.simps) (simp add: quantifier_def)
  also have "\<dots> = parse ?f [] 0 rest"
    by (subst parse_static_prefix [OF assms(1)]) (simp add: push_def new_frame_def)
  finally have "parse ?f [] 0 rest = Inr re" using Inr by simp
  moreover have "keeps_base ?base [?f] rest"
    using assms(3) by (auto simp: keeps_base_def new_frame_def split: list.splits)
  ultimately obtain xs where "re = cat_of (rev (xs @ ?base))"
    using parse_keeps_base assms(2) by blast
  then have "lead re = OpBeginText # map OpLit p @ concat (map lead (rev xs))"
    by (simp add: lead_cat_of rev_map comp_def)
  then show ?thesis
    using Inr assms(1) by (simp add: prefix_safe_def starts_with_def regexToPrefix_def)
qed

subsection \<open>Properties\<close>

text \<open>C12: a matcher built by \<open>New\<close> accepts a key exactly when all six configured conditions
  hold (prefix, notPrefix, sub, notSub, regex, notRegex, an empty one being no condition), the
  static-prefix shortcuts included, whenever the prefix cut out of each regular expression is
  implied by that expression.\<close>

theorem match_is_conjunction_of_conditions:
  assumes "matcher_New prefix notPrefix sub notSub regex notRegex = (m, None)"
    and "prefix_safe regex" and "prefix_safe notRegex"
  shows "Match m s \<longleftrightarrow> Match_spec prefix notPrefix sub notSub regex notRegex s"
  using assms by (rule Match_sound_lemma)

theorem match_is_conjunction_of_conditions_witness:
  "\<exists>m. matcher_New ''stats'' [] ''cpu'' [] ''^stats_[a-z]+'' ''^stats_x'' = (m, None) \<and>
       (Match m ''stats_cpu'' \<longleftrightarrow> Match_spec ''stats'' [] ''cpu'' [] ''^stats_[a-z]+'' ''^stats_x'' ''stats_cpu'')"
proof -
  let ?m = "fst (matcher_New ''stats'' [] ''cpu'' [] ''^stats_[a-z]+'' ''^stats_x'')"
  have "snd (matcher_New ''stats'' [] ''cpu'' [] ''^stats_[a-z]+'' ''^stats_x'') = None" by code_simp
  then have new: "matcher_New ''stats'' [] ''cpu'' [] ''^stats_[a-z]+'' ''^stats_x'' = (?m, None)"
    by (metis prod.collapse)
  have safe: "prefix_safe ''^stats_[a-z]+''" "prefix_safe ''^stats_x''" by code_simp+
  from match_is_conjunction_of_conditions [OF new safe, of "''stats_cpu''"] new show ?thesis by blast
qed

text \<open>\<open>PreMatch\<close> is a sound filter: whatever \<open>Match\<close> accepts passes \<open>PreMatch\<close>, so discarding
  a metric that fails the cheap test never loses one that the full test selects.\<close>

theorem prematch_is_sound_filter:
  assumes "matcher_New prefix notPrefix sub notSub regex notRegex = (m, None)" and "Match m s"
  shows "PreMatch m s"
  using assms by (rule Match_PreMatch_lemma)

theorem prematch_is_sound_filter_witness:
  "PreMatch (fst (matcher_New ''a'' [] ''b'' [] ''^a_[a-c]+$'' [])) ''a_bc''"
proof -
  let ?m = "matcher_New ''a'' [] ''b'' [] ''^a_[a-c]+$'' []"
  have "snd ?m = None" and m: "Match (fst ?m) ''a_bc''" by code_simp+
  then have "?m = (fst ?m, None)" by (metis prod.collapse)
  from prematch_is_sound_filter [OF this m] show ?thesis .
qed

text \<open>the static prefix is sound for the anchored patterns it is meant for: if what follows
  the prefix in the pattern contains no \<open>|\<close> and does not start with a repetition operator, then
  every key the regular expression matches starts with the prefix that \<open>regexToPrefix\<close> returns.\<close>

theorem static_prefix_is_implied:
  assumes "static_prefix s = (p, rest)" and "CHR ''|'' \<notin> set rest"
    and "rest = [] \<or> quantifier (hd rest) = None"
    and "regex_holds (CHR ''^'' # s) key"
  shows "regexToPrefix (CHR ''^'' # s) = p \<and> has_prefix key p"
  using prefix_safe_holds [OF prefix_safe_no_bar [OF assms(1-3)] assms(4)] assms(1)
  by (simp add: regexToPrefix_def)

theorem static_prefix_is_implied_witness:
  "regexToPrefix ''^carbon-.+'' = ''carbon-'' \<and> has_prefix ''carbon-cache'' ''carbon-''"
proof -
  have "static_prefix ''carbon-.+'' = (''carbon-'', ''.+'')" by code_simp
  moreover have "CHR ''|'' \<notin> set ''.+''" "''.+'' = [] \<or> quantifier (hd ''.+'') = None"
    by code_simp+
  moreover have "regex_holds ''^carbon-.+'' ''carbon-cache''" by code_simp
  ultimately show ?thesis using static_prefix_is_implied by blast
qed

text \<open>the shortcut is not sound for every pattern: with the route pattern \<open>^foo|bar\<close> or
  \<open>^foo?\<close> the matcher rejects keys that the regular expression itself matches, because the static
  prefix \<open>foo\<close> is required of every key.\<close>

theorem match_rejects_keys_the_regex_matches:
  "(\<exists>m. matcher_New [] [] [] [] ''^foo|bar'' [] = (m, None) \<and>
        regex_holds ''^foo|bar'' ''bar'' \<and> \<not> Match m ''bar'') \<and>
   (\<exists>m. matcher_New [] [] [] [] ''^foo?'' [] = (m, None) \<and>
        regex_holds ''^foo?'' ''fo.x'' \<and> \<not> Match m ''fo.x'')"
proof (intro conjI)
  let ?m = "matcher_New [] [] [] [] ''^foo|bar'' []"
  have "snd ?m = None" "regex_holds ''^foo|bar'' ''bar''" "\<not> Match (fst ?m) ''bar''" by code_simp+
  then show "\<exists>m. ?m = (m, None) \<and> regex_holds ''^foo|bar'' ''bar'' \<and> \<not> Match m ''bar''"
    by (metis prod.collapse)
next
  let ?m = "matcher_New [] [] [] [] ''^foo?'' []"
  have "snd ?m = None" "regex_holds ''^foo?'' ''fo.x''" "\<not> Match (fst ?m) ''fo.x''" by code_simp+
  then show "\<exists>m. ?m = (m, None) \<and> regex_holds ''^foo?'' ''fo.x'' \<and> \<not> Match m ''fo.x''"
    by (metis prod.collapse)
qed

end
