(* ===== verification/Agg_Aggregator.thy ===== *)
theory Agg_Aggregator
  imports Agg_Processor Go_Hash Relay_Matcher
begin

text \<open>
  \<^verbatim>\<open>aggregator/aggregator.go\<close>, with the range tracker of \<^verbatim>\<open>init.go\<close>, the reporter of
  \<^verbatim>\<open>aggregator_reporter.go\<close> and the ticks of \<^verbatim>\<open>clock/clock.go\<close>. An aggregator owns a goroutine
  (\<open>run\<close>) that serves its input channel, its ticks, snapshot requests and the shutdown; its
  behaviour is a sequence of the events of \<open>agg_event\<close>, each with the clock reading it makes.

  \<^item> Clock readings are Unix seconds (an \<open>int\<close>); \<open>uint(t.Unix())\<close> wraps to 64 bits, and so does
    \<open>now - Wait\<close>. The duration of \<open>Wait\<close> seconds is taken not to overflow (292 years).
  \<^item> Maps are association lists; where the code iterates over one, the order of the list is used,
    except that the cleaning of the cache, which stops early, takes the order as an argument.
  \<^item> The channel \<open>in\<close> is the list \<open>a_in\<close>, the channel \<open>out\<close> the list of lines sent so far. The
    process-wide counters and the tracker are fields of the state.
\<close>

subsection \<open>The range tracker and the ticks\<close>

record RangeTracker =
  rt_min :: uint32
  rt_max :: uint32

definition NewRangeTracker :: RangeTracker where
  "NewRangeTracker = \<lparr>rt_min = 4294967295, rt_max = 0\<rparr>"

definition Sample :: "uint32 \<Rightarrow> RangeTracker \<Rightarrow> RangeTracker" where
  "Sample ts m =
     (let m1 = (if ts > rt_max m then m\<lparr>rt_max := ts\<rparr> else m)
      in if ts < rt_min m1 then m1\<lparr>rt_min := ts\<rparr> else m1)"

text \<open>One second's report: the range seen, reset; with nothing seen both are the current time.\<close>

definition RangeTracker_report :: "int \<Rightarrow> RangeTracker \<Rightarrow> (uint32 \<times> uint32) \<times> RangeTracker" where
  "RangeTracker_report now m =
     (let mn = rt_min m; mx = rt_max m;
          m' = m\<lparr>rt_min := 4294967295, rt_max := 0\<rparr>
      in if mx = 0 then ((word_of_int now, word_of_int now), m') else ((mn, mx), m'))"

text \<open>The time \<open>AlignedTick\<close> sleeps before its next tick, in nanoseconds.\<close>

definition AlignedTick_diff :: "int \<Rightarrow> int \<Rightarrow> int \<Rightarrow> int outcome" where
  "AlignedTick_diff period offset unix =
     (if period = 0 then Panic DivisionByZero
      else let adjusted = unix - offset
           in Ok (period - sgn adjusted * (\<bar>adjusted\<bar> mod \<bar>period\<bar>)))"

subsection \<open>State\<close>

record aggregation =
  agg_count :: uint32
  agg_state :: "(bytes \<times> Processor) list"

record CacheEntry =
  ce_match :: bool
  ce_key :: bytes
  ce_seen :: uint32

record msg =
  msg_buf :: "bytes list"
  msg_val :: real
  msg_ts :: uint32

record Aggregator =
  Fun :: bytes
  procConstr :: "real \<Rightarrow> uint32 \<Rightarrow> Processor"
  a_in :: "msg list"
  a_out :: "bytes list"
  a_Matcher :: Matcher
  outFmt :: bytes
  reCache :: "(bytes \<times> CacheEntry) list option"
  Interval :: uint64
  Wait :: uint64
  DropRaw :: bool
  tsList :: "uint64 list"
  aggregations :: "(uint64 \<times> aggregation) list"
  a_Key :: bytes
  numIn :: nat
  numFlushed :: nat
  numTooOld :: nat
  rangeTracker :: RangeTracker
  reports :: "(bytes \<times> uint32 \<times> uint32) list"
  a_running :: bool

definition hex_digit :: "nat \<Rightarrow> char" where
  "hex_digit d = (if d < 10 then digit_char d else char_of (87 + d))"

definition hex_string :: "bytes \<Rightarrow> bytes" where
  "hex_string s = concat (map (\<lambda>c. [hex_digit (of_char c div 16), hex_digit (of_char c mod 16)]) s)"

definition setKey :: "bytes \<Rightarrow> Matcher \<Rightarrow> bytes \<Rightarrow> bytes" where
  "setKey f m fmt =
     take 7 (hex_string (md5_Sum
       (f @ [CHR 0x00] @ Regex m @ [CHR 0x00] @ NotRegex m @ [CHR 0x00] @ Prefix m @ [CHR 0x00] @
        NotPrefix m @ [CHR 0x00] @ Sub m @ [CHR 0x00] @ NotSub m @ [CHR 0x00] @ fmt)))"

definition NewMocked ::
  "bytes \<Rightarrow> Matcher \<Rightarrow> bytes \<Rightarrow> bool \<Rightarrow> uint64 \<Rightarrow> uint64 \<Rightarrow> bool \<Rightarrow> agg_error + Aggregator" where
  "NewMocked f m fmt cache interval wait dropRaw =
     (case GetProcessorConstructor f of
        Inl err \<Rightarrow> Inl err
      | Inr constr \<Rightarrow>
          Inr \<lparr>Fun = f, procConstr = constr, a_in = [], a_out = [], a_Matcher = m, outFmt = fmt,
               reCache = (if cache then Some [] else None),
               Interval = interval, Wait = wait, DropRaw = dropRaw,
               tsList = [], aggregations = [], a_Key = setKey f m fmt,
               numIn = 0, numFlushed = 0, numTooOld = 0, rangeTracker = NewRangeTracker,
               reports = [], a_running = True\<rparr>)"

definition agg_New ::
  "bytes \<Rightarrow> Matcher \<Rightarrow> bytes \<Rightarrow> bool \<Rightarrow> uint64 \<Rightarrow> uint64 \<Rightarrow> bool \<Rightarrow> int \<Rightarrow> (agg_error + Aggregator) outcome" where
  "agg_New f m fmt cache interval wait dropRaw unix =
     (case AlignedTick_diff (uint interval * 10 ^ 9) (uint wait * 10 ^ 9) unix of
        Panic p \<Rightarrow> Panic p
      | Ok _ \<Rightarrow> Ok (NewMocked f m fmt cache interval wait dropRaw))"

subsection \<open>Adding a value\<close>

definition unix_uint :: "int \<Rightarrow> uint64" where
  "unix_uint now = word_of_int now"

definition create_second_level ::
  "bytes \<Rightarrow> uint32 \<Rightarrow> uint64 \<Rightarrow> real \<Rightarrow> int \<Rightarrow> aggregation \<Rightarrow> Aggregator \<Rightarrow> Aggregator" where
  "create_second_level key ts quantized value now agg a =
     (if quantized > unix_uint now - Wait a
      then a\<lparr>aggregations := AList.update quantized
               (agg\<lparr>agg_count := agg_count agg + 1,
                    agg_state := AList.update key (procConstr a value ts) (agg_state agg)\<rparr>)
               (aggregations a)\<rparr>
      else a\<lparr>numTooOld := numTooOld a + 1\<rparr>)"

definition AddOrCreate ::
  "bytes \<Rightarrow> uint32 \<Rightarrow> uint64 \<Rightarrow> real \<Rightarrow> int \<Rightarrow> Aggregator \<Rightarrow> Aggregator" where
  "AddOrCreate key ts quantized value now a0 =
     (let a = a0\<lparr>rangeTracker := Sample ts (rangeTracker a0)\<rparr>
      in case map_of (aggregations a) quantized of
           Some agg \<Rightarrow>
             (case map_of (agg_state agg) key of
                Some proc \<Rightarrow>
                  a\<lparr>aggregations := AList.update quantized
                      (agg\<lparr>agg_count := agg_count agg + 1,
                           agg_state := AList.update key (Add value ts proc) (agg_state agg)\<rparr>)
                      (aggregations a)\<rparr>
              | None \<Rightarrow> create_second_level key ts quantized value now agg a)
         | None \<Rightarrow>
             let l = tsList a @ [quantized];
                 l' = (if length l > 1 \<and> l ! (length l - 2) > quantized then sort l else l);
                 agg = \<lparr>agg_count = 0, agg_state = []\<rparr>
             in create_second_level key ts quantized value now agg
                  (a\<lparr>tsList := l', aggregations := AList.update quantized agg (aggregations a)\<rparr>))"

subsection \<open>Flushing\<close>

definition render_results :: "uint64 \<Rightarrow> bytes \<Rightarrow> processorResult list \<times> bool \<Rightarrow> bytes list" where
  "render_results ts key r =
     (case r of
        (results, ok) \<Rightarrow>
          if \<not> ok then []
          else if length results = 1
          then [key @ '' '' @ format_float6 (snd (hd results)) @ '' '' @ format_nat (unat ts)]
          else map (\<lambda>(fcnName, val).
                 key @ ''.'' @ fcnName @ '' '' @ format_float6 val @ '' '' @ format_nat (unat ts)) results)"

definition result_lines :: "uint64 \<Rightarrow> bytes \<Rightarrow> Processor \<Rightarrow> bytes list" where
  "result_lines ts key proc = render_results ts key (Flush proc)"

fun flush_loop :: "uint64 \<Rightarrow> uint64 list \<Rightarrow> Aggregator \<Rightarrow> nat \<Rightarrow> (Aggregator \<times> nat) outcome" where
  "flush_loop cutoff [] a pos = Ok (a, pos)"
| "flush_loop cutoff (ts # rest) a pos =
     (if ts > cutoff then Ok (a, pos)
      else case map_of (aggregations a) ts of
             None \<Rightarrow> Panic NilDereference
           | Some agg \<Rightarrow>
               let lines = concat (map (\<lambda>(key, proc). result_lines ts key proc) (agg_state agg))
               in flush_loop cutoff rest
                    (a\<lparr>a_out := a_out a @ lines,
                       numFlushed := numFlushed a + length lines,
                       reports := reports a @ [(a_Key a, ucast ts, agg_count agg)],
                       aggregations := AList.delete ts (aggregations a)\<rparr>) (pos + 1))"

definition agg_Flush :: "uint64 \<Rightarrow> Aggregator \<Rightarrow> Aggregator outcome" where
  "agg_Flush cutoff a =
     (case flush_loop cutoff (tsList a) a 0 of
        Panic p \<Rightarrow> Panic p
      | Ok (a', pos) \<Rightarrow>
          if pos = 0 then Ok a'
          else if pos = length (tsList a) then Ok (a'\<lparr>tsList := []\<rparr>)
          else Ok (a'\<lparr>tsList := drop pos (tsList a')\<rparr>))"

subsection \<open>Matching, with the cache\<close>

definition matchWithCache :: "bytes \<Rightarrow> int \<Rightarrow> Aggregator \<Rightarrow> ((bytes \<times> bool) \<times> Aggregator) outcome" where
  "matchWithCache key now a =
     (case reCache a of
        None \<Rightarrow> (case MatchRegexAndExpand (a_Matcher a) key (outFmt a) of
                   Panic p \<Rightarrow> Panic p
                 | Ok r \<Rightarrow> Ok (r, a))
      | Some cache \<Rightarrow>
          (case map_of cache key of
             Some entry \<Rightarrow>
               Ok ((ce_key entry, ce_match entry),
                   a\<lparr>reCache := Some (AList.update key (entry\<lparr>ce_seen := word_of_int now\<rparr>) cache)\<rparr>)
           | None \<Rightarrow>
               (case MatchRegexAndExpand (a_Matcher a) key (outFmt a) of
                  Panic p \<Rightarrow> Panic p
                | Ok (outKey, ok) \<Rightarrow>
                    Ok ((outKey, ok),
                        a\<lparr>reCache := Some (AList.update key
                            \<lparr>ce_match = ok, ce_key = outKey, ce_seen = word_of_int now\<rparr> cache)\<rparr>))))"

definition AddMaybe :: "bytes list \<Rightarrow> real \<Rightarrow> uint32 \<Rightarrow> int \<Rightarrow> Aggregator \<Rightarrow> (bool \<times> Aggregator) outcome" where
  "AddMaybe buf val ts now a =
     (if \<not> PreMatch (a_Matcher a) (hd buf) then Ok (False, a)
      else
        let enqueue = (\<lambda>a. Ok (DropRaw a, a\<lparr>a_in := a_in a @ [\<lparr>msg_buf = buf, msg_val = val, msg_ts = ts\<rparr>]\<rparr>))
        in if DropRaw a
           then (case matchWithCache (hd buf) now a of
                   Panic p \<Rightarrow> Panic p
                 | Ok ((_, ok), a') \<Rightarrow> if \<not> ok then Ok (False, a') else enqueue a')
           else enqueue a)"

subsection \<open>The goroutine\<close>

fun clean_cache :: "bytes list \<Rightarrow> uint32 \<Rightarrow> (bytes \<times> CacheEntry) list \<Rightarrow> (bytes \<times> CacheEntry) list" where
  "clean_cache [] cutoff cache = cache"
| "clean_cache (k # ks) cutoff cache =
     (case map_of cache k of
        None \<Rightarrow> clean_cache ks cutoff cache
      | Some v \<Rightarrow> if ce_seen v < cutoff then clean_cache ks cutoff (AList.delete k cache) else cache)"

definition Snapshot :: "Aggregator \<Rightarrow> (uint64 \<times> uint32 \<times> bytes list) list" where
  "Snapshot a = map (\<lambda>(quant, agg). (quant, agg_count agg, map fst (agg_state agg))) (aggregations a)"

datatype agg_event =
    Msg int
  | Tick int "bytes list"
  | SnapReq
  | Shutdown int
  | AddCall "bytes list" real uint32 int

definition quantize :: "uint64 \<Rightarrow> uint32 \<Rightarrow> uint64" where
  "quantize interval t = (let ts = ucast t :: uint64 in ts - ts mod interval)"

definition handle_msg :: "msg \<Rightarrow> int \<Rightarrow> Aggregator \<Rightarrow> Aggregator outcome" where
  "handle_msg m now a =
     (case matchWithCache (hd (msg_buf m)) now a of
        Panic p \<Rightarrow> Panic p
      | Ok ((outKey, ok), a1) \<Rightarrow>
          if \<not> ok then Ok a1
          else
            let a2 = a1\<lparr>numIn := numIn a1 + 1\<rparr>
            in if Interval a2 = 0 then Panic DivisionByZero
               else let quantized = quantize (Interval a2) (msg_ts m)
                    in Ok (AddOrCreate outKey (msg_ts m) quantized (msg_val m) now a2))"

definition handle_tick :: "int \<Rightarrow> bytes list \<Rightarrow> Aggregator \<Rightarrow> Aggregator outcome" where
  "handle_tick now order a =
     (case agg_Flush (unix_uint (now - uint (Wait a))) a of
        Panic p \<Rightarrow> Panic p
      | Ok a1 \<Rightarrow>
          (case reCache a1 of
             None \<Rightarrow> Ok a1
           | Some cache \<Rightarrow>
               let cutoff = word_of_int (now - 100 * uint (Wait a1)) :: uint32
               in Ok (a1\<lparr>reCache := Some (clean_cache order cutoff cache)\<rparr>)))"

fun agg_step :: "agg_event \<Rightarrow> Aggregator \<Rightarrow> Aggregator outcome" where
  "agg_step (Msg now) a =
     (case a_in a of
        [] \<Rightarrow> Ok a
      | m # rest \<Rightarrow> if a_running a then handle_msg m now (a\<lparr>a_in := rest\<rparr>) else Ok a)"
| "agg_step (Tick now order) a = (if a_running a then handle_tick now order a else Ok a)"
| "agg_step SnapReq a = Ok a"
| "agg_step (Shutdown now) a =
     (if a_running a
      then (case agg_Flush (unix_uint (now - uint (Wait a))) a of
              Panic p \<Rightarrow> Panic p
            | Ok a' \<Rightarrow> Ok (a'\<lparr>a_running := False\<rparr>))
      else Ok a)"
| "agg_step (AddCall buf val ts now) a =
     (case AddMaybe buf val ts now a of Panic p \<Rightarrow> Panic p | Ok (_, a') \<Rightarrow> Ok a')"

fun agg_run :: "agg_event list \<Rightarrow> Aggregator \<Rightarrow> Aggregator outcome" where
  "agg_run [] a = Ok a"
| "agg_run (e # es) a = (case agg_step e a of Panic p \<Rightarrow> Panic p | Ok a' \<Rightarrow> agg_run es a')"

end
