(* ===== verification/Agg_Correct.thy ===== *)
theory Agg_Correct
  imports Agg_Aggregator
begin

text \<open>
  The correctness of the aggregator: the invariant of its tables, the transparency of its cache,
  the contents of its buckets, and what is flushed.
\<close>

subsection \<open>The tables\<close>

definition lookup :: "Aggregator \<Rightarrow> uint64 \<Rightarrow> bytes \<Rightarrow> Processor option" where
  "lookup a q k = (case map_of (aggregations a) q of None \<Rightarrow> None | Some agg \<Rightarrow> map_of (agg_state agg) k)"

definition agg_wf :: "Aggregator \<Rightarrow> bool" where
  "agg_wf a \<longleftrightarrow> sorted_wrt (<) (tsList a) \<and> set (tsList a) = fst ` set (aggregations a) \<and>
     distinct (map fst (aggregations a))"

lemma distinct_delete_fst: "distinct (map fst al) \<Longrightarrow> distinct (map fst (AList.delete k al))"
  by (rule distinct_delete)

lemma set_delete_fst: "fst ` set (AList.delete k al) = fst ` set al - {k}"
  by (metis delete_keys list.set_map set_removeAll)

lemma sorted_wrt_less_sort:
  assumes "sorted_wrt (<) (xs :: 'a::linorder list)" "x \<notin> set xs"
  shows "sorted_wrt (<) (sort (xs @ [x]))"
proof -
  have "distinct (sort (xs @ [x]))" using assms by (simp add: strict_sorted_iff)
  then show ?thesis by (simp add: strict_sorted_iff)
qed

lemma sorted_wrt_less_snoc:
  assumes "sorted_wrt (<) (xs :: 'a::linorder list)" "x \<notin> set xs" "\<not> last xs > x"
  shows "sorted_wrt (<) (xs @ [x])"
  using assms
proof (cases xs rule: rev_exhaust)
  case (snoc ys y)
  then have "y < x" using assms by auto
  then show ?thesis using assms snoc by (auto simp: sorted_wrt_append)
qed simp

lemma create_second_level_simps [simp]:
  "tsList (create_second_level key ts q v now agg a) = tsList a"
  "Wait (create_second_level key ts q v now agg a) = Wait a"
  "Interval (create_second_level key ts q v now agg a) = Interval a"
  "procConstr (create_second_level key ts q v now agg a) = procConstr a"
  "a_Matcher (create_second_level key ts q v now agg a) = a_Matcher a"
  "outFmt (create_second_level key ts q v now agg a) = outFmt a"
  "reCache (create_second_level key ts q v now agg a) = reCache a"
  "a_in (create_second_level key ts q v now agg a) = a_in a"
  "a_out (create_second_level key ts q v now agg a) = a_out a"
  "a_running (create_second_level key ts q v now agg a) = a_running a"
  "DropRaw (create_second_level key ts q v now agg a) = DropRaw a"
  by (simp_all add: create_second_level_def)

lemma AddOrCreate_simps [simp]:
  "Wait (AddOrCreate key ts q v now a) = Wait a"
  "Interval (AddOrCreate key ts q v now a) = Interval a"
  "procConstr (AddOrCreate key ts q v now a) = procConstr a"
  "a_Matcher (AddOrCreate key ts q v now a) = a_Matcher a"
  "outFmt (AddOrCreate key ts q v now a) = outFmt a"
  "reCache (AddOrCreate key ts q v now a) = reCache a"
  "a_in (AddOrCreate key ts q v now a) = a_in a"
  "a_out (AddOrCreate key ts q v now a) = a_out a"
  "a_running (AddOrCreate key ts q v now a) = a_running a"
  "DropRaw (AddOrCreate key ts q v now a) = DropRaw a"
  by (simp_all add: AddOrCreate_def Let_def split: option.splits)

lemma lookup_create_second_level:
  "map_of (aggregations a) q = Some agg \<Longrightarrow> map_of (agg_state agg) key = None \<Longrightarrow>
   lookup (create_second_level key ts q v now agg a) q' k' =
     (if q' = q \<and> k' = key then (if q > unix_uint now - Wait a then Some (procConstr a v ts) else None)
      else lookup a q' k')"
  by (auto simp: create_second_level_def lookup_def update_conv split: option.splits)

lemma lookup_AddOrCreate:
  "lookup (AddOrCreate key ts q v now a) q' k' =
     (if q' = q \<and> k' = key
      then (case lookup a q key of
              Some p \<Rightarrow> Some (Add v ts p)
            | None \<Rightarrow> if q > unix_uint now - Wait a then Some (procConstr a v ts) else None)
      else lookup a q' k')"
proof (cases "map_of (aggregations a) q")
  case None
  then show ?thesis
    by (auto simp: AddOrCreate_def Let_def lookup_def update_conv create_second_level_def split: option.splits)
next
  case (Some agg)
  then show ?thesis
    by (auto simp: AddOrCreate_def Let_def lookup_def update_conv create_second_level_def split: option.splits)
qed

lemma agg_wf_update_existing:
  "agg_wf a \<Longrightarrow> map_of (aggregations a) q \<noteq> None \<Longrightarrow>
     agg_wf (a\<lparr>aggregations := AList.update q agg (aggregations a)\<rparr>)"
  by (auto simp: agg_wf_def distinct_update dom_update map_of_eq_None_iff)

lemma create_second_level_wf:
  "agg_wf a \<Longrightarrow> map_of (aggregations a) q \<noteq> None \<Longrightarrow> agg_wf (create_second_level key ts q v now agg a)"
  by (auto simp: create_second_level_def intro: agg_wf_update_existing) (auto simp: agg_wf_def)

lemma AddOrCreate_wf [inv_intros]:
  assumes "agg_wf a" shows "agg_wf (AddOrCreate key ts q v now a)"
proof (cases "map_of (aggregations a) q")
  case None
  let ?l = "tsList a @ [q]"
  let ?l' = "if length ?l > 1 \<and> ?l ! (length ?l - 2) > q then sort ?l else ?l"
  let ?a = "a\<lparr>rangeTracker := Sample ts (rangeTracker a), tsList := ?l',
    aggregations := AList.update q \<lparr>agg_count = 0, agg_state = []\<rparr> (aggregations a)\<rparr>"
  have q: "q \<notin> set (tsList a)" using None assms by (auto simp: agg_wf_def map_of_eq_None_iff)
  have "tsList a \<noteq> [] \<Longrightarrow> ?l ! (length ?l - 2) = last (tsList a)"
    by (cases "tsList a" rule: rev_exhaust) (auto simp: nth_append)
  then have "sorted_wrt (<) ?l'"
    using sorted_wrt_less_sort [of "tsList a" q] sorted_wrt_less_snoc [of "tsList a" q] assms q
    by (cases "tsList a = []") (auto simp: agg_wf_def)
  then have "agg_wf ?a"
    using assms by (auto simp: agg_wf_def distinct_update dom_update)
  then have "agg_wf (create_second_level key ts q v now \<lparr>agg_count = 0, agg_state = []\<rparr> ?a)"
    by (rule create_second_level_wf) (simp add: update_conv')
  then show ?thesis using None by (simp add: AddOrCreate_def Let_def)
next
  case (Some agg)
  have wf: "agg_wf (a\<lparr>rangeTracker := Sample ts (rangeTracker a)\<rparr>)"
    using assms by (simp add: agg_wf_def)
  show ?thesis
    using Some create_second_level_wf [OF wf, of q key ts v now agg] agg_wf_update_existing [OF wf, of q]
    by (auto simp: AddOrCreate_def Let_def split: option.splits)
qed

subsection \<open>Flushing\<close>

text \<open>What a flush takes out: the buckets up to the cut-off, in the order of their timestamps.\<close>

definition due :: "uint64 \<Rightarrow> Aggregator \<Rightarrow> uint64 list" where
  "due cutoff a = takeWhile (\<lambda>ts. ts \<le> cutoff) (tsList a)"

definition bucket :: "Aggregator \<Rightarrow> uint64 \<Rightarrow> (bytes \<times> Processor) list" where
  "bucket a ts = (case map_of (aggregations a) ts of None \<Rightarrow> [] | Some agg \<Rightarrow> agg_state agg)"

definition bucket_lines :: "Aggregator \<Rightarrow> uint64 \<Rightarrow> bytes list" where
  "bucket_lines a ts = concat (map (\<lambda>(key, proc). result_lines ts key proc) (bucket a ts))"

lemma flush_loop_ok:
  assumes "distinct tss" "set tss \<subseteq> fst ` set (aggregations a)"
  shows "\<exists>a'. flush_loop cutoff tss a pos = Ok (a', pos + length (takeWhile (\<lambda>ts. ts \<le> cutoff) tss)) \<and>
    map_of (aggregations a') = map_of (aggregations a) |` (- set (takeWhile (\<lambda>ts. ts \<le> cutoff) tss)) \<and>
    (distinct (map fst (aggregations a)) \<longrightarrow> distinct (map fst (aggregations a'))) \<and>
    a_out a' = a_out a @ concat (map (bucket_lines a) (takeWhile (\<lambda>ts. ts \<le> cutoff) tss)) \<and>
    tsList a' = tsList a \<and> Wait a' = Wait a \<and> Interval a' = Interval a \<and> procConstr a' = procConstr a \<and>
    a_Matcher a' = a_Matcher a \<and> outFmt a' = outFmt a \<and> reCache a' = reCache a \<and> a_in a' = a_in a \<and>
    a_running a' = a_running a \<and> DropRaw a' = DropRaw a"
  using assms
proof (induction tss arbitrary: a pos)
  case Nil
  then show ?case by simp
next
  case (Cons ts tss)
  show ?case
  proof (cases "ts > cutoff")
    case True
    then show ?thesis by (auto simp: not_le [symmetric])
  next
    case False
    obtain agg where agg: "map_of (aggregations a) ts = Some agg"
      using Cons(3) by (cases "map_of (aggregations a) ts") (auto simp: map_of_eq_None_iff)
    let ?lines = "concat (map (\<lambda>(key, proc). result_lines ts key proc) (agg_state agg))"
    let ?a = "a\<lparr>a_out := a_out a @ ?lines, numFlushed := numFlushed a + length ?lines,
      reports := reports a @ [(a_Key a, ucast ts, agg_count agg)],
      aggregations := AList.delete ts (aggregations a)\<rparr>"
    have "set tss \<subseteq> fst ` set (aggregations ?a)"
      using Cons(2,3) by (auto simp: set_delete_fst)
    then obtain a' where a': "flush_loop cutoff tss ?a (pos + 1) =
          Ok (a', pos + 1 + length (takeWhile (\<lambda>ts. ts \<le> cutoff) tss))"
        "map_of (aggregations a') = map_of (aggregations ?a) |` (- set (takeWhile (\<lambda>ts. ts \<le> cutoff) tss))"
        "distinct (map fst (aggregations ?a)) \<longrightarrow> distinct (map fst (aggregations a'))"
        "a_out a' = a_out ?a @ concat (map (bucket_lines ?a) (takeWhile (\<lambda>ts. ts \<le> cutoff) tss))"
        "tsList a' = tsList a" "Wait a' = Wait a" "Interval a' = Interval a" "procConstr a' = procConstr a"
        "a_Matcher a' = a_Matcher a" "outFmt a' = outFmt a" "reCache a' = reCache a" "a_in a' = a_in a"
        "a_running a' = a_running a" "DropRaw a' = DropRaw a"
      using Cons.IH [of ?a "pos + 1"] Cons(2) by auto
    have "bucket_lines ?a t = bucket_lines a t" if "t \<in> set (takeWhile (\<lambda>ts. ts \<le> cutoff) tss)" for t
      using that Cons(2) set_takeWhileD [OF that]
      by (auto simp: bucket_lines_def bucket_def delete_conv')
    then have out: "map (bucket_lines ?a) (takeWhile (\<lambda>ts. ts \<le> cutoff) tss) =
        map (bucket_lines a) (takeWhile (\<lambda>ts. ts \<le> cutoff) tss)"
      by (intro map_cong) auto
    have del: "map_of (AList.delete ts (aggregations a)) = (map_of (aggregations a))(ts := None)"
      by (simp add: delete_conv')
    have le: "ts \<le> cutoff" using False by simp
    have step: "flush_loop cutoff (ts # tss) a pos = flush_loop cutoff tss ?a (pos + 1)"
      using agg False by (simp add: Let_def)
    have lines: "bucket_lines a ts = ?lines" by (simp add: bucket_lines_def bucket_def agg)
    show ?thesis
      unfolding step
    proof (intro exI conjI)
      show "flush_loop cutoff tss ?a (pos + 1) =
          Ok (a', pos + length (takeWhile (\<lambda>ts. ts \<le> cutoff) (ts # tss)))"
        using a'(1) le by simp
      show "map_of (aggregations a') =
          map_of (aggregations a) |` (- set (takeWhile (\<lambda>ts. ts \<le> cutoff) (ts # tss)))"
        unfolding a'(2) using del le by (auto simp: restrict_map_def fun_eq_iff)
      show "a_out a' = a_out a @ concat (map (bucket_lines a) (takeWhile (\<lambda>ts. ts \<le> cutoff) (ts # tss)))"
        using a'(4) out lines le by simp
      show "distinct (map fst (aggregations a)) \<longrightarrow> distinct (map fst (aggregations a'))"
        using a'(3) by (simp add: distinct_delete)
    qed (use a' in simp_all)
  qed
qed

lemma agg_Flush_ok:
  assumes "agg_wf a"
  obtains a' where "agg_Flush cutoff a = Ok a'"
    "map_of (aggregations a') = map_of (aggregations a) |` (- set (due cutoff a))"
    "agg_wf a'"
    "a_out a' = a_out a @ concat (map (bucket_lines a) (due cutoff a))"
    "Wait a' = Wait a" "Interval a' = Interval a" "procConstr a' = procConstr a"
    "a_Matcher a' = a_Matcher a" "outFmt a' = outFmt a" "reCache a' = reCache a" "a_in a' = a_in a"
    "a_running a' = a_running a" "DropRaw a' = DropRaw a"
proof -
  have d: "distinct (tsList a)" using assms by (auto simp: agg_wf_def strict_sorted_iff)
  obtain a' where a': "flush_loop cutoff (tsList a) a 0 = Ok (a', length (due cutoff a))"
      "map_of (aggregations a') = map_of (aggregations a) |` (- set (due cutoff a))"
      "distinct (map fst (aggregations a'))"
      "a_out a' = a_out a @ concat (map (bucket_lines a) (due cutoff a))"
      "tsList a' = tsList a" "Wait a' = Wait a" "Interval a' = Interval a" "procConstr a' = procConstr a"
      "a_Matcher a' = a_Matcher a" "outFmt a' = outFmt a" "reCache a' = reCache a" "a_in a' = a_in a"
      "a_running a' = a_running a" "DropRaw a' = DropRaw a"
    using flush_loop_ok [OF d, of a cutoff 0] assms by (auto simp: agg_wf_def due_def)
  let ?a = "a'\<lparr>tsList := drop (length (due cutoff a)) (tsList a)\<rparr>"
  have drop: "drop (length (due cutoff a)) (tsList a) = dropWhile (\<lambda>ts. ts \<le> cutoff) (tsList a)"
    by (simp add: due_def dropWhile_eq_drop)
  have fl: "agg_Flush cutoff a = Ok ?a"
    using a'(1,5) by (cases "due cutoff a = []") (auto simp: agg_Flush_def)
  have app: "tsList a = due cutoff a @ dropWhile (\<lambda>ts. ts \<le> cutoff) (tsList a)"
    by (simp add: due_def)
  have "set (dropWhile (\<lambda>ts. ts \<le> cutoff) (tsList a)) = set (tsList a) - set (due cutoff a)"
    using d by (subst app, subst (asm) app) auto
  moreover have "fst ` set (aggregations a') = set (tsList a) - set (due cutoff a)"
  proof -
    have "fst ` set (aggregations a') = dom (map_of (aggregations a'))"
      by (simp add: dom_map_of_conv_image_fst)
    also have "\<dots> = fst ` set (aggregations a) - set (due cutoff a)"
      unfolding a'(2) by (auto simp: dom_map_of_conv_image_fst [symmetric])
    finally show ?thesis using assms by (simp add: agg_wf_def)
  qed
  moreover have "sorted_wrt (<) (dropWhile (\<lambda>ts. ts \<le> cutoff) (tsList a))"
    using assms by (subst (asm) agg_wf_def, subst (asm) app) (simp add: sorted_wrt_append)
  ultimately have "agg_wf ?a" using a'(3) by (simp add: agg_wf_def drop)
  then show thesis by (intro that [OF fl]) (use a' in \<open>simp_all add: agg_wf_def\<close>)
qed

subsection \<open>The cache\<close>

definition expanded :: "Matcher \<Rightarrow> bytes \<Rightarrow> bytes \<Rightarrow> bytes \<times> bool" where
  "expanded m key fmt = (case MatchRegexAndExpand m key fmt of Ok r \<Rightarrow> r | Panic _ \<Rightarrow> ([], False))"

lemma expanded_ok: "iregex m \<noteq> None \<Longrightarrow> MatchRegexAndExpand m key fmt = Ok (expanded m key fmt)"
  by (auto simp: expanded_def MatchRegexAndExpand_def split: option.splits)

definition cache_ok :: "Aggregator \<Rightarrow> bool" where
  "cache_ok a \<longleftrightarrow> (\<forall>c k e. reCache a = Some c \<longrightarrow> map_of c k = Some e \<longrightarrow>
     (ce_key e, ce_match e) = expanded (a_Matcher a) k (outFmt a))"

lemma matchWithCache_ok:
  assumes "cache_ok a" "iregex (a_Matcher a) \<noteq> None"
  obtains c where "matchWithCache key now a = Ok (expanded (a_Matcher a) key (outFmt a), a\<lparr>reCache := c\<rparr>)"
    "cache_ok (a\<lparr>reCache := c\<rparr>)"
proof (cases "reCache a")
  case None
  then show ?thesis
    using that [of None] assms by (simp add: matchWithCache_def expanded_ok cache_ok_def)
next
  case (Some cache)
  note cache = this
  show ?thesis
  proof (cases "map_of cache key")
    case None
    obtain k b where kb: "expanded (a_Matcher a) key (outFmt a) = (k, b)" by fastforce
    show ?thesis
      by (rule that [of "Some (AList.update key \<lparr>ce_match = b, ce_key = k, ce_seen = word_of_int now\<rparr> cache)"])
        (use assms cache None kb in \<open>auto simp: matchWithCache_def expanded_ok cache_ok_def update_conv\<close>)
  next
    case (Some e)
    show ?thesis
      by (rule that [of "Some (AList.update key (e\<lparr>ce_seen := word_of_int now\<rparr>) cache)"])
        (use assms cache Some in \<open>auto simp: matchWithCache_def cache_ok_def update_conv\<close>)
  qed
qed

lemma clean_cache_le: "map_of (clean_cache ks cutoff cache) k = Some e \<Longrightarrow> map_of cache k = Some e"
  by (induction ks cutoff cache rule: clean_cache.induct)
    (auto split: option.splits if_splits simp: delete_conv')

subsection \<open>The invariant of the goroutine\<close>

definition keys_wf :: "Aggregator \<Rightarrow> bool" where
  "keys_wf a \<longleftrightarrow> (\<forall>q agg. map_of (aggregations a) q = Some agg \<longrightarrow> distinct (map fst (agg_state agg)))"

lemma keys_wf_create [inv_intros]:
  "keys_wf a \<Longrightarrow> distinct (map fst (agg_state agg)) \<Longrightarrow> keys_wf (create_second_level key ts q v now agg a)"
  by (auto simp: keys_wf_def create_second_level_def update_conv distinct_update)

lemma AddOrCreate_keys_wf [inv_intros]:
  assumes "keys_wf a" shows "keys_wf (AddOrCreate key ts q v now a)"
proof -
  let ?b = "\<lambda>l al. a\<lparr>rangeTracker := Sample ts (rangeTracker a), tsList := l, aggregations := al\<rparr>"
  have "keys_wf (?b l (AList.update q \<lparr>agg_count = 0, agg_state = []\<rparr> (aggregations a)))" for l
    using assms by (auto simp: keys_wf_def update_conv)
  moreover have "keys_wf (a\<lparr>rangeTracker := Sample ts (rangeTracker a)\<rparr>)"
    using assms by (simp add: keys_wf_def)
  ultimately show ?thesis
    using assms unfolding AddOrCreate_def Let_def
    by (auto split: option.splits intro!: keys_wf_create)
      (auto simp: keys_wf_def update_conv distinct_update)
qed

definition agg_inv :: "Aggregator \<Rightarrow> bool" where
  "agg_inv a \<longleftrightarrow> agg_wf a \<and> keys_wf a \<and> cache_ok a \<and> iregex (a_Matcher a) \<noteq> None \<and> Interval a \<noteq> 0"

text \<open>The configuration of an aggregator, which no event changes.\<close>

definition config :: "Aggregator \<Rightarrow> (real \<Rightarrow> uint32 \<Rightarrow> Processor) \<times> Matcher \<times> bytes \<times> uint64 \<times> uint64 \<times> bool" where
  "config a = (procConstr a, a_Matcher a, outFmt a, Interval a, Wait a, DropRaw a)"

lemma agg_inv_more [simp]:
  "agg_inv (a\<lparr>a_in := x\<rparr>) = agg_inv a" "agg_inv (a\<lparr>numIn := n\<rparr>) = agg_inv a"
  "agg_inv (a\<lparr>a_running := b\<rparr>) = agg_inv a"
  by (simp_all add: agg_inv_def agg_wf_def keys_wf_def cache_ok_def)

lemma agg_inv_cache: "agg_inv a \<Longrightarrow> cache_ok (a\<lparr>reCache := c\<rparr>) \<Longrightarrow> agg_inv (a\<lparr>reCache := c\<rparr>)"
  by (simp add: agg_inv_def agg_wf_def keys_wf_def)

lemma config_more [simp]:
  "config (a\<lparr>a_in := x\<rparr>) = config a" "config (a\<lparr>numIn := n\<rparr>) = config a"
  "config (a\<lparr>a_running := b\<rparr>) = config a" "config (a\<lparr>reCache := c\<rparr>) = config a"
  "config (AddOrCreate key ts q v now a) = config a"
  by (simp_all add: config_def)

lemma AddOrCreate_inv [inv_intros]: "agg_inv a \<Longrightarrow> agg_inv (AddOrCreate key ts q v now a)"
  by (auto simp: agg_inv_def cache_ok_def intro!: inv_intros)

lemma handle_msg_ok:
  assumes "agg_inv a"
  obtains c where "cache_ok (a\<lparr>reCache := c\<rparr>)"
    "handle_msg m now a =
       Ok (if snd (expanded (a_Matcher a) (hd (msg_buf m)) (outFmt a))
           then AddOrCreate (fst (expanded (a_Matcher a) (hd (msg_buf m)) (outFmt a))) (msg_ts m)
                  (quantize (Interval a) (msg_ts m)) (msg_val m) now (a\<lparr>reCache := c, numIn := numIn a + 1\<rparr>)
           else a\<lparr>reCache := c\<rparr>)"
proof -
  obtain c where c: "matchWithCache (hd (msg_buf m)) now a =
      Ok (expanded (a_Matcher a) (hd (msg_buf m)) (outFmt a), a\<lparr>reCache := c\<rparr>)"
      "cache_ok (a\<lparr>reCache := c\<rparr>)"
    using matchWithCache_ok assms by (metis agg_inv_def)
  then show thesis
    using assms by (intro that [OF c(2)]) (auto simp: handle_msg_def agg_inv_def Let_def split: prod.splits)
qed

lemma handle_msg_keeps:
  assumes "agg_inv a"
  obtains a' where "handle_msg m now a = Ok a'" "agg_inv a'" "config a' = config a"
proof -
  obtain c where c: "cache_ok (a\<lparr>reCache := c\<rparr>)"
    "handle_msg m now a =
       Ok (if snd (expanded (a_Matcher a) (hd (msg_buf m)) (outFmt a))
           then AddOrCreate (fst (expanded (a_Matcher a) (hd (msg_buf m)) (outFmt a))) (msg_ts m)
                  (quantize (Interval a) (msg_ts m)) (msg_val m) now (a\<lparr>reCache := c, numIn := numIn a + 1\<rparr>)
           else a\<lparr>reCache := c\<rparr>)"
    using handle_msg_ok [OF assms] .
  have i: "agg_inv (a\<lparr>reCache := c\<rparr>)" using assms c(1) by (rule agg_inv_cache)
  have j: "agg_inv (a\<lparr>reCache := c, numIn := n\<rparr>)" for n using i by (simp only: agg_inv_more)
  show thesis
    by (rule that [OF c(2)]) (use i in \<open>auto intro!: AddOrCreate_inv j\<close>)
qed

lemma AddMaybe_ok:
  assumes "agg_inv a"
  obtains c where "cache_ok (a\<lparr>reCache := c\<rparr>)"
    "AddMaybe buf val ts now a =
       (if PreMatch (a_Matcher a) (hd buf) \<and>
           (DropRaw a \<longrightarrow> snd (expanded (a_Matcher a) (hd buf) (outFmt a)))
        then Ok (DropRaw a, a\<lparr>reCache := c, a_in := a_in a @ [\<lparr>msg_buf = buf, msg_val = val, msg_ts = ts\<rparr>]\<rparr>)
        else Ok (False, a\<lparr>reCache := c\<rparr>))"
proof (cases "PreMatch (a_Matcher a) (hd buf) \<and> DropRaw a")
  case True
  obtain c where c: "matchWithCache (hd buf) now a =
      Ok (expanded (a_Matcher a) (hd buf) (outFmt a), a\<lparr>reCache := c\<rparr>)"
      "cache_ok (a\<lparr>reCache := c\<rparr>)"
    using matchWithCache_ok assms by (metis agg_inv_def)
  show thesis
    by (rule that [OF c(2)]) (use True c in \<open>auto simp: AddMaybe_def split: prod.splits\<close>)
next
  case False
  have "a\<lparr>reCache := reCache a\<rparr> = a" by simp
  then show thesis
    using that [of "reCache a"] assms False by (auto simp: AddMaybe_def agg_inv_def)
qed

lemma flush_inv:
  assumes "agg_inv a"
  obtains a' where "agg_Flush cutoff a = Ok a'" "agg_inv a'" "config a' = config a" "a_in a' = a_in a"
    "map_of (aggregations a') = map_of (aggregations a) |` (- set (due cutoff a))"
    "a_out a' = a_out a @ concat (map (bucket_lines a) (due cutoff a))" "a_running a' = a_running a"
proof -
  obtain a' where a': "agg_Flush cutoff a = Ok a'"
    "map_of (aggregations a') = map_of (aggregations a) |` (- set (due cutoff a))"
    "agg_wf a'"
    "a_out a' = a_out a @ concat (map (bucket_lines a) (due cutoff a))"
    "Wait a' = Wait a" "Interval a' = Interval a" "procConstr a' = procConstr a"
    "a_Matcher a' = a_Matcher a" "outFmt a' = outFmt a" "reCache a' = reCache a" "a_in a' = a_in a"
    "a_running a' = a_running a" "DropRaw a' = DropRaw a"
    using agg_Flush_ok assms by (metis agg_inv_def)
  then have "agg_inv a'"
    using assms by (auto simp: agg_inv_def keys_wf_def cache_ok_def restrict_map_def)
  then show thesis using a' by (intro that [of a']) (auto simp: config_def)
qed

lemma handle_tick_ok:
  assumes "agg_inv a"
  obtains a' where "handle_tick now order a = Ok a'" "agg_inv a'" "config a' = config a" "a_in a' = a_in a"
    "map_of (aggregations a') = map_of (aggregations a) |` (- set (due (unix_uint (now - uint (Wait a))) a))"
    "a_out a' = a_out a @ concat (map (bucket_lines a) (due (unix_uint (now - uint (Wait a))) a))"
    "a_running a' = a_running a"
proof -
  obtain a1 where a1: "agg_Flush (unix_uint (now - uint (Wait a))) a = Ok a1" "agg_inv a1"
    "config a1 = config a" "a_in a1 = a_in a"
    "map_of (aggregations a1) = map_of (aggregations a) |` (- set (due (unix_uint (now - uint (Wait a))) a))"
    "a_out a1 = a_out a @ concat (map (bucket_lines a) (due (unix_uint (now - uint (Wait a))) a))"
    "a_running a1 = a_running a"
    using flush_inv [OF assms] by blast
  show thesis
  proof (cases "reCache a1")
    case None
    then show ?thesis using that [of a1] a1 by (simp add: handle_tick_def)
  next
    case (Some cache)
    let ?c = "Some (clean_cache order (word_of_int (now - 100 * uint (Wait a1))) cache)"
    have "cache_ok (a1\<lparr>reCache := ?c\<rparr>)"
      using a1(2) Some by (auto simp: agg_inv_def cache_ok_def dest: clean_cache_le)
    then show ?thesis
      using that [of "a1\<lparr>reCache := ?c\<rparr>"] a1 Some agg_inv_cache [OF a1(2), of ?c]
      by (simp add: handle_tick_def)
  qed
qed

lemma agg_step_inv:
  assumes "agg_inv a"
  obtains a' where "agg_step e a = Ok a'" "agg_inv a'" "config a' = config a"
proof (cases e)
  case (Msg now)
  show ?thesis
  proof (cases "a_in a = [] \<or> \<not> a_running a")
    case True
    then show ?thesis using that [of a] assms Msg by (auto split: list.splits)
  next
    case False
    then obtain m rest where m: "a_in a = m # rest" by (cases "a_in a") auto
    let ?a = "a\<lparr>a_in := rest\<rparr>"
    have inv: "agg_inv ?a" using assms by simp
    obtain a' where a': "handle_msg m now ?a = Ok a'" "agg_inv a'" "config a' = config a"
      using handle_msg_keeps [OF inv, of m now] by auto
    have "agg_step e a = Ok a'" using m Msg False a'(1) by simp
    then show ?thesis using that a' by blast
  qed
next
  case (Tick now order)
  show ?thesis
  proof (cases "a_running a")
    case True
    obtain a' where "handle_tick now order a = Ok a'" "agg_inv a'" "config a' = config a"
      using handle_tick_ok [OF assms, of now order] .
    then show ?thesis using that [of a'] True Tick by simp
  qed (use that [of a] assms Tick in simp)
next
  case (Shutdown now)
  show ?thesis
  proof (cases "a_running a")
    case True
    obtain a' where "agg_Flush (unix_uint (now - uint (Wait a))) a = Ok a'" "agg_inv a'" "config a' = config a"
      using flush_inv [OF assms, of "unix_uint (now - uint (Wait a))"] .
    then show ?thesis using that [of "a'\<lparr>a_running := False\<rparr>"] True Shutdown by simp
  qed (use that [of a] assms Shutdown in simp)
next
  case (AddCall buf val ts now)
  obtain c where c: "cache_ok (a\<lparr>reCache := c\<rparr>)"
    "AddMaybe buf val ts now a =
       (if PreMatch (a_Matcher a) (hd buf) \<and>
           (DropRaw a \<longrightarrow> snd (expanded (a_Matcher a) (hd buf) (outFmt a)))
        then Ok (DropRaw a, a\<lparr>reCache := c, a_in := a_in a @ [\<lparr>msg_buf = buf, msg_val = val, msg_ts = ts\<rparr>]\<rparr>)
        else Ok (False, a\<lparr>reCache := c\<rparr>))"
    using AddMaybe_ok [OF assms, of buf val ts now] .
  have i: "agg_inv (a\<lparr>reCache := c\<rparr>)" using assms c(1) by (rule agg_inv_cache)
  have "\<exists>b a'. AddMaybe buf val ts now a = Ok (b, a') \<and> agg_inv a' \<and> config a' = config a"
    unfolding c(2) using i by (auto intro: exI [of _ False])
  then obtain b a' where a': "AddMaybe buf val ts now a = Ok (b, a')" "agg_inv a'" "config a' = config a"
    by blast
  then show ?thesis using that [of a'] AddCall by simp
qed (use that assms in auto)

lemma agg_run_inv:
  assumes "agg_inv a"
  obtains a' where "agg_run es a = Ok a'" "agg_inv a'" "config a' = config a"
  using assms
proof (induction es arbitrary: a thesis)
  case (Cons e es)
  obtain a1 where "agg_step e a = Ok a1" "agg_inv a1" "config a1 = config a"
    using agg_step_inv [OF Cons(3)] .
  then show ?case using Cons.IH [of a1] Cons(2) by auto
qed auto

lemma NewMocked_inv:
  assumes "NewMocked f m fmt cache interval wait dropRaw = Inr a" "iregex m \<noteq> None" "interval \<noteq> 0"
  shows "agg_inv a" "GetProcessorConstructor f = Inr (procConstr a)"
    "config a = (procConstr a, m, fmt, interval, wait, dropRaw)" "aggregations a = []" "tsList a = []"
    "a_in a = []" "a_out a = []" "a_running a"
  using assms
  by (auto simp: NewMocked_def agg_inv_def agg_wf_def keys_wf_def cache_ok_def config_def split: sum.splits if_splits)

subsection \<open>The contents of the buckets\<close>

text \<open>The points that the calls of a history contribute to a bucket and key, by the specification:
  those that pass the quick test and the expression and are quantized to the bucket.\<close>

definition point_of :: "Matcher \<Rightarrow> bytes \<Rightarrow> uint64 \<Rightarrow> uint64 \<Rightarrow> bytes \<Rightarrow> agg_event \<Rightarrow> (real \<times> uint32) list" where
  "point_of m fmt interval q k e =
     (case e of
        AddCall buf val ts now \<Rightarrow>
          if PreMatch m (hd buf) \<and> expanded m (hd buf) fmt = (k, True) \<and> quantize interval ts = q
          then [(val, ts)] else []
      | _ \<Rightarrow> [])"

definition points :: "Matcher \<Rightarrow> bytes \<Rightarrow> uint64 \<Rightarrow> uint64 \<Rightarrow> bytes \<Rightarrow> agg_event list \<Rightarrow> (real \<times> uint32) list" where
  "points m fmt interval q k es = concat (map (point_of m fmt interval q k) es)"

definition msg_points :: "Matcher \<Rightarrow> bytes \<Rightarrow> uint64 \<Rightarrow> uint64 \<Rightarrow> bytes \<Rightarrow> msg list \<Rightarrow> (real \<times> uint32) list" where
  "msg_points m fmt interval q k ms =
     concat (map (\<lambda>g. if expanded m (hd (msg_buf g)) fmt = (k, True) \<and> quantize interval (msg_ts g) = q
                      then [(msg_val g, msg_ts g)] else []) ms)"

definition no_flush :: "agg_event list \<Rightarrow> bool" where
  "no_flush es \<longleftrightarrow> (\<forall>e \<in> set es. case e of Tick _ _ \<Rightarrow> False | Shutdown _ \<Rightarrow> False | _ \<Rightarrow> True)"

definition all_on_time :: "uint64 \<Rightarrow> uint64 \<Rightarrow> agg_event list \<Rightarrow> bool" where
  "all_on_time interval wait es \<longleftrightarrow>
     (\<forall>e \<in> set es. \<forall>e' \<in> set es. case (e, e') of
        (Msg now, AddCall buf val ts t) \<Rightarrow> quantize interval ts > unix_uint now - wait
      | _ \<Rightarrow> True)"

lemma agg_run_snoc:
  "agg_run (es @ [e]) a = (case agg_run es a of Panic p \<Rightarrow> Panic p | Ok a' \<Rightarrow> agg_step e a')"
  by (induction es arbitrary: a) (auto split: outcome.splits)

definition holds :: "(real \<Rightarrow> uint32 \<Rightarrow> Processor) \<Rightarrow> (real \<times> uint32) list \<Rightarrow> Processor option" where
  "holds constr ps = (if ps = [] then None else Some (process constr ps))"

text \<open>Between the calls and the buckets: what is already in the buckets, and what still waits in
  the channel.\<close>

definition accounts :: "Aggregator \<Rightarrow> agg_event list \<Rightarrow> bool" where
  "accounts a es \<longleftrightarrow>
     (\<exists>H. \<forall>q k. lookup a q k = holds (procConstr a) (H q k) \<and>
        points (a_Matcher a) (outFmt a) (Interval a) q k es =
          H q k @ msg_points (a_Matcher a) (outFmt a) (Interval a) q k (a_in a)) \<and>
     (\<forall>g \<in> set (a_in a). \<exists>buf val t. AddCall buf val (msg_ts g) t \<in> set es) \<and> a_running a \<and> a_out a = []"

lemma points_simps [simp]:
  "points m fmt i q k [] = []" "points m fmt i q k (es @ [e]) = points m fmt i q k es @ point_of m fmt i q k e"
  "msg_points m fmt i q k [] = []"
  "msg_points m fmt i q k (gs @ hs) = msg_points m fmt i q k gs @ msg_points m fmt i q k hs"
  by (simp_all add: points_def msg_points_def)

lemma holds_snoc:
  "holds c (H @ [(v, ts)]) = Some (case holds c H of None \<Rightarrow> c v ts | Some p \<Rightarrow> Add v ts p)"
  by (simp add: holds_def process_snoc)

lemma accounts_msg:
  assumes inv: "agg_inv a" and acc: "accounts a es" and "a_in a = g # rest"
    and on_time: "\<And>buf val t. AddCall buf val (msg_ts g) t \<in> set es \<Longrightarrow>
      quantize (Interval a) (msg_ts g) > unix_uint now - Wait a"
    and run: "handle_msg g now (a\<lparr>a_in := rest\<rparr>) = Ok a'"
  shows "accounts a' es"
proof -
  let ?m = "a_Matcher a" and ?f = "outFmt a" and ?i = "Interval a" and ?a = "a\<lparr>a_in := rest\<rparr>"
  obtain H where H: "\<And>q k. lookup a q k = holds (procConstr a) (H q k)"
    "\<And>q k. points ?m ?f ?i q k es = H q k @ msg_points ?m ?f ?i q k (g # rest)"
    using acc assms(3) unfolding accounts_def by metis
  obtain buf val t where g: "AddCall buf val (msg_ts g) t \<in> set es"
    using acc assms(3) by (auto simp: accounts_def)
  have i: "agg_inv ?a" using inv by simp
  obtain c where c: "handle_msg g now ?a =
       Ok (if snd (expanded (a_Matcher ?a) (hd (msg_buf g)) (outFmt ?a))
           then AddOrCreate (fst (expanded (a_Matcher ?a) (hd (msg_buf g)) (outFmt ?a))) (msg_ts g)
                  (quantize (Interval ?a) (msg_ts g)) (msg_val g) now (?a\<lparr>reCache := c, numIn := numIn ?a + 1\<rparr>)
           else ?a\<lparr>reCache := c\<rparr>)"
    by (rule handle_msg_ok [OF i, of g now], rule that, assumption)
  have lk [simp]: "lookup (a\<lparr>a_in := rest, reCache := c, numIn := n\<rparr>) q k = lookup a q k"
    "lookup (a\<lparr>a_in := rest, reCache := c\<rparr>) q k = lookup a q k" for n q k
    by (simp_all add: lookup_def)
  define G where "G q k = H q k @ msg_points ?m ?f ?i q k [g]" for q k
  have a': "a' = (if snd (expanded ?m (hd (msg_buf g)) ?f)
       then AddOrCreate (fst (expanded ?m (hd (msg_buf g)) ?f)) (msg_ts g) (quantize ?i (msg_ts g)) (msg_val g)
              now (?a\<lparr>reCache := c, numIn := numIn a + 1\<rparr>)
       else ?a\<lparr>reCache := c\<rparr>)"
    using run c by (auto split: if_splits)
  have look: "lookup a' q k = holds (procConstr a) (G q k)" for q k
    unfolding a' G_def
    using on_time [OF g]
    by (cases "expanded ?m (hd (msg_buf g)) ?f")
      (auto simp: lookup_AddOrCreate H(1) msg_points_def holds_snoc split: option.splits)
  have pts: "points ?m ?f ?i q k es = G q k @ msg_points ?m ?f ?i q k rest" for q k
    using H(2) [of q k] by (simp add: G_def msg_points_def)
  have same: "procConstr a' = procConstr a" "a_Matcher a' = ?m" "outFmt a' = ?f" "Interval a' = ?i"
    "a_in a' = rest" "a_running a' = a_running a" "a_out a' = a_out a"
    unfolding a' by simp_all
  show ?thesis
    using look pts acc assms(3) unfolding accounts_def same by auto
qed

lemma accounts_add:
  assumes inv: "agg_inv a" and acc: "accounts a es"
    and run: "AddMaybe buf val ts now a = Ok (b, a')"
  shows "accounts a' (es @ [AddCall buf val ts now])"
proof -
  let ?m = "a_Matcher a" and ?f = "outFmt a" and ?i = "Interval a"
  let ?g = "\<lparr>msg_buf = buf, msg_val = val, msg_ts = ts\<rparr>"
  obtain H where H: "\<And>q k. lookup a q k = holds (procConstr a) (H q k)"
    "\<And>q k. points ?m ?f ?i q k es = H q k @ msg_points ?m ?f ?i q k (a_in a)"
    using acc unfolding accounts_def by metis
  obtain c where c: "AddMaybe buf val ts now a =
       (if PreMatch ?m (hd buf) \<and> (DropRaw a \<longrightarrow> snd (expanded ?m (hd buf) ?f))
        then Ok (DropRaw a, a\<lparr>reCache := c, a_in := a_in a @ [?g]\<rparr>)
        else Ok (False, a\<lparr>reCache := c\<rparr>))"
    using AddMaybe_ok [OF inv, of buf val ts now] by metis
  let ?ms = "if PreMatch ?m (hd buf) \<and> (DropRaw a \<longrightarrow> snd (expanded ?m (hd buf) ?f)) then [?g] else []"
  have a': "a' = a\<lparr>reCache := c, a_in := a_in a @ ?ms\<rparr>"
    using run c by (auto split: if_splits)
  have pts: "point_of ?m ?f ?i q k (AddCall buf val ts now) = msg_points ?m ?f ?i q k ?ms" for q k
    by (auto simp: point_of_def msg_points_def)
  have look: "lookup a' q k = lookup a q k" for q k by (simp add: a' lookup_def)
  have same: "procConstr a' = procConstr a" "a_Matcher a' = ?m" "outFmt a' = ?f" "Interval a' = ?i"
    "a_in a' = a_in a @ ?ms" "a_running a' = a_running a" "a_out a' = a_out a"
    unfolding a' by simp_all
  have "\<forall>q k. lookup a' q k = holds (procConstr a') (H q k) \<and>
      points ?m ?f ?i q k (es @ [AddCall buf val ts now]) = H q k @ msg_points ?m ?f ?i q k (a_in a @ ?ms)"
    using H pts look same(1) by simp
  moreover have "\<forall>g \<in> set (a_in a @ ?ms). \<exists>b v t. AddCall b v (msg_ts g) t \<in> set (es @ [AddCall buf val ts now])"
    using acc by (fastforce simp: accounts_def)
  ultimately show ?thesis
    using acc unfolding accounts_def same by blast
qed

lemma accounts_same:
  "accounts a es \<Longrightarrow> (\<And>q k. point_of (a_Matcher a) (outFmt a) (Interval a) q k e = []) \<Longrightarrow>
     accounts a (es @ [e])"
  unfolding accounts_def by (simp) blast

lemma accounts_run:
  assumes "agg_inv a0" "accounts a0 []" "a_in a0 = []" "no_flush es" "all_on_time (Interval a0) (Wait a0) es"
  shows "\<exists>a. agg_run es a0 = Ok a \<and> agg_inv a \<and> config a = config a0 \<and> accounts a es"
  using assms(4,5)
proof (induction es rule: rev_induct)
  case Nil
  then show ?case using assms by simp
next
  case (snoc e es)
  have "no_flush es" "all_on_time (Interval a0) (Wait a0) es"
    using snoc(2,3) by (auto simp: no_flush_def all_on_time_def)
  then obtain a where a: "agg_run es a0 = Ok a" "agg_inv a" "config a = config a0" "accounts a es"
    using snoc(1) by blast
  obtain a' where a': "agg_step e a = Ok a'" "agg_inv a'" "config a' = config a"
    using agg_step_inv [OF a(2)] .
  have "accounts a' (es @ [e])"
  proof (cases e)
    case (Msg now)
    show ?thesis
    proof (cases "a_in a")
      case Nil
      then show ?thesis using a(4) a'(1) Msg by (auto intro!: accounts_same simp: point_of_def)
    next
      case (Cons g rest)
      have "handle_msg g now (a\<lparr>a_in := rest\<rparr>) = Ok a'"
        using a'(1) Msg Cons a(4) by (simp add: accounts_def)
      moreover have "quantize (Interval a) (msg_ts g) > unix_uint now - Wait a"
        if "AddCall buf val (msg_ts g) t \<in> set es" for buf val t
        using snoc(3) that Msg a(3) by (fastforce simp: all_on_time_def config_def)
      ultimately have "accounts a' es" using accounts_msg [OF a(2,4) Cons] by blast
      then show ?thesis using Msg by (intro accounts_same) (auto simp: point_of_def)
    qed
  next
    case (AddCall buf val ts now)
    then obtain b where "AddMaybe buf val ts now a = Ok (b, a')"
      using a'(1) by (auto split: outcome.splits prod.splits)
    then show ?thesis using accounts_add [OF a(2,4)] AddCall by simp
  next
    case SnapReq
    then show ?thesis using a(4) a'(1) by (auto intro!: accounts_same simp: point_of_def)
  qed (use snoc(2) in \<open>simp_all add: no_flush_def\<close>)
  then show ?case using a a' by (auto simp: agg_run_snoc)
qed

subsection \<open>What is flushed, and when\<close>

definition due_keys :: "uint64 \<Rightarrow> Aggregator \<Rightarrow> (uint64 \<times> bytes) list" where
  "due_keys cutoff a = concat (map (\<lambda>ts. map (\<lambda>(k, p). (ts, k)) (bucket a ts)) (due cutoff a))"

text \<open>The buckets and keys that a history flushes, in order.\<close>

fun emitted :: "agg_event list \<Rightarrow> Aggregator \<Rightarrow> (uint64 \<times> bytes) list" where
  "emitted [] a = []"
| "emitted (e # es) a =
     (case e of
        Tick now order \<Rightarrow> if a_running a then due_keys (unix_uint (now - uint (Wait a))) a else []
      | Shutdown now \<Rightarrow> if a_running a then due_keys (unix_uint (now - uint (Wait a))) a else []
      | _ \<Rightarrow> []) @
     (case agg_step e a of Panic p \<Rightarrow> [] | Ok a' \<Rightarrow> emitted es a')"

fun clock_of :: "agg_event \<Rightarrow> int list" where
  "clock_of (Msg now) = [now]"
| "clock_of (Tick now order) = [now]"
| "clock_of (Shutdown now) = [now]"
| "clock_of _ = []"

definition clock_ok :: "uint64 \<Rightarrow> int \<Rightarrow> agg_event list \<Rightarrow> bool" where
  "clock_ok wait t es \<longleftrightarrow> sorted (t # concat (map clock_of es)) \<and>
     (\<forall>now \<in> set (concat (map clock_of es)). uint wait \<le> now \<and> now < 2 ^ 64)"

lemma clock_ok_Cons: "clock_ok w t (e # es) \<Longrightarrow> clock_ok w t es"
  by (auto simp: clock_ok_def sorted_append)

lemma clock_ok_later:
  "clock_ok w t (e # es) \<Longrightarrow> clock_of e = [now] \<Longrightarrow>
     clock_ok w now es \<and> t \<le> now \<and> uint w \<le> now \<and> now < 2 ^ 64"
  by (auto simp: clock_ok_def)

lemma uint_cutoff:
  "uint w \<le> now \<Longrightarrow> now < 2 ^ 64 \<Longrightarrow> uint (unix_uint (now - uint w)) = now - uint w"
  unfolding unix_uint_def uint_word_of_int
  by (rule mod_pos_pos_trivial, simp, rule le_less_trans [of _ now]) simp_all

lemma unix_uint_diff: "unix_uint now - w = unix_uint (now - uint w)"
  by (simp add: unix_uint_def)

lemma bucket_lookup:
  "keys_wf a \<Longrightarrow> (k, p) \<in> set (bucket a q) \<longleftrightarrow> lookup a q k = Some p"
  by (auto simp: bucket_def lookup_def keys_wf_def split: option.splits)

lemma takeWhile_le_filter:
  "sorted xs \<Longrightarrow> takeWhile (\<lambda>t. t \<le> c) xs = filter (\<lambda>t. t \<le> c) xs"
  by (induction xs) (auto intro!: filter_False [symmetric] dest: order_trans)

lemma in_due_keys:
  assumes "agg_wf a" "keys_wf a"
  shows "(q, k) \<in> set (due_keys cutoff a) \<longleftrightarrow> q \<le> cutoff \<and> lookup a q k \<noteq> None"
proof -
  have "(q, k) \<in> set (due_keys cutoff a) \<longleftrightarrow> q \<in> set (due cutoff a) \<and> lookup a q k \<noteq> None"
    using bucket_lookup [OF assms(2)] by (force simp: due_keys_def)
  moreover have "q \<in> set (due cutoff a) \<longleftrightarrow> q \<in> set (tsList a) \<and> q \<le> cutoff"
    using assms(1) by (auto simp: due_def agg_wf_def strict_sorted_iff takeWhile_le_filter)
  moreover have "lookup a q k \<noteq> None \<Longrightarrow> q \<in> set (tsList a)"
    using assms(1) by (auto simp: agg_wf_def lookup_def split: option.splits dest: map_of_SomeD intro: rev_image_eqI)
  ultimately show ?thesis by blast
qed

lemma distinct_concat_Pair:
  "distinct ts \<Longrightarrow> (\<And>t. distinct (map (\<lambda>(k, p). (t, k)) (f t))) \<Longrightarrow>
     distinct (concat (map (\<lambda>t. map (\<lambda>(k, p). (t, k)) (f t)) ts))"
  by (induction ts) auto

lemma distinct_due_keys:
  assumes "agg_wf a" "keys_wf a" shows "distinct (due_keys cutoff a)"
proof -
  have "distinct (map fst (bucket a ts))" for ts
    using assms(2) by (auto simp: bucket_def keys_wf_def split: option.splits)
  then have "distinct (map (Pair ts) (map fst (bucket a ts)))" for ts :: uint64
    unfolding distinct_map [of "Pair ts"] by (simp add: inj_on_def)
  then have "distinct (map (\<lambda>(k, p). (ts, k)) (bucket a ts))" for ts :: uint64
    by (simp add: comp_def case_prod_unfold)
  moreover have "distinct (due cutoff a)"
    using assms(1) unfolding due_def agg_wf_def strict_sorted_iff by (auto intro: distinct_takeWhile)
  ultimately show ?thesis unfolding due_keys_def by (intro distinct_concat_Pair)
qed

lemma due_keys_uint:
  "unix_uint (now - uint w) = c \<Longrightarrow> uint w \<le> now \<Longrightarrow> now < 2 ^ 64 \<Longrightarrow> q \<le> c \<longleftrightarrow> uint q \<le> now - uint w"
  using uint_cutoff [of w now] by (simp add: word_le_def)

lemma AddCall_tables:
  assumes "agg_inv a" "AddMaybe buf val ts now a = Ok (b, a')"
  shows "aggregations a' = aggregations a" "a_running a' = a_running a"
proof -
  obtain c where "AddMaybe buf val ts now a =
       (if PreMatch (a_Matcher a) (hd buf) \<and>
           (DropRaw a \<longrightarrow> snd (expanded (a_Matcher a) (hd buf) (outFmt a)))
        then Ok (DropRaw a, a\<lparr>reCache := c, a_in := a_in a @ [\<lparr>msg_buf = buf, msg_val = val, msg_ts = ts\<rparr>]\<rparr>)
        else Ok (False, a\<lparr>reCache := c\<rparr>))"
    using AddMaybe_ok [OF assms(1), of buf val ts now] by metis
  then show "aggregations a' = aggregations a" "a_running a' = a_running a"
    using assms(2) by (auto split: if_splits)
qed

lemma lookup_handle_msg:
  assumes "agg_inv a" "handle_msg g now a = Ok a'" "lookup a' q k \<noteq> None"
  shows "lookup a q k \<noteq> None \<or> q > unix_uint now - Wait a"
proof -
  obtain c where c: "handle_msg g now a =
       Ok (if snd (expanded (a_Matcher a) (hd (msg_buf g)) (outFmt a))
           then AddOrCreate (fst (expanded (a_Matcher a) (hd (msg_buf g)) (outFmt a))) (msg_ts g)
                  (quantize (Interval a) (msg_ts g)) (msg_val g) now (a\<lparr>reCache := c, numIn := numIn a + 1\<rparr>)
           else a\<lparr>reCache := c\<rparr>)"
    by (rule handle_msg_ok [OF assms(1), of g now], rule that, assumption)
  have lk: "lookup (a\<lparr>reCache := c, numIn := n\<rparr>) q k = lookup a q k"
    "lookup (a\<lparr>reCache := c\<rparr>) q k = lookup a q k" for n q k
    by (simp_all add: lookup_def)
  show ?thesis
    using assms(2,3) c by (auto simp: lookup_AddOrCreate lk split: if_splits option.splits)
qed

lemma lookup_after_flush:
  assumes "agg_wf a" "map_of (aggregations a') = map_of (aggregations a) |` (- set (due cutoff a))"
    "lookup a' q k = Some p"
  shows "lookup a q k = Some p \<and> cutoff < q"
proof -
  have "q \<notin> set (due cutoff a)" "lookup a q k = Some p"
    using assms(2,3) by (auto simp: lookup_def restrict_map_def split: if_splits)
  moreover have "q \<in> set (tsList a)"
    using calculation(2) assms(1)
    by (auto simp: agg_wf_def lookup_def split: option.splits dest: map_of_SomeD intro: rev_image_eqI)
  ultimately show ?thesis
    using assms(1) by (auto simp: due_def agg_wf_def strict_sorted_iff takeWhile_le_filter)
qed

text \<open>A step, seen from the buckets: either it flushes at a cut-off, or it emits nothing and creates
  only buckets that the clock of the step still allows.\<close>

lemma step_cases:
  assumes "agg_inv a" "agg_step e a = Ok a'"
  obtains (flush) now where "clock_of e = [now]"
      "emitted (e # es) a = due_keys (unix_uint (now - uint (Wait a))) a @ emitted es a'"
      "map_of (aggregations a') = map_of (aggregations a) |` (- set (due (unix_uint (now - uint (Wait a))) a))"
  | (quiet) "emitted (e # es) a = emitted es a'"
      "\<And>q k. lookup a' q k \<noteq> None \<Longrightarrow> lookup a q k \<noteq> None \<or>
         (\<exists>now. clock_of e = [now] \<and> q > unix_uint now - Wait a)"
proof (cases "\<exists>now order. (e = Tick now order \<or> e = Shutdown now) \<and> a_running a")
  case True
  then obtain now order where e: "e = Tick now order \<or> e = Shutdown now" "a_running a" by blast
  obtain b where b: "handle_tick now order a = Ok b"
    "map_of (aggregations b) = map_of (aggregations a) |` (- set (due (unix_uint (now - uint (Wait a))) a))"
    using handle_tick_ok [OF assms(1)] by metis
  obtain d where d: "agg_Flush (unix_uint (now - uint (Wait a))) a = Ok d"
    "map_of (aggregations d) = map_of (aggregations a) |` (- set (due (unix_uint (now - uint (Wait a))) a))"
    using flush_inv [OF assms(1)] by metis
  show ?thesis using flush [of now] e b d assms(2) by auto
next
  case False
  show ?thesis
  proof (cases e)
    case (Msg now)
    have "lookup a q k \<noteq> None \<or> q > unix_uint now - Wait a" if "lookup a' q k \<noteq> None" for q k
    proof (cases "a_running a \<and> a_in a \<noteq> []")
      case True
      then obtain g rest where "a_in a = g # rest" by (cases "a_in a") auto
      then have "handle_msg g now (a\<lparr>a_in := rest\<rparr>) = Ok a'" using True assms(2) Msg by simp
      then show ?thesis
        using lookup_handle_msg [of "a\<lparr>a_in := rest\<rparr>" g now a' q k] assms(1) that by (simp add: lookup_def)
    next
      case False
      then show ?thesis using assms(2) Msg that by (auto split: list.splits)
    qed
    then show ?thesis using quiet Msg assms(2) by (simp del: agg_step.simps)
  next
    case (AddCall buf val ts now)
    then obtain b where "AddMaybe buf val ts now a = Ok (b, a')"
      using assms(2) by (auto split: outcome.splits prod.splits)
    from AddCall_tables [OF assms(1) this] show ?thesis
      using quiet AddCall assms(2) by (simp add: lookup_def del: agg_step.simps)
  qed (use False quiet assms(2) in auto)
qed

lemma emitted_once:
  assumes "agg_inv a" "clock_ok (Wait a) t es"
    "c \<le> t - uint (Wait a)" "\<And>q k. lookup a q k \<noteq> None \<Longrightarrow> c < uint q"
  shows "distinct (emitted es a) \<and> (\<forall>(q, k) \<in> set (emitted es a). c < uint q)"
  using assms
proof (induction es arbitrary: a t c)
  case Nil
  then show ?case by simp
next
  case (Cons e es)
  obtain a' where a': "agg_step e a = Ok a'" "agg_inv a'" "config a' = config a"
    using agg_step_inv [OF Cons(2)] .
  then have W: "Wait a' = Wait a" by (simp add: config_def)
  have wf: "agg_wf a" "keys_wf a" using Cons(2) by (simp_all add: agg_inv_def)
  show ?case using Cons(2) a'(1)
  proof (cases rule: step_cases [where es = es])
    case (flush now)
    let ?c = "now - uint (Wait a)"
    have now: "clock_ok (Wait a) now es" "t \<le> now" "uint (Wait a) \<le> now" "now < 2 ^ 64"
      using clock_ok_later [OF Cons(3) flush(1)] by auto
    have cut: "q \<le> unix_uint ?c \<longleftrightarrow> uint q \<le> ?c" for q
      using due_keys_uint [OF refl now(3,4)] .
    have new: "?c < uint q" if "lookup a' q k \<noteq> None" for q k
      using lookup_after_flush [OF wf(1) flush(3)] that cut by (metis not_less option.exhaust)
    have rest: "distinct (emitted es a') \<and> (\<forall>(q, k) \<in> set (emitted es a'). ?c < uint q)"
      using Cons.IH [OF a'(2), of now ?c] now(1) new by (simp add: W)
    have here: "c < uint q \<and> uint q \<le> ?c" if "(q, k) \<in> set (due_keys (unix_uint ?c) a)" for q k
      using that in_due_keys [OF wf, of q k "unix_uint ?c"] Cons(5) cut by blast
    have "c \<le> ?c" using Cons(4) now(2) by simp
    then show ?thesis
      unfolding flush(2) using rest here distinct_due_keys [OF wf, of "unix_uint ?c"]
      by (fastforce simp: disjoint_iff)
  next
    case quiet
    have "c < uint q" if look: "lookup a' q k \<noteq> None" for q k
    proof (cases "lookup a q k \<noteq> None")
      case False
      then obtain now where now: "clock_of e = [now]" "q > unix_uint now - Wait a"
        using quiet(2) [OF look] by blast
      have "t \<le> now" "uint (Wait a) \<le> now" "now < 2 ^ 64"
        using clock_ok_later [OF Cons(3) now(1)] by auto
      then have "now - uint (Wait a) < uint q"
        using now(2) due_keys_uint [OF refl, of "Wait a" now q] by (auto simp: unix_uint_diff not_le [symmetric])
      then show ?thesis using Cons(4) \<open>t \<le> now\<close> by simp
    qed (use Cons(5) in blast)
    moreover have "clock_ok (Wait a') t es" using clock_ok_Cons [OF Cons(3)] W by simp
    ultimately show ?thesis using Cons.IH [OF a'(2), of t c] Cons(4) quiet(1) W by simp
  qed
qed

subsection \<open>Properties\<close>

lemma in_concat_bucket_lines:
  assumes "agg_wf a" "keys_wf a"
  shows "line \<in> set (concat (map (bucket_lines a) (due cutoff a))) \<longleftrightarrow>
    (\<exists>q k p. q \<le> cutoff \<and> lookup a q k = Some p \<and> line \<in> set (result_lines q k p))"
proof -
  have "line \<in> set (concat (map (bucket_lines a) (due cutoff a))) \<longleftrightarrow>
      (\<exists>q k p. q \<in> set (due cutoff a) \<and> (k, p) \<in> set (bucket a q) \<and> line \<in> set (result_lines q k p))"
    by (auto simp: bucket_lines_def)
  also have "\<dots> \<longleftrightarrow> (\<exists>q k p. q \<le> cutoff \<and> lookup a q k = Some p \<and> line \<in> set (result_lines q k p))"
  proof -
    have "q \<in> set (due cutoff a) \<longleftrightarrow> q \<in> set (tsList a) \<and> q \<le> cutoff" for q
      using assms(1) by (auto simp: due_def agg_wf_def strict_sorted_iff takeWhile_le_filter)
    moreover have "lookup a q k = Some p \<Longrightarrow> q \<in> set (tsList a)" for q k p
      using assms(1) by (auto simp: agg_wf_def lookup_def split: option.splits dest: map_of_SomeD intro: rev_image_eqI)
    ultimately show ?thesis using bucket_lookup [OF assms(2)] by metis
  qed
  finally show ?thesis .
qed

text \<open>C10: an aggregator with a regular expression and a non-zero interval never panics, whatever the
  order of messages, ticks, snapshots and shutdown; its list of timestamps stays sorted and agrees
  with its buckets, and the cache never changes the outcome of a match.\<close>

theorem aggregator_runs_and_cache_is_transparent:
  assumes "NewMocked f m fmt cache interval wait dropRaw = Inr a0"
    and "iregex m \<noteq> None" and "interval \<noteq> 0"
  shows "\<exists>a. agg_run es a0 = Ok a \<and> agg_wf a \<and>
    (\<forall>key now. \<exists>a'. matchWithCache key now a = Ok (expanded m key fmt, a'))"
proof -
  obtain a where a: "agg_run es a0 = Ok a" "agg_inv a" "config a = config a0"
    using agg_run_inv [OF NewMocked_inv(1) [OF assms]] .
  then have m: "a_Matcher a = m" "outFmt a = fmt"
    using NewMocked_inv(3) [OF assms] by (simp_all add: config_def)
  have "\<exists>a'. matchWithCache key now a = Ok (expanded m key fmt, a')" for key now
    using matchWithCache_ok [of a key now] a(2) unfolding m agg_inv_def by metis
  then show ?thesis using a by (auto simp: agg_inv_def)
qed

definition example_matcher :: Matcher where
  "example_matcher = fst (matcher_New ''foo'' [] [] [] ''^foo[.](.+)[.]'' [])"

lemma example_matcher_facts:
  "iregex example_matcher \<noteq> None"
  "PreMatch example_matcher ''foo.a.b''" "PreMatch example_matcher ''foo.a.c''"
  "MatchRegexAndExpand example_matcher ''foo.a.b'' ''out.$1'' = Ok (''out.a'', True)"
  "MatchRegexAndExpand example_matcher ''foo.a.c'' ''out.$1'' = Ok (''out.a'', True)"
  by code_simp+

lemma example_NewMocked: "\<exists>a0. NewMocked ''sum'' m fmt True 10 5 dr = Inr a0"
  by (simp add: NewMocked_def GetProcessorConstructor_def)

theorem aggregator_runs_and_cache_is_transparent_witness:
  "\<exists>a0 a. NewMocked ''sum'' example_matcher ''out.$1'' True 10 5 False = Inr a0 \<and>
    agg_run [AddCall [''foo.a.b'', ''3'', ''1002''] 3 1002 1003, Msg 1003, Tick 1020 [''foo.a.b'']] a0 = Ok a \<and> agg_wf a \<and>
    (\<exists>a'. matchWithCache ''foo.a.c'' 1021 a = Ok ((''out.a'', True), a'))"
proof -
  obtain a0 where "NewMocked ''sum'' example_matcher ''out.$1'' True 10 5 False = Inr a0"
    using example_NewMocked by blast
  moreover have "expanded example_matcher ''foo.a.c'' ''out.$1'' = (''out.a'', True)"
    by (simp add: expanded_def example_matcher_facts)
  moreover have "(10 :: uint64) \<noteq> 0" by simp
  ultimately show ?thesis
    using aggregator_runs_and_cache_is_transparent [OF _ example_matcher_facts(1), of "''sum''" "''out.$1''" True 10 5 False a0
        "[AddCall [''foo.a.b'', ''3'', ''1002''] 3 1002 1003, Msg 1003, Tick 1020 [''foo.a.b'']]"]
    by metis
qed


abbreviation example_events :: "agg_event list" where
  "example_events \<equiv> [AddCall [''foo.a.b'', ''3'', ''1002''] 3 1002 1003, AddCall [''foo.a.c'', ''4'', ''1009''] 4 1009 1003,
     Msg 1004, Msg 1004]"

lemma example_run:
  assumes "NewMocked ''sum'' example_matcher ''out.$1'' True 10 5 False = Inr a0"
  shows "\<exists>a. agg_run example_events a0 = Ok a \<and> a_in a = []"
  using assms example_matcher_facts
  by (auto simp: NewMocked_def GetProcessorConstructor_def AddMaybe_def handle_msg_def matchWithCache_def)


text \<open>C9: as long as the clock does not run backwards, no bucket is flushed twice for the same output
  key: once a bucket is flushed it is never created again.\<close>

theorem no_bucket_is_flushed_twice:
  assumes "NewMocked f m fmt cache interval wait dropRaw = Inr a0"
    and "iregex m \<noteq> None" and "interval \<noteq> 0" and "clock_ok wait t es"
  shows "distinct (emitted es a0)"
proof -
  note new = NewMocked_inv [OF assms(1-3)]
  have "Wait a0 = wait" using new(3) by (simp add: config_def)
  moreover have "lookup a0 q k = None" for q k using new(4) by (simp add: lookup_def)
  ultimately show ?thesis
    using emitted_once [OF new(1), of t es "t - uint wait"] assms(4) by auto
qed

theorem no_bucket_is_flushed_twice_witness:
  "\<exists>a0. NewMocked ''sum'' example_matcher ''out.$1'' True 10 5 False = Inr a0 \<and>
    distinct (emitted (example_events @ [Tick 1020 [], AddCall [''foo.a.b'', ''3'', ''1002''] 3 1002 1021, Msg 1021, Tick 1030 []]) a0)"
proof -
  obtain a0 where a0: "NewMocked ''sum'' example_matcher ''out.$1'' True 10 5 False = Inr a0"
    using example_NewMocked by blast
  have "clock_ok 5 1000 (example_events @ [Tick 1020 [], AddCall [''foo.a.b'', ''3'', ''1002''] 3 1002 1021, Msg 1021, Tick 1030 []])"
    by (simp add: clock_ok_def)
  with no_bucket_is_flushed_twice [OF a0 example_matcher_facts(1), of 1000] a0 show ?thesis by fastforce
qed

text \<open>an aggregator whose matcher has no regular expression, which the configuration accepts,
  panics on the first metric that passes its other conditions.\<close>

theorem aggregator_without_regex_panics:
  assumes "NewMocked f m fmt cache interval wait dropRaw = Inr a0"
    and "iregex m = None" and "PreMatch m (hd buf)"
  shows "agg_run [AddCall buf val ts now, Msg now'] a0 = Panic NilDereference"
  using assms
  by (auto simp: NewMocked_def AddMaybe_def handle_msg_def matchWithCache_def MatchRegexAndExpand_def split: sum.splits)

theorem aggregator_without_regex_panics_witness:
  "\<exists>a0. NewMocked ''sum'' (fst (matcher_New ''foo'' [] [] [] [] [])) ''out'' True 10 5 False = Inr a0 \<and>
    agg_run [AddCall [''foo.a'', ''1'', ''2''] 1 2 3, Msg 3] a0 = Panic NilDereference"
proof -
  have "iregex (fst (matcher_New ''foo'' [] [] [] [] [])) = None"
    "PreMatch (fst (matcher_New ''foo'' [] [] [] [] [])) (hd [''foo.a'', ''1'', ''2''])"
    by code_simp+
  then show ?thesis
    using aggregator_without_regex_panics example_NewMocked by metis
qed

text \<open>a tick is aligned: the time slept is positive and at most one period, and it ends a whole
  number of periods after the offset.\<close>

theorem ticks_are_aligned:
  assumes "0 < period" and "offset \<le> unix"
  shows "\<exists>d. AlignedTick_diff period offset unix = Ok d \<and> 0 < d \<and> d \<le> period \<and>
    (unix + d - offset) mod period = 0"
proof -
  define x where "x = unix - offset"
  have x: "0 \<le> x" "unix + (period - x mod period) - offset = x - x mod period + period"
    using assms(2) by (simp_all add: x_def)
  have d: "sgn x * (\<bar>x\<bar> mod \<bar>period\<bar>) = x mod period"
    using x assms(1) by (cases "x = 0") auto
  have "AlignedTick_diff period offset unix = Ok (period - x mod period)"
    using assms(1) d by (simp add: AlignedTick_diff_def x_def)
  moreover have "(unix + (period - x mod period) - offset) mod period = 0"
    unfolding x(2) by (simp add: minus_mod_eq_mult_div)
  ultimately show ?thesis
    using pos_mod_bound [OF assms(1), of x] pos_mod_sign [OF assms(1), of x] by auto
qed

theorem ticks_are_aligned_witness:
  "AlignedTick_diff 10 3 127 = Ok 6 \<and> (127 + 6 - 3) mod 10 = (0 :: int)"
  using ticks_are_aligned [of 10 3 127] by (auto simp: AlignedTick_diff_def)

end
