(* ===== verification/Relay_Validate.thy ===== *)
theory Relay_Validate
  imports Go_Hash
begin

text \<open>
  \<^verbatim>\<open>validate/\<close>: the order check on incoming points and the parsing of the validation levels.
  The state of \<open>ordered.go\<close> is the map \<open>m\<close> from the 64-bit FNV-1a hash of a key to the newest
  timestamp accepted for it; a hash not in the map reads as 0, as a missing key does in Go.
  The levels are those of the third-party package go-metrics20; their \<open>String\<close> method is not
  under \<open>src/\<close>, so the JSON printing is left out.
\<close>

type_synonym order_state = "uint64 \<rightharpoonup> uint32"

datatype validate_error = errNotNewer

definition Ordered :: "bytes \<Rightarrow> uint32 \<Rightarrow> order_state \<Rightarrow> order_state \<times> validate_error option" where
  "Ordered key ts m =
     (let k = fnv64a key;
          tsOld = (case m k of None \<Rightarrow> 0 | Some t \<Rightarrow> t)
      in if ts > tsOld then (m(k \<mapsto> ts), None) else (m, Some errNotNewer))"

text \<open>A stream of points checked one after the other; the result lists the accepted ones.\<close>

fun ordered_run :: "(bytes \<times> uint32) list \<Rightarrow> order_state \<Rightarrow> order_state \<times> (bytes \<times> uint32) list" where
  "ordered_run [] m = (m, [])"
| "ordered_run ((key, ts) # ps) m =
     (case Ordered key ts m of
        (m', None) \<Rightarrow> (case ordered_run ps m' of (m'', acc) \<Rightarrow> (m'', (key, ts) # acc))
      | (m', Some _) \<Rightarrow> ordered_run ps m')"

datatype level_legacy = StrictLegacy | MediumLegacy | NoneLegacy
datatype level_m20 = MediumM20 | NoneM20

definition UnmarshalText_Legacy :: "bytes \<Rightarrow> level_legacy option" where
  "UnmarshalText_Legacy text = map_of
     [(''strict'', StrictLegacy), (''medium'', MediumLegacy), (''none'', NoneLegacy)] text"

definition UnmarshalText_M20 :: "bytes \<Rightarrow> level_m20 option" where
  "UnmarshalText_M20 text = map_of [(''medium'', MediumM20), (''none'', NoneM20)] text"

subsection \<open>Lemmas\<close>

definition newest :: "order_state \<Rightarrow> bytes \<Rightarrow> uint32" where
  "newest m key = (case m (fnv64a key) of None \<Rightarrow> 0 | Some t \<Rightarrow> t)"

lemma Ordered_accepts: "snd (Ordered key ts m) = None \<longleftrightarrow> newest m key < ts"
  by (auto simp: Ordered_def newest_def Let_def)

lemma Ordered_newest:
  "newest (fst (Ordered key ts m)) key' =
     (if fnv64a key' = fnv64a key then max ts (newest m key) else newest m key')"
  by (auto simp: Ordered_def newest_def Let_def max_def)

lemma newest_cong: "fnv64a key' = fnv64a key \<Longrightarrow> newest m key' = newest m key"
  by (simp add: newest_def)

abbreviation points_of :: "bytes \<Rightarrow> (bytes \<times> uint32) list \<Rightarrow> uint32 list" where
  "points_of key ps \<equiv> map snd (filter (\<lambda>p. fnv64a (fst p) = fnv64a key) ps)"

lemma ordered_run_newer:
  "sorted_wrt (<) (newest m key # points_of key (snd (ordered_run ps m)))"
proof (induction ps m rule: ordered_run.induct)
  case (1 m)
  then show ?case by simp
next
  case (2 k ts ps m)
  show ?case
  proof (cases "snd (Ordered k ts m)")
    case None
    then obtain m' where m': "Ordered k ts m = (m', None)" by (cases "Ordered k ts m") auto
    have IH: "sorted_wrt (<) (newest m' key # points_of key (snd (ordered_run ps m')))"
      using 2(1) m' by auto
    have new: "newest m k < ts" using Ordered_accepts [of k ts m] None by simp
    have m'new: "newest m' key = (if fnv64a key = fnv64a k then ts else newest m key)"
      using Ordered_newest [of k ts m key] new m' by (auto simp: max_def dest: leD)
    show ?thesis
      using IH m' new newest_cong [of key k m] unfolding m'new
      by (auto split: prod.splits if_splits intro: order.strict_trans)
  next
    case (Some e)
    then obtain m' where m': "Ordered k ts m = (m', Some e)" by (cases "Ordered k ts m") auto
    then have "m' = m" by (auto simp: Ordered_def Let_def split: if_splits)
    then show ?thesis using 2(2) m' by simp
  qed
qed

subsection \<open>Properties\<close>


end
