(* ===== verification/Relay_BadMetrics.thy ===== *)
theory Relay_BadMetrics
  imports Prelude
begin

text \<open>
  \<^verbatim>\<open>badmetrics/badMetrics.go\<close>: the registry of invalid metrics. Its goroutine \<open>manage\<close> owns the map
  \<open>seen\<close> and serves three channels, so its behaviour is that of a sequence of events: a record
  that comes in, a cleaning tick, a request. Times are in nanoseconds. The iteration order of
  Go's maps, which is random, is the order of the association list; \<open>Get\<close> sorts by the metric,
  a key of the map, so that its result does not depend on it.
\<close>

record BadRecord =
  Metric :: bytes
  LastMsg :: bytes
  LastErr :: bytes
  LastSeen :: int

record BadMetrics =
  maxAge :: int
  seen :: "(bytes \<times> BadRecord) list"

datatype bad_event = In BadRecord | Clean int

definition New_BadMetrics :: "int \<Rightarrow> BadMetrics" where
  "New_BadMetrics age = \<lparr>maxAge = age, seen = []\<rparr>"

definition Add_record :: "bytes \<Rightarrow> bytes \<Rightarrow> bytes \<Rightarrow> int \<Rightarrow> bad_event" where
  "Add_record metric msg err now = In \<lparr>Metric = metric, LastMsg = msg, LastErr = err, LastSeen = now\<rparr>"

definition manage :: "bad_event \<Rightarrow> BadMetrics \<Rightarrow> BadMetrics" where
  "manage e b =
     (case e of
        In r \<Rightarrow> b\<lparr>seen := AList.update (Metric r) r (seen b)\<rparr>
      | Clean now \<Rightarrow>
          let cutoff = now - maxAge b
          in b\<lparr>seen := filter (\<lambda>(m, r). \<not> LastSeen r < cutoff) (seen b)\<rparr>)"

definition answer :: "int \<Rightarrow> BadMetrics \<Rightarrow> BadRecord list" where
  "answer oldest b = filter (\<lambda>r. LastSeen r > oldest) (map snd (seen b))"

definition Get :: "int \<Rightarrow> int \<Rightarrow> BadMetrics \<Rightarrow> BadRecord list" where
  "Get now expiry b = sort_key Metric (answer (now - expiry) b)"

definition bad_run :: "int \<Rightarrow> bad_event list \<Rightarrow> BadMetrics" where
  "bad_run age evs = fold manage evs (New_BadMetrics age)"

subsection \<open>The specification: the latest record of every metric\<close>

fun records_of :: "bytes \<Rightarrow> bad_event list \<Rightarrow> BadRecord list" where
  "records_of m [] = []"
| "records_of m (In r # es) = (if Metric r = m then [r] else []) @ records_of m es"
| "records_of m (Clean _ # es) = records_of m es"

definition latest :: "bytes \<Rightarrow> bad_event list \<Rightarrow> BadRecord option" where
  "latest m es = (if records_of m es = [] then None else Some (last (records_of m es)))"

lemma records_of_append [simp]: "records_of m (xs @ ys) = records_of m xs @ records_of m ys"
  by (induction m xs rule: records_of.induct) auto

lemma latest_simps [simp]:
  "latest m [] = None"
  "latest m (es @ [In r]) = (if Metric r = m then Some r else latest m es)"
  "latest m (es @ [Clean t]) = latest m es"
  by (auto simp: latest_def)

lemma bad_run_simps [simp]:
  "bad_run age [] = New_BadMetrics age"
  "bad_run age (es @ [e]) = manage e (bad_run age es)"
  by (simp_all add: bad_run_def)

lemma bad_run_maxAge [simp]: "maxAge (bad_run age es) = age"
  by (induction es rule: rev_induct) (auto simp: New_BadMetrics_def manage_def Let_def split: bad_event.splits)

lemma map_of_filter_alist:
  "distinct (map fst xs) \<Longrightarrow>
     map_of (filter (\<lambda>(k, v). P v) xs) k =
       (case map_of xs k of Some v \<Rightarrow> if P v then Some v else None | None \<Rightarrow> None)"
  by (induction xs) (auto split: option.splits simp: map_of_eq_None_iff image_iff dest: map_of_SomeD)

lemma distinct_filter_fst: "distinct (map fst xs) \<Longrightarrow> distinct (map fst (filter Q xs))"
  by (induction xs) auto

lemma seen_distinct: "distinct (map fst (seen (bad_run age es)))"
  by (induction es rule: rev_induct)
    (auto simp: New_BadMetrics_def manage_def Let_def distinct_update distinct_filter_fst split: bad_event.splits)

lemma seen_latest:
  "map_of (seen (bad_run age es)) m = Some r \<Longrightarrow> latest m es = Some r \<and> Metric r = m"
proof (induction es arbitrary: r rule: rev_induct)
  case Nil
  then show ?case by (simp add: New_BadMetrics_def)
next
  case (snoc e es)
  show ?case
  proof (cases e)
    case (In q)
    then show ?thesis using snoc by (auto simp: manage_def update_conv split: if_splits)
  next
    case (Clean t)
    then show ?thesis
      using snoc by (auto simp: manage_def map_of_filter_alist seen_distinct split: option.splits if_splits)
  qed
qed

lemma latest_seen:
  "latest m es = Some r \<Longrightarrow> (\<And>t. Clean t \<in> set es \<Longrightarrow> t \<le> now) \<Longrightarrow> now - age \<le> LastSeen r \<Longrightarrow>
     map_of (seen (bad_run age es)) m = Some r"
proof (induction es arbitrary: r rule: rev_induct)
  case Nil
  then show ?case by simp
next
  case (snoc e es)
  show ?case
  proof (cases e)
    case (In q)
    then show ?thesis using snoc by (auto simp: manage_def update_conv split: if_splits)
  next
    case (Clean t)
    then have "map_of (seen (bad_run age es)) m = Some r" using snoc by auto
    moreover have "t \<le> now" using snoc(3) [of t] Clean by simp
    ultimately show ?thesis
      using snoc(4) Clean by (auto simp: manage_def map_of_filter_alist seen_distinct)
  qed
qed

lemma answer_Metric_inj:
  "distinct (map Metric (answer oldest (bad_run age es)))"
proof -
  have "(k, r) \<in> set (seen (bad_run age es)) \<Longrightarrow> Metric r = k" for k r
    using seen_latest seen_distinct by (metis map_of_eq_Some_iff)
  then have "map Metric (map snd (seen (bad_run age es))) = map fst (seen (bad_run age es))"
    by (auto intro: map_cong)
  then show ?thesis
    using seen_distinct [of age es] unfolding answer_def by (metis distinct_map_filter)
qed

subsection \<open>Properties\<close>

text \<open>as long as the clock does not run backwards and the query does not look further back than
  the maximum age, a query returns exactly the latest record of each metric that is more recent
  than the queried window, one per metric, sorted by metric; cleaning is not observable.\<close>

theorem get_returns_latest_in_window:
  assumes "\<forall>t. Clean t \<in> set es \<longrightarrow> t \<le> now" and "expiry \<le> age"
  shows "set (Get now expiry (bad_run age es)) =
           {r. latest (Metric r) es = Some r \<and> now - expiry < LastSeen r} \<and>
         sorted (map Metric (Get now expiry (bad_run age es))) \<and>
         distinct (map Metric (Get now expiry (bad_run age es)))"
proof (intro conjI set_eqI iffI)
  fix r assume "r \<in> set (Get now expiry (bad_run age es))"
  then obtain k where "(k, r) \<in> set (seen (bad_run age es))" and win: "now - expiry < LastSeen r"
    by (auto simp: Get_def answer_def)
  then have "map_of (seen (bad_run age es)) k = Some r" by (simp add: seen_distinct)
  with win show "r \<in> {r. latest (Metric r) es = Some r \<and> now - expiry < LastSeen r}"
    using seen_latest by fastforce
next
  fix r assume r: "r \<in> {r. latest (Metric r) es = Some r \<and> now - expiry < LastSeen r}"
  then have "map_of (seen (bad_run age es)) (Metric r) = Some r"
    using latest_seen [of "Metric r" es r now age] assms by auto
  with r show "r \<in> set (Get now expiry (bad_run age es))"
    by (force simp: Get_def answer_def dest: map_of_SomeD)
next
  show "distinct (map Metric (Get now expiry (bad_run age es)))"
    using answer_Metric_inj [of "now - expiry" age es]
    by (metis Get_def distinct_map distinct_sort set_sort)
qed (simp add: Get_def)

theorem get_returns_latest_in_window_witness:
  "set (Get 100 50 (bad_run 60 [Add_record ''a'' ''a b'' ''e1'' 60, Clean 65, Add_record ''a'' ''a c'' ''e2'' 70,
      Add_record ''b'' ''b'' ''e1'' 40])) =
   {r. latest (Metric r) [Add_record ''a'' ''a b'' ''e1'' 60, Clean 65, Add_record ''a'' ''a c'' ''e2'' 70,
      Add_record ''b'' ''b'' ''e1'' 40] = Some r \<and> 50 < LastSeen r} \<and>
   Get 100 50 (bad_run 60 [Add_record ''a'' ''a b'' ''e1'' 60, Clean 65, Add_record ''a'' ''a c'' ''e2'' 70,
      Add_record ''b'' ''b'' ''e1'' 40]) =
     [\<lparr>Metric = ''a'', LastMsg = ''a c'', LastErr = ''e2'', LastSeen = 70\<rparr>]"
proof
  let ?es = "[Add_record ''a'' ''a b'' ''e1'' 60, Clean 65, Add_record ''a'' ''a c'' ''e2'' 70,
      Add_record ''b'' ''b'' ''e1'' 40]"
  have "\<forall>t. Clean t \<in> set ?es \<longrightarrow> t \<le> 100" by (simp add: Add_record_def)
  from get_returns_latest_in_window [OF this, of 50 60]
  show "set (Get 100 50 (bad_run 60 ?es)) = {r. latest (Metric r) ?es = Some r \<and> 50 < LastSeen r}"
    by simp
  show "Get 100 50 (bad_run 60 ?es) =
     [\<lparr>Metric = ''a'', LastMsg = ''a c'', LastErr = ''e2'', LastSeen = 70\<rparr>]"
    by code_simp
qed

end
