(* ===== verification/Nsqd_DiskQueue.thy ===== *)
theory Nsqd_DiskQueue
  imports Go_Strconv
begin

text \<open>
  \<^verbatim>\<open>nsqd/diskqueue.go\<close>: the queue on disk behind a destination's spool. Messages are appended to
  numbered data files, each as a 4-byte big-endian length and the body; a file that grows beyond
  \<open>maxBytesPerFile\<close> is closed and the next one begun; the positions and the depth are kept in a
  metadata file.

  \<^item> The file system is part of the state: the data files by number (\<open>fileName\<close> is injective), the
    files renamed to \<open>.bad\<close>, the metadata file and its temporary. The open handles and the read
    buffer are left out: a handle is always positioned at the recorded position.
  \<^item> Failures of the operating system are arguments: the number of bytes of a record that reach the
    file before a write fails, and whether a sync succeeds. Reading fails when the file is missing
    or too short, as the code finds out.
  \<^item> The loop \<open>ioLoop\<close> is cut at its \<open>select\<close>: \<open>loop_top\<close> is what precedes it, with the \<open>continue\<close>
    after a read error as a flag, and \<open>select_case\<close> one equation per case.
\<close>

record DiskQueue =
  readPos :: int
  writePos :: int
  readFileNum :: int
  writeFileNum :: int
  depth :: int
  maxBytesPerFile :: int
  syncEvery :: int
  exitFlag :: bool
  needSync :: bool
  nextReadPos :: int
  nextReadFileNum :: int
  loopCount :: int
  dataRead :: bytes
  readReady :: bool
  files :: "int \<rightharpoonup> bytes"
  badFiles :: "int \<rightharpoonup> bytes"
  metaFile :: "bytes option"
  metaTmp :: "bytes option"
  exited :: bool

datatype dq_error = ErrExiting | ErrNotExist | ErrEOF | ErrUnexpectedEOF | ErrWrite | ErrSync | ErrScan

definition dq_fileName :: "bytes \<Rightarrow> nat \<Rightarrow> bytes" where
  "dq_fileName name fileNum = name @ ''.diskqueue.'' @ pad_left 6 CHR ''0'' (format_nat fileNum) @ ''.dat''"

subsection \<open>Framing\<close>

definition be32 :: "int \<Rightarrow> bytes" where
  "be32 n = map (\<lambda>k. char_of (n div k mod 256)) [16777216, 65536, 256, 1]"

definition be_val :: "bytes \<Rightarrow> int" where
  "be_val s = foldl (\<lambda>acc c. 256 * acc + of_char c) 0 s"

text \<open>The conversion to a signed 32-bit integer, which wraps.\<close>

definition int32 :: "int \<Rightarrow> int" where
  "int32 i = (i + 2147483648) mod 4294967296 - 2147483648"

definition frame :: "bytes \<Rightarrow> bytes" where
  "frame data = be32 (int32 (int (length data)) mod 4294967296) @ data"

text \<open>Writing at an offset of a file that is opened without truncation.\<close>

definition write_at :: "nat \<Rightarrow> bytes \<Rightarrow> bytes \<Rightarrow> bytes" where
  "write_at p s c = take p c @ replicate (p - length c) CHR 0x00 @ s @ drop (p + length s) c"

subsection \<open>Metadata\<close>

definition format_meta :: "DiskQueue \<Rightarrow> bytes" where
  "format_meta d = format_int (depth d) @ [CHR 0x0A] @
     format_int (readFileNum d) @ '','' @ format_int (readPos d) @ [CHR 0x0A] @
     format_int (writeFileNum d) @ '','' @ format_int (writePos d) @ [CHR 0x0A]"

text \<open>One \<open>%d\<close> and the character that must follow it.\<close>

definition scan_d :: "bytes \<Rightarrow> (int \<times> bytes) option" where
  "scan_d s0 =
     (let s = dropWhile (\<lambda>c. c = CHR '' '' \<or> c = CHR 0x09) s0;
          neg = (s \<noteq> [] \<and> hd s = CHR ''-'');
          u = (if s \<noteq> [] \<and> (hd s = CHR ''-'' \<or> hd s = CHR ''+'') then tl s else s);
          ds = takeWhile is_digit u;
          v = (if neg then - int (digits_val ds) else int (digits_val ds))
      in if ds = [] \<or> v < - (2 ^ 63) \<or> 2 ^ 63 \<le> v then None else Some (v, dropWhile is_digit u))"

definition scan_char :: "char \<Rightarrow> bytes \<Rightarrow> bytes option" where
  "scan_char c s = (if s \<noteq> [] \<and> hd s = c then Some (tl s) else None)"

text \<open>The scan assigns as it goes: a failure leaves the fields read so far changed. Its state is the
  rest of the input, the local variable \<open>depth\<close> with the queue, and whether it has failed.\<close>

type_synonym scan_state = "bytes \<times> (int \<times> DiskQueue) \<times> bool"

definition scan_field :: "(int \<Rightarrow> int \<times> DiskQueue \<Rightarrow> int \<times> DiskQueue) \<Rightarrow> char \<Rightarrow> scan_state \<Rightarrow> scan_state" where
  "scan_field put c st =
     (case st of (s, x, ok) \<Rightarrow>
        if \<not> ok then st
        else (case scan_d s of
                None \<Rightarrow> (s, x, False)
              | Some vs \<Rightarrow>
                  (case scan_char c (snd vs) of
                     None \<Rightarrow> (snd vs, put (fst vs) x, False)
                   | Some s2 \<Rightarrow> (s2, put (fst vs) x, True))))"

definition scan_meta :: "bytes \<Rightarrow> DiskQueue \<Rightarrow> DiskQueue \<times> dq_error option" where
  "scan_meta s d0 =
     (let st1 = scan_field (\<lambda>v (dep, d). (v, d)) CHR 0x0A (s, (0, d0), True);
          st2 = scan_field (\<lambda>v (dep, d). (dep, d\<lparr>readFileNum := v\<rparr>)) CHR '','' st1;
          st3 = scan_field (\<lambda>v (dep, d). (dep, d\<lparr>readPos := v\<rparr>)) CHR 0x0A st2;
          st4 = scan_field (\<lambda>v (dep, d). (dep, d\<lparr>writeFileNum := v\<rparr>)) CHR '','' st3;
          st5 = scan_field (\<lambda>v (dep, d). (dep, d\<lparr>writePos := v\<rparr>)) CHR 0x0A st4
      in case st5 of (_, (dep, d), ok) \<Rightarrow>
           if ok then (d\<lparr>depth := dep, nextReadFileNum := readFileNum d, nextReadPos := readPos d\<rparr>, None)
           else (d, Some ErrScan))"

definition retrieveMetaData :: "DiskQueue \<Rightarrow> DiskQueue \<times> dq_error option" where
  "retrieveMetaData d =
     (case metaFile d of None \<Rightarrow> (d, Some ErrNotExist) | Some s \<Rightarrow> scan_meta s d)"

definition persistMetaData :: "bool \<Rightarrow> DiskQueue \<Rightarrow> DiskQueue \<times> dq_error option" where
  "persistMetaData ok d =
     (if \<not> ok then (d, Some ErrSync)
      else let tmp = (case metaTmp d of None \<Rightarrow> [] | Some s \<Rightarrow> s)
           in (d\<lparr>metaFile := Some (write_at 0 (format_meta d) tmp), metaTmp := None\<rparr>, None))"

definition sync :: "bool \<Rightarrow> DiskQueue \<Rightarrow> DiskQueue \<times> dq_error option" where
  "sync ok d =
     (case persistMetaData ok d of
        (d', Some err) \<Rightarrow> (d', Some err)
      | (d', None) \<Rightarrow> (d'\<lparr>needSync := False\<rparr>, None))"

subsection \<open>Construction\<close>

definition NewDiskQueue ::
  "int \<Rightarrow> int \<Rightarrow> (int \<rightharpoonup> bytes) \<Rightarrow> (int \<rightharpoonup> bytes) \<Rightarrow> bytes option \<Rightarrow> bytes option \<Rightarrow> DiskQueue" where
  "NewDiskQueue maxBytes syncEv fs bad mf tmp =
     fst (retrieveMetaData
       \<lparr>readPos = 0, writePos = 0, readFileNum = 0, writeFileNum = 0, depth = 0,
        maxBytesPerFile = maxBytes, syncEvery = syncEv, exitFlag = False, needSync = False,
        nextReadPos = 0, nextReadFileNum = 0, loopCount = 0, dataRead = [], readReady = False,
        files = fs, badFiles = bad, metaFile = mf, metaTmp = tmp, exited = False\<rparr>)"

subsection \<open>Reading and writing one message\<close>

definition readOne :: "DiskQueue \<Rightarrow> (DiskQueue \<times> (dq_error + bytes)) outcome" where
  "readOne d =
     (case files d (readFileNum d) of
        None \<Rightarrow> Ok (d, Inl ErrNotExist)
      | Some c \<Rightarrow>
          let s = drop (nat (readPos d)) c in
          if s = [] then Ok (d, Inl ErrEOF)
          else if length s < 4 then Ok (d, Inl ErrUnexpectedEOF)
          else
            let msgSize = int32 (be_val (take 4 s)) in
            if msgSize < 0 then Panic (ExplicitPanic ''makeslice: len out of range'')
            else
              let readBuf = take (nat msgSize) (drop 4 s) in
              if length readBuf < nat msgSize
              then Ok (d, Inl (if readBuf = [] then ErrEOF else ErrUnexpectedEOF))
              else
                let totalBytes = int32 (4 + msgSize);
                    d1 = d\<lparr>nextReadPos := readPos d + totalBytes, nextReadFileNum := readFileNum d\<rparr>;
                    d2 = (if nextReadPos d1 > maxBytesPerFile d1
                          then d1\<lparr>nextReadFileNum := nextReadFileNum d1 + 1, nextReadPos := 0\<rparr>
                          else d1)
                in Ok (d2, Inr readBuf))"

definition writeOne :: "nat option \<Rightarrow> bool \<Rightarrow> bytes \<Rightarrow> DiskQueue \<Rightarrow> DiskQueue \<times> dq_error option" where
  "writeOne fault sync_ok data d =
     (let c = (case files d (writeFileNum d) of None \<Rightarrow> [] | Some c \<Rightarrow> c);
          buf = frame data
      in case fault of
           Some n \<Rightarrow>
             (d\<lparr>files := (files d)(writeFileNum d \<mapsto> write_at (nat (writePos d)) (take n buf) c)\<rparr>, Some ErrWrite)
         | None \<Rightarrow>
             let totalBytes = 4 + int (length data);
                 d1 = d\<lparr>files := (files d)(writeFileNum d \<mapsto> write_at (nat (writePos d)) buf c),
                        writePos := writePos d + totalBytes, depth := depth d + 1\<rparr>
             in if writePos d1 > maxBytesPerFile d1
                then sync sync_ok (d1\<lparr>writeFileNum := writeFileNum d1 + 1, writePos := 0\<rparr>)
                else (d1, None))"

subsection \<open>Skipping, corruption and moving on\<close>

text \<open>The loop that removes the files from the read to the write position.\<close>

definition remove_files :: "int \<Rightarrow> int \<Rightarrow> (int \<rightharpoonup> bytes) \<Rightarrow> (int \<rightharpoonup> bytes)" where
  "remove_files lo hi fs = (\<lambda>i. if lo \<le> i \<and> i \<le> hi then None else fs i)"

definition skipToNextRWFile :: "DiskQueue \<Rightarrow> DiskQueue" where
  "skipToNextRWFile d =
     (let w = writeFileNum d + 1
      in d\<lparr>files := remove_files (readFileNum d) (writeFileNum d) (files d),
           writeFileNum := w, writePos := 0, readFileNum := w, readPos := 0,
           nextReadFileNum := w, nextReadPos := 0, depth := 0\<rparr>)"

definition deleteAllFiles :: "DiskQueue \<Rightarrow> DiskQueue \<times> dq_error option" where
  "deleteAllFiles d = ((skipToNextRWFile d)\<lparr>metaFile := None\<rparr>, None)"

definition checkTailCorruption :: "int \<Rightarrow> DiskQueue \<Rightarrow> DiskQueue" where
  "checkTailCorruption dep d =
     (if readFileNum d < writeFileNum d \<or> readPos d < writePos d then d
      else
        let d1 = (if dep \<noteq> 0 then d\<lparr>depth := 0, needSync := True\<rparr> else d)
        in if readFileNum d1 \<noteq> writeFileNum d1 \<or> readPos d1 \<noteq> writePos d1
           then (skipToNextRWFile d1)\<lparr>needSync := True\<rparr>
           else d1)"

definition moveForward :: "DiskQueue \<Rightarrow> DiskQueue" where
  "moveForward d =
     (let oldReadFileNum = readFileNum d;
          d1 = d\<lparr>readFileNum := nextReadFileNum d, readPos := nextReadPos d, depth := depth d - 1\<rparr>;
          d2 = (if oldReadFileNum \<noteq> nextReadFileNum d1
                then d1\<lparr>needSync := True, files := (files d1)(oldReadFileNum := None)\<rparr>
                else d1)
      in checkTailCorruption (depth d1) d2)"

definition handleReadError :: "DiskQueue \<Rightarrow> DiskQueue" where
  "handleReadError d =
     (let d1 = (if readFileNum d = writeFileNum d
                then d\<lparr>writeFileNum := writeFileNum d + 1, writePos := 0\<rparr> else d);
          d2 = (case files d1 (readFileNum d1) of
                  None \<Rightarrow> d1
                | Some c \<Rightarrow> d1\<lparr>files := (files d1)(readFileNum d1 := None),
                              badFiles := (badFiles d1)(readFileNum d1 \<mapsto> c)\<rparr>)
      in d2\<lparr>readFileNum := readFileNum d2 + 1, readPos := 0,
            nextReadFileNum := readFileNum d2 + 1, nextReadPos := 0, needSync := True\<rparr>)"

subsection \<open>The loop\<close>

definition has_data :: "DiskQueue \<Rightarrow> bool" where
  "has_data d \<longleftrightarrow> readFileNum d < writeFileNum d \<or> readPos d < writePos d"

definition loop_top :: "bool \<Rightarrow> DiskQueue \<Rightarrow> (DiskQueue \<times> bool) outcome" where
  "loop_top sync_ok d0 =
     (let d1 = d0\<lparr>loopCount := loopCount d0 + 1\<rparr>;
          d2 = (if loopCount d1 = syncEvery d1 then d1\<lparr>loopCount := 0, needSync := True\<rparr> else d1);
          d3 = (if needSync d2 then fst (sync sync_ok d2) else d2)
      in if has_data d3
         then if nextReadPos d3 = readPos d3
              then (case readOne d3 of
                      Panic p \<Rightarrow> Panic p
                    | Ok (d4, Inl err) \<Rightarrow> Ok (handleReadError d4, True)
                    | Ok (d4, Inr data) \<Rightarrow> Ok (d4\<lparr>dataRead := data, readReady := True\<rparr>, False))
              else Ok (d3\<lparr>readReady := True\<rparr>, False)
         else Ok (d3\<lparr>readReady := False\<rparr>, False))"

datatype dq_event = Deliver | EmptyReq | WriteReq bytes "nat option" | SyncTick | ExitReq

datatype dq_reply = NoReply | Delivered bytes | Replied "dq_error option"

fun select_case :: "bool \<Rightarrow> dq_event \<Rightarrow> DiskQueue \<Rightarrow> DiskQueue \<times> dq_reply" where
  "select_case sync_ok Deliver d =
     (if readReady d then (moveForward d, Delivered (dataRead d)) else (d, NoReply))"
| "select_case sync_ok EmptyReq d = (case deleteAllFiles d of (d', err) \<Rightarrow> (d', Replied err))"
| "select_case sync_ok (WriteReq data fault) d =
     (case writeOne fault sync_ok data d of (d', err) \<Rightarrow> (d', Replied err))"
| "select_case sync_ok SyncTick d = (d\<lparr>needSync := True\<rparr>, NoReply)"
| "select_case sync_ok ExitReq d = (d\<lparr>exited := True\<rparr>, NoReply)"

text \<open>Iterations until the \<open>select\<close> is reached, at most \<open>n\<close>, and then one of its cases.\<close>

fun loop_tops :: "nat \<Rightarrow> bool \<Rightarrow> DiskQueue \<Rightarrow> DiskQueue option outcome" where
  "loop_tops 0 sync_ok d = Ok None"
| "loop_tops (Suc n) sync_ok d =
     (case loop_top sync_ok d of
        Panic p \<Rightarrow> Panic p
      | Ok (d', True) \<Rightarrow> loop_tops n sync_ok d'
      | Ok (d', False) \<Rightarrow> Ok (Some d'))"

text \<open>One turn of the loop: what precedes the \<open>select\<close>, then one of its cases unless a read error
  made the loop start again.\<close>

definition dq_step :: "bool \<times> dq_event \<Rightarrow> DiskQueue \<Rightarrow> (DiskQueue \<times> dq_reply) outcome" where
  "dq_step e d =
     (case loop_top (fst e) d of
        Panic p \<Rightarrow> Panic p
      | Ok (d', again) \<Rightarrow> if again then Ok (d', NoReply) else Ok (select_case (fst e) (snd e) d'))"

definition Put :: "bytes \<Rightarrow> nat option \<Rightarrow> bool \<Rightarrow> DiskQueue \<Rightarrow> DiskQueue \<times> dq_error option" where
  "Put data fault sync_ok d =
     (if exitFlag d then (d, Some ErrExiting) else writeOne fault sync_ok data d)"

definition EmptyQueue :: "DiskQueue \<Rightarrow> DiskQueue \<times> dq_error option" where
  "EmptyQueue d = (if exitFlag d then (d, Some ErrExiting) else deleteAllFiles d)"

definition exit_queue :: "DiskQueue \<Rightarrow> DiskQueue" where
  "exit_queue d = d\<lparr>exitFlag := True, exited := True\<rparr>"

definition Close :: "bool \<Rightarrow> DiskQueue \<Rightarrow> DiskQueue \<times> dq_error option" where
  "Close sync_ok d = sync sync_ok (exit_queue d)"

end
