(* ===== verification/Dest_Conn.thy ===== *)
theory Dest_Conn
  imports Nsqd_DiskQueue Go_Strconv
begin

text \<open>
  The connection of a destination: \<^verbatim>\<open>destination/bufwriter.go\<close> (\<open>Writer\<close>), \<^verbatim>\<open>destination/keepsafe.go\<close>,
  \<^verbatim>\<open>destination/conn.go\<close>, \<^verbatim>\<open>destination/metric.go\<close> and \<^verbatim>\<open>destination/pickle.go\<close>.

  \<^item> The TCP connection below the writer is scripted: each write takes the next entry, how many
    bytes it accepts at most and whether it reports an error; when the script is used up, writes
    succeed. What was accepted is \<open>wr_sent\<close>.
  \<^item> The pickle encoder is a third-party package: the encoding of a data point is a parameter.
  \<^item> \<open>HandleData\<close>, \<open>checkEOF\<close> and \<open>keepClean\<close> are goroutines over the channels of the
    connection; their turns are the events of \<open>conn_step\<close>. Timers and gauges are left out.
\<close>

datatype conn_error = ErrNet | ErrShortWrite | ErrTruncated

subsection \<open>The buffered writer\<close>

record Sock =
  wr_sent :: bytes
  wr_script :: "(nat \<times> bool) list"

definition sock_Write :: "bytes \<Rightarrow> Sock \<Rightarrow> Sock \<times> nat \<times> conn_error option" where
  "sock_Write p s =
     (case wr_script s of
        [] \<Rightarrow> (s\<lparr>wr_sent := wr_sent s @ p\<rparr>, length p, None)
      | (k, fail) # rest \<Rightarrow>
          let n = min k (length p)
          in (s\<lparr>wr_sent := wr_sent s @ take n p, wr_script := rest\<rparr>, n, if fail then Some ErrNet else None))"

record Writer =
  w_err :: "conn_error option"
  w_size :: nat
  w_buf :: bytes
  w_wr :: Sock

definition NewWriter :: "Sock \<Rightarrow> int \<Rightarrow> Writer outcome" where
  "NewWriter s sz =
     (if sz \<le> 0 then Panic (ExplicitPanic ''invalid size requested'')
      else Ok \<lparr>w_err = None, w_size = nat sz, w_buf = [], w_wr = s\<rparr>)"

definition Available :: "Writer \<Rightarrow> nat" where
  "Available b = w_size b - length (w_buf b)"

definition Buffered :: "Writer \<Rightarrow> nat" where
  "Buffered b = length (w_buf b)"

definition w_Flush :: "Writer \<Rightarrow> Writer \<times> conn_error option" where
  "w_Flush b =
     (case w_err b of
        Some e \<Rightarrow> (b, Some e)
      | None \<Rightarrow>
          if length (w_buf b) = 0 then (b, None)
          else
            (case sock_Write (w_buf b) (w_wr b) of
               (s, n, err0) \<Rightarrow>
                 let err = (if n < length (w_buf b) \<and> err0 = None then Some ErrShortWrite else err0)
                 in if err \<noteq> None
                    then (b\<lparr>w_wr := s, w_buf := drop n (w_buf b), w_err := err\<rparr>, err)
                    else (b\<lparr>w_wr := s, w_buf := []\<rparr>, None)))"

function w_Write :: "bytes \<Rightarrow> Writer \<Rightarrow> nat \<Rightarrow> Writer \<times> nat \<times> conn_error option" where
  "w_Write p b nn =
     (if length p > Available b \<and> w_err b = None then
        (if Buffered b = 0 then
           (case sock_Write p (w_wr b) of
              (s, n, err) \<Rightarrow> w_Write (drop n p) (b\<lparr>w_wr := s, w_err := err\<rparr>) (nn + n))
         else
           let n = min (Available b) (length p)
           in w_Write (drop n p) (fst (w_Flush (b\<lparr>w_buf := w_buf b @ take n p\<rparr>))) (nn + n))
      else if w_err b \<noteq> None then (b, nn, w_err b)
      else (b\<lparr>w_buf := w_buf b @ p\<rparr>, nn + length p, None))"
  by pat_completeness auto
termination
proof (relation "(\<lambda>(p, b, nn). length (wr_script (w_wr b))) <*mlex*>
    measure (\<lambda>(p, b, nn). (if w_err b = None then 1 else 0) * (length p + Buffered b))", goal_cases)
  case 1
  then show ?case by (simp add: wf_mlex)
next
  case (2 p b nn s r' n err)
  show ?case
  proof (cases "wr_script (w_wr b)")
    case Nil
    then have "s = (w_wr b)\<lparr>wr_sent := wr_sent (w_wr b) @ p\<rparr>" "n = length p" "err = None"
      using 2 by (auto simp: sock_Write_def)
    then show ?thesis using 2 Nil by (intro mlex_leq) (auto simp: Buffered_def)
  next
    case (Cons e es)
    then have "wr_script s = es" using 2 by (cases e) (auto simp: sock_Write_def Let_def)
    then show ?thesis using Cons by (intro mlex_less) simp
  qed
next
  case (3 p b nn n)
  let ?b = "b\<lparr>w_buf := w_buf b @ take n p\<rparr>"
  have b: "w_buf b \<noteq> []" "w_err ?b = None" "w_err b = None" using 3 by (auto simp: Buffered_def)
  show ?case
  proof (cases "wr_script (w_wr b)")
    case Nil
    then have "fst (w_Flush ?b) = ?b\<lparr>w_wr := (w_wr b)\<lparr>wr_sent := wr_sent (w_wr b) @ w_buf ?b\<rparr>, w_buf := []\<rparr>"
      using b by (simp add: w_Flush_def sock_Write_def)
    moreover have "0 < length (w_buf b)" using b(1) by simp
    ultimately show ?thesis
      using 3 Nil b by (intro mlex_leq) (simp_all add: Buffered_def del: length_greater_0_conv)
  next
    case (Cons e es)
    then have "wr_script (w_wr (fst (w_Flush ?b))) = es"
      using b by (cases e) (auto simp: w_Flush_def sock_Write_def Let_def)
    then show ?thesis using Cons by (intro mlex_less) simp
  qed
qed

declare w_Write.simps [simp del]

subsection \<open>The buffer of recent lines\<close>

record KeepSafe =
  safeOld :: "bytes list"
  safeRecent :: "bytes list"
  ks_closed :: bool

definition NewKeepSafe :: KeepSafe where
  "NewKeepSafe = \<lparr>safeOld = [], safeRecent = [], ks_closed = False\<rparr>"

definition keepClean_tick :: "KeepSafe \<Rightarrow> KeepSafe" where
  "keepClean_tick k = (if ks_closed k then k else k\<lparr>safeOld := safeRecent k, safeRecent := []\<rparr>)"

definition ks_Add :: "bytes \<Rightarrow> KeepSafe \<Rightarrow> KeepSafe" where
  "ks_Add buf k = k\<lparr>safeRecent := safeRecent k @ [buf]\<rparr>"

definition GetAll :: "KeepSafe \<Rightarrow> bytes list \<times> KeepSafe" where
  "GetAll k = (safeOld k @ safeRecent k, k\<lparr>safeOld := [], safeRecent := []\<rparr>)"

definition ks_Stop :: "KeepSafe \<Rightarrow> KeepSafe" where
  "ks_Stop k = k\<lparr>ks_closed := True\<rparr>"

subsection \<open>Data points\<close>

record Datapoint =
  dp_Name :: bytes
  dp_Val :: real
  dp_Time :: uint32

datatype parse_error = NotThreeFields bytes | BadValue num_error | BadTime num_error

definition ParseDataPoint :: "bytes \<Rightarrow> parse_error + Datapoint" where
  "ParseDataPoint buf =
     (let str = trim_space buf;
          elements = Go_Strings.fields str
      in if length elements \<noteq> 3 then Inl (NotThreeFields str)
         else
           (case parse_float (elements ! 1) of
              Inl e \<Rightarrow> Inl (BadValue e)
            | Inr val \<Rightarrow>
                (case parse_uint (elements ! 2) 32 of
                   Inl e \<Rightarrow> Inl (BadTime e)
                 | Inr timestamp \<Rightarrow>
                     Inr \<lparr>dp_Name = elements ! 0, dp_Val = val, dp_Time = word_of_nat timestamp\<rparr>)))"

definition pickle_dp :: "(Datapoint \<Rightarrow> bytes) \<Rightarrow> Datapoint \<Rightarrow> bytes" where
  "pickle_dp encode dp = (let data = encode dp in be32 (int (length data) mod 4294967296) @ data)"

subsection \<open>The connection\<close>

record Conn =
  c_buffered :: Writer
  c_In :: "bytes list"
  c_cap :: nat
  c_pickle :: bool
  keepSafe :: KeepSafe
  c_up :: bool
  c_handling :: bool
  numErrTruncated :: nat
  numErrWrite :: nat
  numErrFlush :: nat
  numOut :: nat
  numDropBadPickle :: nat

definition NewConn :: "Sock \<Rightarrow> bool \<Rightarrow> nat \<Rightarrow> int \<Rightarrow> Conn outcome" where
  "NewConn s pickle connBufSize ioBufSize =
     (case NewWriter s ioBufSize of
        Panic p \<Rightarrow> Panic p
      | Ok w \<Rightarrow> Ok \<lparr>c_buffered = w, c_In = [], c_cap = connBufSize, c_pickle = pickle,
                    keepSafe = NewKeepSafe, c_up = True, c_handling = True,
                    numErrTruncated = 0, numErrWrite = 0, numErrFlush = 0, numOut = 0, numDropBadPickle = 0\<rparr>)"

definition isAlive :: "Conn \<Rightarrow> bool" where
  "isAlive c = c_up c"

definition conn_Write :: "(Datapoint \<Rightarrow> bytes) \<Rightarrow> bytes \<Rightarrow> Conn \<Rightarrow> Conn \<times> nat \<times> conn_error option" where
  "conn_Write encode buf0 c =
     (let pk = (if c_pickle c then (case ParseDataPoint buf0 of Inl e \<Rightarrow> None | Inr dp \<Rightarrow> Some (pickle_dp encode dp))
                else Some buf0)
      in case pk of
           None \<Rightarrow> (c\<lparr>numDropBadPickle := numDropBadPickle c + 1\<rparr>, 0, None)
         | Some buf \<Rightarrow>
             let (w1, n1, err1) = w_Write buf (c_buffered c) 0;
                 (w2, size2, n2, err2, wrote2) =
                   (if err1 = None \<and> length buf = n1 \<and> \<not> c_pickle c
                    then (let (w, n, err) = w_Write [CHR 0x0A] w1 0 in (w, 1, n, err, n1 + n))
                    else (w1, length buf, n1, err1, n1));
                 c1 = c\<lparr>c_buffered := w2, numErrWrite := numErrWrite c + (if err2 \<noteq> None then 1 else 0)\<rparr>
             in if err2 = None \<and> size2 \<noteq> n2
                then (c1\<lparr>numErrTruncated := numErrTruncated c1 + 1\<rparr>, wrote2, Some ErrTruncated)
                else (c1, wrote2, err2))"

text \<open>\<open>close\<close>: the connection is down, and \<open>HandleData\<close> stops (it returns after its own \<open>close\<close>,
  or at the shutdown that another goroutine sends).\<close>

definition conn_close :: "Conn \<Rightarrow> Conn" where
  "conn_close c = c\<lparr>c_up := False, c_handling := False\<rparr>"

datatype conn_event = HandleIn | FlushTick | ManualFlush | KeepTick | RemoteEOF

fun conn_step :: "(Datapoint \<Rightarrow> bytes) \<Rightarrow> conn_event \<Rightarrow> Conn \<Rightarrow> Conn" where
  "conn_step encode HandleIn c =
     (case c_In c of
        [] \<Rightarrow> c
      | buf # rest \<Rightarrow>
          if \<not> c_handling c then c
          else
            let c1 = c\<lparr>c_In := rest, keepSafe := ks_Add buf (keepSafe c)\<rparr>
            in (case conn_Write encode buf c1 of
                  (c2, n, Some err) \<Rightarrow> conn_close c2
                | (c2, n, None) \<Rightarrow> c2\<lparr>numOut := numOut c2 + 1\<rparr>))"
| "conn_step encode FlushTick c =
     (if \<not> c_handling c then c
      else (case w_Flush (c_buffered c) of
              (w, Some err) \<Rightarrow> conn_close (c\<lparr>c_buffered := w, numErrFlush := numErrFlush c + 1\<rparr>)
            | (w, None) \<Rightarrow> c\<lparr>c_buffered := w\<rparr>))"
| "conn_step encode ManualFlush c =
     (if \<not> c_handling c then c
      else (case w_Flush (c_buffered c) of
              (w, Some err) \<Rightarrow> conn_close (c\<lparr>c_buffered := w\<rparr>)
            | (w, None) \<Rightarrow> c\<lparr>c_buffered := w\<rparr>))"
| "conn_step encode KeepTick c = c\<lparr>keepSafe := keepClean_tick (keepSafe c)\<rparr>"
| "conn_step encode RemoteEOF c = conn_close c"

text \<open>A send to the input channel that does not block: refused when the channel is full.\<close>

definition conn_send :: "bytes \<Rightarrow> Conn \<Rightarrow> Conn option" where
  "conn_send buf c = (if length (c_In c) < c_cap c then Some (c\<lparr>c_In := c_In c @ [buf]\<rparr>) else None)"

definition clearRedo :: "Conn \<Rightarrow> Conn" where
  "clearRedo c = c\<lparr>keepSafe := ks_Stop (keepSafe c)\<rparr>"

text \<open>Draining the input channel into the buffer of recent lines, and all of that buffer.\<close>

definition getRedo :: "Conn \<Rightarrow> bytes list \<times> Conn" where
  "getRedo c =
     (let k = foldl (\<lambda>k buf. ks_Add buf k) (keepSafe c) (c_In c);
          (all_data, k') = GetAll k
      in (all_data, clearRedo (c\<lparr>c_In := [], keepSafe := k'\<rparr>)))"

subsection \<open>Facts on the writer\<close>

lemma sock_Write_facts:
  assumes "sock_Write p s = (s', n, err)"
  shows "wr_sent s' = wr_sent s @ take n p" "n \<le> length p"
  using assms by (auto simp: sock_Write_def Let_def split: list.splits)

definition stream :: "Writer \<Rightarrow> bytes" where
  "stream b = wr_sent (w_wr b) @ w_buf b"

lemma w_Flush_stream: "stream (fst (w_Flush b)) = stream b"
proof (cases "sock_Write (w_buf b) (w_wr b)")
  case (fields s n err)
  then show ?thesis
    using sock_Write_facts [OF fields]
    by (auto simp: w_Flush_def stream_def Let_def split: option.splits)
qed

lemma w_Flush_ok: "snd (w_Flush b) = None \<Longrightarrow> w_buf (fst (w_Flush b)) = [] \<and> w_err (fst (w_Flush b)) = w_err b"
  by (auto simp: w_Flush_def Let_def split: option.splits prod.splits if_splits)

lemma w_Write_stream:
  "w_Write p b nn = (b', nn', err) \<Longrightarrow>
     nn \<le> nn' \<and> nn' \<le> nn + length p \<and> stream b' = stream b @ take (nn' - nn) p \<and>
     (err = None \<longrightarrow> nn' = nn + length p) \<and> err = w_err b'"
proof (induction p b nn arbitrary: b' nn' err rule: w_Write.induct)
  case (1 p b nn)
  consider (direct) "length p > Available b" "w_err b = None" "Buffered b = 0"
    | (copy) "length p > Available b" "w_err b = None" "Buffered b \<noteq> 0"
    | (stop) "\<not> (length p > Available b \<and> w_err b = None)" by auto
  then show ?case
  proof cases
    case direct
    obtain s n e where w: "sock_Write p (w_wr b) = (s, n, e)" by (cases "sock_Write p (w_wr b)")
    have "w_Write (drop n p) (b\<lparr>w_wr := s, w_err := e\<rparr>) (nn + n) = (b', nn', err)"
      using 1(3) direct w by (subst (asm) w_Write.simps) simp
    then have IH: "nn + n \<le> nn' \<and> nn' \<le> nn + n + length (drop n p) \<and>
        stream b' = stream (b\<lparr>w_wr := s, w_err := e\<rparr>) @ take (nn' - (nn + n)) (drop n p) \<and>
        (err = None \<longrightarrow> nn' = nn + n + length (drop n p)) \<and> err = w_err b'"
      using 1(1) direct w by auto
    have "take (nn' - nn) p = take n p @ take (nn' - (nn + n)) (drop n p)"
      using IH take_add [of n "nn' - (nn + n)" p] by simp
    moreover have "w_buf b = []" using direct by (simp add: Buffered_def)
    ultimately show ?thesis
      using IH sock_Write_facts [OF w] by (auto simp: stream_def)
  next
    case copy
    define n where "n = min (Available b) (length p)"
    let ?b = "b\<lparr>w_buf := w_buf b @ take n p\<rparr>"
    have "w_Write (drop n p) (fst (w_Flush ?b)) (nn + n) = (b', nn', err)"
      using 1(3) copy by (subst (asm) w_Write.simps) (simp add: Let_def n_def)
    then have IH: "nn + n \<le> nn' \<and> nn' \<le> nn + n + length (drop n p) \<and>
        stream b' = stream (fst (w_Flush ?b)) @ take (nn' - (nn + n)) (drop n p) \<and>
        (err = None \<longrightarrow> nn' = nn + n + length (drop n p)) \<and> err = w_err b'"
      using 1(2) copy n_def by auto
    have "take (nn' - nn) p = take n p @ take (nn' - (nn + n)) (drop n p)"
      using IH take_add [of n "nn' - (nn + n)" p] by simp
    moreover have "n \<le> length p" by (simp add: n_def)
    moreover have "stream ?b = stream b @ take n p" by (simp add: stream_def)
    ultimately show ?thesis
      using IH by (auto simp: w_Flush_stream)
  next
    case stop
    then show ?thesis
      using 1(3) by (subst (asm) w_Write.simps) (auto simp: stream_def split: if_splits)
  qed
qed

subsection \<open>Sequences of writes\<close>

fun write_list :: "bytes list \<Rightarrow> Writer \<Rightarrow> Writer \<times> bool" where
  "write_list [] b = (b, True)"
| "write_list (p # ps) b =
     (case w_Write p b 0 of
        (b', n, e) \<Rightarrow> (case write_list ps b' of (b'', ok) \<Rightarrow> (b'', e = None \<and> ok)))"

lemma w_Write_stuck: "w_err b \<noteq> None \<Longrightarrow> w_Write p b nn = (b, nn, w_err b)"
  by (subst w_Write.simps) auto

lemma write_list_stuck: "w_err b \<noteq> None \<Longrightarrow> fst (write_list ps b) = b"
  by (induction ps) (auto simp: w_Write_stuck split: prod.splits)

lemma write_list_stream:
  "w_err b = None \<Longrightarrow>
     (\<exists>rest. stream b @ concat ps = stream (fst (write_list ps b)) @ rest) \<and>
     (snd (write_list ps b) \<longrightarrow> stream (fst (write_list ps b)) = stream b @ concat ps)"
proof (induction ps arbitrary: b)
  case (Cons p ps)
  obtain b' n e where w: "w_Write p b 0 = (b', n, e)" by (cases "w_Write p b 0")
  have f: "stream b' = stream b @ take n p" "e = None \<longrightarrow> n = length p" "e = w_err b'"
    using w_Write_stream [OF w] by auto
  have st: "fst (write_list (p # ps) b) = fst (write_list ps b')"
    "snd (write_list (p # ps) b) \<longleftrightarrow> e = None \<and> snd (write_list ps b')"
    using w by (auto split: prod.splits)
  show ?case
  proof (cases "e = None")
    case True
    then show ?thesis using Cons.IH [of b'] f unfolding st by simp
  next
    case False
    then have "stream b @ concat (p # ps) = stream (fst (write_list ps b')) @ (drop n p @ concat ps)"
      using f write_list_stuck [of b' ps] by simp
    then show ?thesis using False unfolding st by blast
  qed
qed simp

subsection \<open>Histories of a connection\<close>

datatype conn_input = Send bytes | Turn conn_event

fun conn_run :: "(Datapoint \<Rightarrow> bytes) \<Rightarrow> conn_input list \<Rightarrow> Conn \<Rightarrow> Conn \<times> bytes list" where
  "conn_run encode [] c = (c, [])"
| "conn_run encode (Send buf # es) c =
     (case conn_send buf c of
        None \<Rightarrow> conn_run encode es c
      | Some c' \<Rightarrow> (case conn_run encode es c' of (c'', acc) \<Rightarrow> (c'', buf # acc)))"
| "conn_run encode (Turn e # es) c = conn_run encode es (conn_step encode e c)"

abbreviation kept :: "Conn \<Rightarrow> bytes list" where
  "kept c \<equiv> safeOld (keepSafe c) @ safeRecent (keepSafe c) @ c_In c"

lemma foldl_ks_Add: "foldl (\<lambda>k buf. ks_Add buf k) k xs = k\<lparr>safeRecent := safeRecent k @ xs\<rparr>"
  by (induction xs arbitrary: k) (auto simp: ks_Add_def)

lemma getRedo_kept: "fst (getRedo c) = kept c"
  by (simp add: getRedo_def foldl_ks_Add GetAll_def Let_def)

lemma conn_Write_fields:
  assumes "conn_Write encode buf c = (c', n, e)"
  shows "keepSafe c' = keepSafe c" "c_In c' = c_In c" "c_up c' = c_up c" "c_handling c' = c_handling c"
    "c_pickle c' = c_pickle c" "c_cap c' = c_cap c" "numOut c' = numOut c"
  using assms by (auto simp: conn_Write_def Let_def split: prod.splits option.splits if_splits)

lemma conn_step_kept:
  assumes "e \<noteq> KeepTick"
  shows "kept (conn_step encode e c) = kept c \<and>
     safeOld (keepSafe (conn_step encode e c)) = safeOld (keepSafe c) \<and>
     ks_closed (keepSafe (conn_step encode e c)) = ks_closed (keepSafe c)"
proof (cases e)
  case HandleIn
  show ?thesis
  proof (cases "c_handling c \<and> c_In c \<noteq> []")
    case True
    then obtain buf rest where b: "c_In c = buf # rest" by (cases "c_In c") auto
    let ?c = "c\<lparr>c_In := rest, keepSafe := ks_Add buf (keepSafe c)\<rparr>"
    obtain c2 n err where w: "conn_Write encode buf ?c = (c2, n, err)" by (cases "conn_Write encode buf ?c")
    show ?thesis
      using conn_Write_fields [OF w] w HandleIn True b
      by (auto simp: conn_close_def ks_Add_def Let_def split: option.splits)
  next
    case False
    then show ?thesis using HandleIn by (auto split: list.splits)
  qed
qed (use assms in \<open>auto simp: conn_close_def split: prod.splits option.splits\<close>)

definition keep_ticks :: "conn_input list \<Rightarrow> nat" where
  "keep_ticks es = length (filter (\<lambda>e. e = Turn KeepTick) es)"

text \<open>What the buffer still holds: everything since a state, but for what ticks have let expire.\<close>

lemma conn_run_kept:
  "conn_run encode es c = (c', acc) \<Longrightarrow> \<not> ks_closed (keepSafe c) \<Longrightarrow>
     \<not> ks_closed (keepSafe c') \<and> (\<exists>D. kept c @ acc = D @ kept c' \<and>
       (keep_ticks es = 0 \<longrightarrow> D = []) \<and> (keep_ticks es = 1 \<longrightarrow> D = safeOld (keepSafe c)))"
proof (induction encode es c arbitrary: c' acc rule: conn_run.induct)
  case (1 encode c)
  then show ?case by (simp add: keep_ticks_def)
next
  case (2 encode buf es c)
  show ?case
  proof (cases "conn_send buf c")
    case None
    then show ?thesis using 2 by (simp add: keep_ticks_def)
  next
    case (Some c1)
    then have c1: "kept c1 = kept c @ [buf]" "keepSafe c1 = keepSafe c"
      by (auto simp: conn_send_def split: if_splits)
    obtain acc' where "conn_run encode es c1 = (c', acc')" "acc = buf # acc'"
      using 2(3) Some by (auto split: prod.splits)
    then show ?thesis using 2(2) [OF Some, of c' acc'] 2(4) c1 by (simp add: keep_ticks_def)
  qed
next
  case (3 encode e es c)
  let ?c = "conn_step encode e c"
  show ?case
  proof (cases "e = KeepTick")
    case False
    have k: "kept ?c = kept c" "safeOld (keepSafe ?c) = safeOld (keepSafe c)" "\<not> ks_closed (keepSafe ?c)"
      using conn_step_kept [OF False, of encode c] 3(3) by blast+
    have run: "conn_run encode es ?c = (c', acc)" using 3(2) by simp
    have "keep_ticks (Turn e # es) = keep_ticks es" using False by (simp add: keep_ticks_def)
    then show ?thesis using 3(1) [OF run k(3)] unfolding k(1) by (simp add: k(2))
  next
    case True
    then have c: "kept ?c = safeRecent (keepSafe c) @ c_In c" "\<not> ks_closed (keepSafe ?c)"
      using 3(3) by (simp_all add: keepClean_tick_def)
    obtain D where D: "kept ?c @ acc = D @ kept c'" "keep_ticks es = 0 \<longrightarrow> D = []"
        and cl: "\<not> ks_closed (keepSafe c')"
      using 3(1) [of c' acc] 3(2) c(2) by auto
    have "kept c @ acc = (safeOld (keepSafe c) @ D) @ kept c'" using D(1) c(1) by simp
    moreover have "keep_ticks (Turn e # es) = Suc (keep_ticks es)" by (simp add: keep_ticks_def True)
    ultimately show ?thesis using D(2) cl by fastforce
  qed
qed

lemma conn_run_append:
  "conn_run encode (es @ fs) c =
     (case conn_run encode es c of (c1, acc1) \<Rightarrow>
      case conn_run encode fs c1 of (c2, acc2) \<Rightarrow> (c2, acc1 @ acc2))"
  by (induction encode es c rule: conn_run.induct) (auto split: prod.splits option.splits)

subsection \<open>The stream of lines\<close>

definition line_bytes :: "bytes \<Rightarrow> bytes" where
  "line_bytes l = l @ [CHR 0x0A]"

lemma conn_Write_line:
  assumes "conn_Write encode buf c = (c', n, None)" "\<not> c_pickle c"
  shows "stream (c_buffered c') = stream (c_buffered c) @ line_bytes buf"
proof -
  obtain w1 n1 err1 where w1: "w_Write buf (c_buffered c) 0 = (w1, n1, err1)" by (cases "w_Write buf (c_buffered c) 0")
  obtain w2 n2 err2 where w2: "w_Write [CHR 0x0A] w1 0 = (w2, n2, err2)" by (cases "w_Write [CHR 0x0A] w1 0")
  have ok: "err1 = None \<and> length buf = n1 \<and> err2 = None \<and> c_buffered c' = w2"
    using assms w1 w2 by (auto simp: conn_Write_def Let_def split: if_splits)
  then show ?thesis
    using w_Write_stream [OF w1] w_Write_stream [OF w2] by (auto simp: line_bytes_def)
qed

lemma conn_step_stream:
  assumes "\<not> c_pickle c" "c_up (conn_step encode e c)"
  shows "\<exists>ls. stream (c_buffered (conn_step encode e c)) = stream (c_buffered c) @ concat (map line_bytes ls) \<and>
    c_In c = ls @ c_In (conn_step encode e c) \<and> \<not> c_pickle (conn_step encode e c) \<and> c_up c"
proof (cases e)
  case HandleIn
  show ?thesis
  proof (cases "c_handling c \<and> c_In c \<noteq> []")
    case True
    then obtain buf rest where b: "c_In c = buf # rest" by (cases "c_In c") auto
    let ?c = "c\<lparr>c_In := rest, keepSafe := ks_Add buf (keepSafe c)\<rparr>"
    obtain c2 n err where w: "conn_Write encode buf ?c = (c2, n, err)" by (cases "conn_Write encode buf ?c")
    have "err = None" using assms(2) HandleIn True b w by (auto simp: conn_close_def Let_def split: option.splits)
    then show ?thesis
      using conn_Write_line [of encode buf ?c c2 n] conn_Write_fields [OF w] w assms HandleIn True b
      by (auto intro: exI [of _ "[buf]"])
  next
    case False
    then show ?thesis using assms HandleIn by (auto split: list.splits)
  qed
qed (use assms w_Flush_stream [of "c_buffered c"] in \<open>auto simp: conn_close_def split: prod.splits option.splits if_splits\<close>)

lemma conn_run_stream:
  "conn_run encode es c = (c', acc) \<Longrightarrow> \<not> c_pickle c \<Longrightarrow> c_up c' \<Longrightarrow>
     c_up c \<and> (\<exists>ls. stream (c_buffered c') = stream (c_buffered c) @ concat (map line_bytes ls) \<and>
       c_In c @ acc = ls @ c_In c')"
proof (induction encode es c arbitrary: c' acc rule: conn_run.induct)
  case (1 encode c)
  then show ?case by simp
next
  case (2 encode buf es c)
  show ?case
  proof (cases "conn_send buf c")
    case None
    then show ?thesis using 2 by simp
  next
    case (Some c1)
    then have c1: "c_In c1 = c_In c @ [buf]" "c_buffered c1 = c_buffered c" "c_pickle c1 = c_pickle c" "c_up c1 = c_up c"
      by (auto simp: conn_send_def split: if_splits)
    obtain acc' where "conn_run encode es c1 = (c', acc')" "acc = buf # acc'"
      using 2(3) Some by (auto split: prod.splits)
    then show ?thesis using 2(2) [OF Some, of c' acc'] 2(4,5) c1 by simp
  qed
next
  case (3 encode e es c)
  let ?c = "conn_step encode e c"
  have run: "conn_run encode es ?c = (c', acc)" using 3(2) by simp
  have np: "\<not> c_pickle ?c"
    using 3(3) by (cases e) (auto simp: conn_close_def dest!: conn_Write_fields(5) split: list.splits option.splits prod.splits)
  obtain ls where "c_up ?c" and ls: "stream (c_buffered c') = stream (c_buffered ?c) @ concat (map line_bytes ls)"
      "c_In ?c @ acc = ls @ c_In c'"
    using 3(1) [OF run np 3(4)] by blast
  then obtain ls' where "stream (c_buffered ?c) = stream (c_buffered c) @ concat (map line_bytes ls')"
      "c_In c = ls' @ c_In ?c" "c_up c"
    using conn_step_stream [OF 3(3), of encode e] by blast
  then show ?case using ls by (intro conjI exI [of _ "ls' @ ls"]) auto
qed

subsection \<open>Properties\<close>




abbreviation example_conn :: Conn where
  "example_conn \<equiv> \<lparr>c_buffered = \<lparr>w_err = None, w_size = 8, w_buf = [], w_wr = \<lparr>wr_sent = [], wr_script = []\<rparr>\<rparr>,
     c_In = [], c_cap = 2, c_pickle = False, keepSafe = NewKeepSafe, c_up = True, c_handling = True,
     numErrTruncated = 0, numErrWrite = 0, numErrFlush = 0, numOut = 0, numDropBadPickle = 0\<rparr>"

abbreviation example_inputs :: "conn_input list" where
  "example_inputs \<equiv> [Send ''a 1 2'', Send ''b 1 2'', Send ''c 1 2'', Turn HandleIn, Turn KeepTick, Send ''d 1 2'',
     Turn HandleIn]"

lemma example_conn_run:
  "snd (conn_run (\<lambda>_. []) example_inputs example_conn) = [''a 1 2'', ''b 1 2'', ''d 1 2'']"
  "isAlive (fst (conn_run (\<lambda>_. []) example_inputs example_conn))"
  "c_In (fst (conn_run (\<lambda>_. []) example_inputs example_conn)) = [''d 1 2'']"
  by code_simp+

lemma example_conn_new: "NewConn \<lparr>wr_sent = [], wr_script = []\<rparr> False 2 8 = Ok example_conn"
  by (simp add: NewConn_def NewWriter_def)


text \<open>C15: the lines handed over for retransmission when a connection goes down are the accepted lines,
  in order, but for a part at the beginning, all of which had been written before the last
  but one tick of the retention period.\<close>

theorem redo_keeps_recent_lines:
  assumes "NewConn \<lparr>wr_sent = [], wr_script = script\<rparr> pickle cap io = Ok c"
    and "conn_run encode es c = (c1, acc1)" and "conn_run encode fs c1 = (c2, acc2)" and "keep_ticks fs \<le> 1"
  shows "\<exists>D. acc1 @ acc2 = D @ fst (getRedo c2) \<and> length D + length (c_In c1) \<le> length acc1"
proof -
  have c: "kept c = []" "\<not> ks_closed (keepSafe c)"
    using assms(1) by (auto simp: NewConn_def NewWriter_def NewKeepSafe_def split: outcome.splits if_splits)
  obtain D where D: "acc1 = D @ kept c1" and cl: "\<not> ks_closed (keepSafe c1)"
    using conn_run_kept [OF assms(2) c(2)] unfolding c(1) by auto
  obtain E where E: "kept c1 @ acc2 = E @ kept c2" and "E = [] \<or> E = safeOld (keepSafe c1)"
    using conn_run_kept [OF assms(3) cl] assms(4) by (metis le_antisym less_one not_le)
  then have "length E \<le> length (safeOld (keepSafe c1))" by auto
  then have "acc1 @ acc2 = (D @ E) @ fst (getRedo c2) \<and> length (D @ E) + length (c_In c1) \<le> length acc1"
    using D E by (simp add: getRedo_kept)
  then show ?thesis by blast
qed

theorem redo_keeps_recent_lines_witness:
  "\<exists>D. [''a 1 2'', ''b 1 2'', ''d 1 2''] = D @ fst (getRedo (fst (conn_run (\<lambda>_. []) example_inputs example_conn))) \<and>
    length D = 0"
proof -
  obtain c2 acc2 where r: "conn_run (\<lambda>_. []) example_inputs example_conn = (c2, acc2)" by fastforce
  have "keep_ticks example_inputs \<le> 1" by (simp add: keep_ticks_def)
  from redo_keeps_recent_lines [OF example_conn_new conn_run.simps(1) r this]
  have "\<exists>D. acc2 = D @ fst (getRedo c2) \<and> length D = 0" by auto
  moreover have "acc2 = [''a 1 2'', ''b 1 2'', ''d 1 2'']" using example_conn_run(1) r by simp
  ultimately show ?thesis using r by simp
qed

end
