(* ===== verification/Dest_Destination.thy ===== *)
theory Dest_Destination
  imports Dest_Conn Relay_Matcher
begin

text \<open>
  \<^verbatim>\<open>destination/destination.go\<close>, with \<^verbatim>\<open>util/util.go\<close>, \<^verbatim>\<open>destination/spool.go\<close> and
  \<^verbatim>\<open>destination/slowchan.go\<close>: the configuration of a destination, its \<open>relay\<close> goroutine, and the spool
  that buffers metrics on disk while the connection is down.

  \<^item> Dialling is the environment's: \<open>dial addr\<close> is the socket, or nothing when it fails.
  \<^item> \<open>relay\<close> is cut at its \<open>select\<close>: \<open>relay_top\<close> is what precedes it, \<open>relay_select\<close> has a case per
    channel. The turns of the goroutines of the connection are events too.
  \<^item> \<open>opts\<close>, a Go map, is an association list with distinct keys.
\<close>

subsection \<open>Names\<close>

definition AddrToPath :: "bytes \<Rightarrow> bytes" where
  "AddrToPath s =
     (let s1 = go_replace s ''.'' ''_'' (- 1);
          s2 = go_replace s1 '':'' ''_'' (- 1)
      in go_replace s2 ''/'' [] (- 1))"

definition util_Key :: "bytes \<Rightarrow> bytes \<Rightarrow> bytes" where
  "util_Key routeName addr = routeName @ ''_'' @ AddrToPath addr"

definition addrInstanceSplit :: "bytes \<Rightarrow> bytes \<times> bytes" where
  "addrInstanceSplit addr =
     (if length (filter (\<lambda>c. c = CHR '':'') addr) = 2
      then let addrComponents = go_split addr '':''
           in (go_join (take 2 addrComponents) '':'', addrComponents ! 2)
      else (addr, []))"

subsection \<open>Configuration\<close>

record Destination =
  d_Matcher :: Matcher
  Addr :: bytes
  Instance :: bytes
  SpoolDir :: bytes
  d_Key :: bytes
  d_Spool :: bool
  d_Pickle :: bool
  Online :: bool
  SlowNow :: bool
  SlowLastLoop :: bool
  periodFlush :: int
  periodReConn :: int
  connBufSize :: nat
  ioBufSize :: int
  SpoolBufSize :: int
  SpoolMaxBytesPerFile :: int
  SpoolSyncEvery :: int
  SpoolSyncPeriod :: int
  SpoolSleep :: int
  UnspoolSleep :: int
  RouteName :: bytes
  d_running :: bool
  numDropNoConnNoSpool :: nat
  numDropSlowSpool :: nat
  numDropSlowConn :: nat

datatype dest_error = NoSuchOption bytes | BadMatcher regexp_error | NotRunningYet | InvalidIndex int

definition dest_New ::
  "bytes \<Rightarrow> Matcher \<Rightarrow> bytes \<Rightarrow> bytes \<Rightarrow> bool \<Rightarrow> bool \<Rightarrow> int \<Rightarrow> int \<Rightarrow> nat \<Rightarrow> int \<Rightarrow> int \<Rightarrow> int \<Rightarrow> int \<Rightarrow>
   int \<Rightarrow> int \<Rightarrow> int \<Rightarrow> Destination" where
  "dest_New routeName m addr0 spoolDir spool pickle pFlush pReConn connBuf ioBuf spoolBuf maxBytes
     syncEv syncPeriod sleep unspool =
     (let key = util_Key routeName addr0;
          (addr, inst) = addrInstanceSplit addr0
      in \<lparr>d_Matcher = m, Addr = addr, Instance = inst, SpoolDir = spoolDir, d_Key = key,
          d_Spool = spool, d_Pickle = pickle, Online = False, SlowNow = False, SlowLastLoop = False,
          periodFlush = pFlush, periodReConn = pReConn, connBufSize = connBuf, ioBufSize = ioBuf,
          SpoolBufSize = spoolBuf, SpoolMaxBytesPerFile = maxBytes, SpoolSyncEvery = syncEv,
          SpoolSyncPeriod = syncPeriod, SpoolSleep = sleep, UnspoolSleep = unspool,
          RouteName = routeName, d_running = False,
          numDropNoConnNoSpool = 0, numDropSlowSpool = 0, numDropSlowConn = 0\<rparr>)"

definition dest_Match :: "Destination \<Rightarrow> bytes \<Rightarrow> bool" where
  "dest_Match d s = Match (d_Matcher d) s"

text \<open>One option that concerns the matcher; the record carries the new texts until \<open>matcher.New\<close>.\<close>

definition matcher_opt :: "bytes \<Rightarrow> bytes \<Rightarrow> Matcher \<Rightarrow> Matcher option" where
  "matcher_opt name val m =
     (if name = ''prefix'' then Some (m\<lparr>Prefix := val\<rparr>)
      else if name = ''notPrefix'' then Some (m\<lparr>NotPrefix := val\<rparr>)
      else if name = ''sub'' then Some (m\<lparr>Sub := val\<rparr>)
      else if name = ''notSub'' then Some (m\<lparr>NotSub := val\<rparr>)
      else if name = ''regex'' then Some (m\<lparr>Regex := val\<rparr>)
      else if name = ''notRegex'' then Some (m\<lparr>NotRegex := val\<rparr>)
      else None)"

definition rebuild_matcher :: "Matcher \<Rightarrow> Matcher \<times> regexp_error option" where
  "rebuild_matcher m = matcher_New (Prefix m) (NotPrefix m) (Sub m) (NotSub m) (Regex m) (NotRegex m)"

text \<open>The loop over the options: the address, the matcher texts and whether they changed.\<close>

fun scan_opts :: "(bytes \<times> bytes) list \<Rightarrow> bytes \<times> Matcher \<times> bool \<Rightarrow> dest_error + (bytes \<times> Matcher \<times> bool)" where
  "scan_opts [] st = Inr st"
| "scan_opts ((name, val) # opts) (addr, m, upd) =
     (if name = ''addr'' then scan_opts opts (val, m, upd)
      else case matcher_opt name val m of
             None \<Rightarrow> Inl (NoSuchOption name)
           | Some m' \<Rightarrow> scan_opts opts (addr, m', True))"

text \<open>\<open>updateConn\<close>: the destination and the new connection, which goes to \<open>relay\<close>. A failure to
  connect is only logged.\<close>

definition updateConn :: "(bytes \<Rightarrow> Sock option) \<Rightarrow> bytes \<Rightarrow> Destination \<Rightarrow> (Destination \<times> Conn option) outcome" where
  "updateConn dial addr0 d =
     (let (addr, inst) = addrInstanceSplit addr0
      in case dial addr of
           None \<Rightarrow> Ok (d, None)
         | Some s \<Rightarrow>
             (case NewConn s (d_Pickle d) (connBufSize d) (ioBufSize d) of
                Panic p \<Rightarrow> Panic p
              | Ok conn \<Rightarrow>
                  if periodFlush d \<le> 0 then Panic NonPositiveTicker
                  else Ok (if addr \<noteq> Addr d
                           then d\<lparr>Addr := addr, Instance := inst, d_Key := util_Key (RouteName d) addr,
                                  numDropNoConnNoSpool := 0, numDropSlowSpool := 0, numDropSlowConn := 0\<rparr>
                           else d, Some conn)))"

definition UpdateMatcher :: "Matcher \<Rightarrow> Destination \<Rightarrow> Destination" where
  "UpdateMatcher m d = d\<lparr>d_Matcher := m\<rparr>"

definition dest_Update ::
  "(bytes \<Rightarrow> Sock option) \<Rightarrow> (bytes \<times> bytes) list \<Rightarrow> Destination \<Rightarrow>
     (Destination \<times> Conn option \<times> dest_error option) outcome" where
  "dest_Update dial opts d =
     (case scan_opts opts ([], d_Matcher d, False) of
        Inl err \<Rightarrow> Ok (d, None, Some err)
      | Inr (addr, m, updateM) \<Rightarrow>
          (case (if addr \<noteq> [] then updateConn dial addr d else Ok (d, None)) of
             Panic p \<Rightarrow> Panic p
           | Ok (d1, conn) \<Rightarrow>
               if updateM
               then (case rebuild_matcher m of
                       (_, Some err) \<Rightarrow> Ok (d1, conn, Some (BadMatcher err))
                     | (m', None) \<Rightarrow> Ok (UpdateMatcher m' d1, conn, None))
               else Ok (d1, conn, None)))"

definition dest_Snapshot :: "Destination \<Rightarrow> Matcher \<times> bytes \<times> bytes \<times> bool \<times> bool \<times> bool \<times> bytes" where
  "dest_Snapshot d = (d_Matcher d, Addr d, SpoolDir d, d_Spool d, d_Pickle d, Online d, d_Key d)"

definition dest_Run :: "Destination \<Rightarrow> Destination outcome" where
  "dest_Run d =
     (if d_running d then Panic (ExplicitPanic ''Run() called on already running dest'')
      else if periodReConn d \<le> 0 \<or> (d_Spool d \<and> SpoolSyncPeriod d \<le> 0) then Panic NonPositiveTicker
      else Ok (d\<lparr>d_running := True\<rparr>))"

definition dest_Shutdown :: "Destination \<Rightarrow> Destination \<times> dest_error option" where
  "dest_Shutdown d = (if \<not> d_running d then (d, Some NotRunningYet) else (d, None))"

subsection \<open>The spool\<close>

record Spool =
  InRT :: "bytes list"
  InBulk :: "bytes list"
  queueBuffer :: "bytes list"
  queueBufferCap :: nat
  queue :: DiskQueue
  sp_slow :: "bytes option"
  sp_Out :: "bytes list"
  numIncomingRT :: nat
  numIncomingBulk :: nat

definition NewSpool :: "int \<Rightarrow> int \<Rightarrow> nat \<Rightarrow> (int \<rightharpoonup> bytes) \<Rightarrow> (int \<rightharpoonup> bytes) \<Rightarrow> bytes option \<Rightarrow> bytes option \<Rightarrow> Spool" where
  "NewSpool maxBytes syncEv bufSize fs bad mf tmp =
     \<lparr>InRT = [], InBulk = [], queueBuffer = [], queueBufferCap = bufSize,
      queue = NewDiskQueue maxBytes syncEv fs bad mf tmp, sp_slow = None, sp_Out = [],
      numIncomingRT = 0, numIncomingBulk = 0\<rparr>"

text \<open>A turn of the goroutines of the spool: \<open>Writer\<close> on either input, \<open>Buffer\<close>, the reading side of
  the disk queue with the slow channel behind it, and a sync tick. \<open>InBulk\<close> holds what the running
  \<open>Ingest\<close> calls still have to send.\<close>

datatype spool_event = WriterRT | WriterBulk | BufferPut bool | QueueDeliver bool | SlowSend | QueueTick bool

definition queue_turn :: "bool \<times> dq_event \<Rightarrow> Spool \<Rightarrow> (Spool \<times> dq_reply) outcome" where
  "queue_turn e s =
     (case dq_step e (queue s) of Panic p \<Rightarrow> Panic p | Ok (q, r) \<Rightarrow> Ok (s\<lparr>queue := q\<rparr>, r))"

fun spool_step :: "spool_event \<Rightarrow> Spool \<Rightarrow> Spool outcome" where
  "spool_step WriterRT s =
     (case InRT s of
        [] \<Rightarrow> Ok s
      | buf # rest \<Rightarrow>
          if length (queueBuffer s) < queueBufferCap s
          then Ok (s\<lparr>InRT := rest, queueBuffer := queueBuffer s @ [buf], numIncomingRT := numIncomingRT s + 1\<rparr>)
          else Ok s)"
| "spool_step WriterBulk s =
     (case InBulk s of
        [] \<Rightarrow> Ok s
      | buf # rest \<Rightarrow>
          if length (queueBuffer s) < queueBufferCap s
          then Ok (s\<lparr>InBulk := rest, queueBuffer := queueBuffer s @ [buf], numIncomingBulk := numIncomingBulk s + 1\<rparr>)
          else Ok s)"
| "spool_step (BufferPut sync_ok) s =
     (case queueBuffer s of
        [] \<Rightarrow> Ok s
      | buf # rest \<Rightarrow>
          (case queue_turn (sync_ok, WriteReq buf None) s of
             Panic p \<Rightarrow> Panic p
           | Ok (s', Replied err) \<Rightarrow> Ok (s'\<lparr>queueBuffer := rest\<rparr>)
           | Ok (s', _) \<Rightarrow> Ok s'))"
| "spool_step (QueueDeliver sync_ok) s =
     (if sp_slow s \<noteq> None then Ok s
      else (case queue_turn (sync_ok, Deliver) s of
              Panic p \<Rightarrow> Panic p
            | Ok (s', Delivered m) \<Rightarrow> Ok (s'\<lparr>sp_slow := Some m\<rparr>)
            | Ok (s', _) \<Rightarrow> Ok s'))"
| "spool_step SlowSend s =
     (case sp_slow s of None \<Rightarrow> Ok s | Some m \<Rightarrow> Ok (s\<lparr>sp_slow := None, sp_Out := sp_Out s @ [m]\<rparr>))"
| "spool_step (QueueTick sync_ok) s =
     (case queue_turn (sync_ok, SyncTick) s of Panic p \<Rightarrow> Panic p | Ok (s', _) \<Rightarrow> Ok s')"

definition Ingest :: "bytes list \<Rightarrow> Spool \<Rightarrow> Spool" where
  "Ingest bulkData s = s\<lparr>InBulk := InBulk s @ bulkData\<rparr>"

subsection \<open>The relay goroutine\<close>

record Relay =
  r_dest :: Destination
  r_conn :: "Conn option"
  r_spool :: Spool
  numConnUpdates :: int
  r_signal :: "bool option"
  r_connecting :: bool
  r_stopped :: bool

datatype fate = NoMetric | ToConn bytes | ToSpool bytes | DroppedSlowConn bytes | DroppedSlowSpool bytes
  | DroppedNoConn bytes

datatype relay_event = SetSignal | InConnUpdate bool | ConnUpdate Conn | ReconnTick | FlushReq
  | ShutdownReq | Unspool bytes | Recv bytes | ConnTurn conn_event

definition relay_top :: "Relay \<Rightarrow> Relay" where
  "relay_top r =
     (case r_conn r of
        None \<Rightarrow> r
      | Some c \<Rightarrow>
          if \<not> isAlive c
          then let d = (r_dest r)\<lparr>Online := False\<rparr>
               in if d_Spool d
                  then r\<lparr>r_dest := d, r_conn := None, r_spool := Ingest (fst (getRedo c)) (r_spool r)\<rparr>
                  else r\<lparr>r_dest := d, r_conn := None\<rparr>
          else r)"

definition can_unspool :: "Relay \<Rightarrow> bool" where
  "can_unspool r \<longleftrightarrow> r_conn r \<noteq> None \<and> d_Spool (r_dest r) \<and> \<not> SlowLastLoop (r_dest r) \<and> \<not> SlowNow (r_dest r)"

definition nonBlockingSend :: "bytes \<Rightarrow> Conn \<Rightarrow> Relay \<Rightarrow> Relay \<times> fate" where
  "nonBlockingSend buf c r =
     (case conn_send buf c of
        Some c' \<Rightarrow> (r\<lparr>r_conn := Some c'\<rparr>, ToConn buf)
      | None \<Rightarrow> (r\<lparr>r_dest := (r_dest r)\<lparr>numDropSlowConn := numDropSlowConn (r_dest r) + 1, SlowNow := True\<rparr>\<rparr>,
                 DroppedSlowConn buf))"

definition nonBlockingSpool :: "bytes \<Rightarrow> Relay \<Rightarrow> Relay \<times> fate" where
  "nonBlockingSpool buf r =
     (if length (InRT (r_spool r)) < 10
      then (r\<lparr>r_spool := (r_spool r)\<lparr>InRT := InRT (r_spool r) @ [buf]\<rparr>\<rparr>, ToSpool buf)
      else (r\<lparr>r_dest := (r_dest r)\<lparr>numDropSlowSpool := numDropSlowSpool (r_dest r) + 1\<rparr>\<rparr>, DroppedSlowSpool buf))"

fun relay_select :: "(Datapoint \<Rightarrow> bytes) \<Rightarrow> relay_event \<Rightarrow> Relay \<Rightarrow> Relay \<times> fate" where
  "relay_select encode SetSignal r = (r\<lparr>r_signal := Some False\<rparr>, NoMetric)"
| "relay_select encode (InConnUpdate b) r =
     (r\<lparr>numConnUpdates := numConnUpdates r + (if b then 1 else - 1)\<rparr>, NoMetric)"
| "relay_select encode (ConnUpdate newConn) r =
     (r\<lparr>r_conn := Some newConn,
        r_dest := (r_dest r)\<lparr>Online := True, SlowLastLoop := False, SlowNow := False\<rparr>,
        r_signal := map_option (\<lambda>_. True) (r_signal r)\<rparr>, NoMetric)"
| "relay_select encode ReconnTick r =
     (r\<lparr>r_connecting := r_connecting r \<or> (r_conn r = None \<and> numConnUpdates r = 0),
        r_dest := (r_dest r)\<lparr>SlowLastLoop := SlowNow (r_dest r), SlowNow := False\<rparr>\<rparr>, NoMetric)"
| "relay_select encode FlushReq r =
     (case r_conn r of
        None \<Rightarrow> (r, NoMetric)
      | Some c \<Rightarrow> (r\<lparr>r_conn := Some (conn_step encode ManualFlush c)\<rparr>, NoMetric))"
| "relay_select encode ShutdownReq r =
     (case r_conn r of
        None \<Rightarrow> (r\<lparr>r_stopped := True\<rparr>, NoMetric)
      | Some c \<Rightarrow> (r\<lparr>r_conn := Some (conn_close (conn_step encode ManualFlush c)), r_stopped := True\<rparr>, NoMetric))"
| "relay_select encode (Unspool buf) r =
     (case r_conn r of
        Some c \<Rightarrow> if can_unspool r then nonBlockingSend buf c r else (r, NoMetric)
      | None \<Rightarrow> (r, NoMetric))"
| "relay_select encode (Recv buf) r =
     (case r_conn r of
        Some c \<Rightarrow> nonBlockingSend buf c r
      | None \<Rightarrow>
          if d_Spool (r_dest r) then nonBlockingSpool buf r
          else (r\<lparr>r_dest := (r_dest r)\<lparr>numDropNoConnNoSpool := numDropNoConnNoSpool (r_dest r) + 1\<rparr>\<rparr>,
                DroppedNoConn buf))"
| "relay_select encode (ConnTurn e) r =
     (case r_conn r of None \<Rightarrow> (r, NoMetric) | Some c \<Rightarrow> (r\<lparr>r_conn := Some (conn_step encode e c)\<rparr>, NoMetric))"

text \<open>\<open>r_signal\<close> is the channel that is closed when a connection comes online: none, open or closed.
  It is not forgotten, so that the next connection closes it again, which panics.\<close>

definition relay_step :: "(Datapoint \<Rightarrow> bytes) \<Rightarrow> relay_event \<Rightarrow> Relay \<Rightarrow> (Relay \<times> fate) outcome" where
  "relay_step encode e r =
     (if r_stopped r then Ok (r, NoMetric)
      else case e of
             ConnUpdate c \<Rightarrow>
               if r_signal r = Some True then Panic (ExplicitPanic ''close of closed channel'')
               else Ok (relay_select encode e (relay_top r))
           | _ \<Rightarrow> Ok (relay_select encode e (relay_top r)))"

fun relay_run :: "(Datapoint \<Rightarrow> bytes) \<Rightarrow> relay_event list \<Rightarrow> Relay \<Rightarrow> (Relay \<times> fate list) outcome" where
  "relay_run encode [] r = Ok (r, [])"
| "relay_run encode (e # es) r =
     (case relay_step encode e r of
        Panic p \<Rightarrow> Panic p
      | Ok (r1, f) \<Rightarrow>
          (case relay_run encode es r1 of Panic p \<Rightarrow> Panic p | Ok (r2, fs) \<Rightarrow> Ok (r2, f # fs)))"

end
