(* ===== verification/Route_Hashing.thy ===== *)
theory Route_Hashing
  imports Dest_Destination Go_Hash "HOL-Library.Product_Lexorder"
begin

text \<open>
  \<^verbatim>\<open>route/consistent_hashing.go\<close>: the ring of the consistent hashing routes, compatible with
  Carbon's. Every destination has \<open>replicaCount\<close> entries; a key goes to the first entry at or after
  its own position, or to the first of the ring. The repair loop of \<open>withFix\<close> is given fuel for
  the 65536 positions: it comes back to where it started after that many steps, so that running out
  of it (\<open>None\<close>) is the loop that never ends. Entries that compare equal keep their order here; Go's
  sort leaves it open.
\<close>

record hashRingEntry =
  Position :: uint16
  Hostname :: bytes
  re_Instance :: bytes
  DestinationIndex :: nat

definition ring_order :: "hashRingEntry \<Rightarrow> uint16 \<times> bytes \<times> bytes" where
  "ring_order e = (Position e, Hostname e, re_Instance e)"

definition Less :: "hashRingEntry \<Rightarrow> hashRingEntry \<Rightarrow> bool" where
  "Less a b \<longleftrightarrow> Position a < Position b \<or>
     (Position a = Position b \<and> Hostname a < Hostname b) \<or>
     (Position a = Position b \<and> Hostname a = Hostname b \<and> re_Instance a < re_Instance b)"

text \<open>Insertion sort by \<open>Less\<close>, stable.\<close>

fun ring_insert :: "hashRingEntry \<Rightarrow> hashRingEntry list \<Rightarrow> hashRingEntry list" where
  "ring_insert e [] = [e]"
| "ring_insert e (x # xs) = (if Less x e then x # ring_insert e xs else e # x # xs)"

definition ring_sort :: "hashRingEntry list \<Rightarrow> hashRingEntry list" where
  "ring_sort es = foldr ring_insert es []"

record ConsistentHasher =
  Ring :: "hashRingEntry list"
  destinations :: "Destination list"
  replicaCount :: nat
  withFix :: bool

definition computeRingPosition :: "bytes \<Rightarrow> uint16" where
  "computeRingPosition key = word_of_int (be_val (take 2 (md5_Sum key)))"

definition server_of :: "Destination \<Rightarrow> bytes" where
  "server_of d = hd (go_split (Addr d) '':'')"

definition ring_key :: "Destination \<Rightarrow> nat \<Rightarrow> bytes" where
  "ring_key d i =
     ''('' @ [CHR 0x27] @ server_of d @ [CHR 0x27] @ '', '' @
     (if Instance d \<noteq> [] then [CHR 0x27] @ Instance d @ [CHR 0x27] else ''None'') @
     '')'' @ '':'' @ format_nat i"

fun bump :: "nat \<Rightarrow> hashRingEntry list \<Rightarrow> uint16 \<Rightarrow> uint16 option" where
  "bump 0 ring position = None"
| "bump (Suc fuel) ring position =
     (if \<exists>e \<in> set ring. position = Position e then bump fuel ring (position + 1) else Some position)"

definition ring_entry :: "ConsistentHasher \<Rightarrow> Destination \<Rightarrow> nat \<Rightarrow> hashRingEntry option" where
  "ring_entry h d i =
     (let position = computeRingPosition (ring_key d i);
          mk = (\<lambda>p. \<lparr>Position = p, Hostname = server_of d, re_Instance = Instance d,
                     DestinationIndex = length (destinations h)\<rparr>)
      in if withFix h then map_option mk (bump 65536 (Ring h) position) else Some (mk position))"

definition AddDestination :: "Destination \<Rightarrow> ConsistentHasher \<Rightarrow> ConsistentHasher option" where
  "AddDestination d h =
     (let entries = map (ring_entry h d) [0..<replicaCount h]
      in if None \<in> set entries then None
         else Some (h\<lparr>destinations := destinations h @ [d],
                      Ring := ring_sort (Ring h @ map the entries)\<rparr>))"

fun add_all :: "Destination list \<Rightarrow> ConsistentHasher \<Rightarrow> ConsistentHasher option" where
  "add_all [] h = Some h"
| "add_all (d # ds) h = (case AddDestination d h of None \<Rightarrow> None | Some h' \<Rightarrow> add_all ds h')"

definition NewConsistentHasherReplicaCount :: "Destination list \<Rightarrow> nat \<Rightarrow> bool \<Rightarrow> ConsistentHasher option" where
  "NewConsistentHasherReplicaCount dests replicas fixd =
     add_all dests \<lparr>Ring = [], destinations = [], replicaCount = replicas, withFix = fixd\<rparr>"

definition NewConsistentHasher :: "Destination list \<Rightarrow> bool \<Rightarrow> ConsistentHasher option" where
  "NewConsistentHasher dests fixd = NewConsistentHasherReplicaCount dests 100 fixd"

text \<open>\<open>sort.Search\<close>: binary search on \<open>[lo, hi)\<close>.\<close>

function go_search :: "nat \<Rightarrow> nat \<Rightarrow> (nat \<Rightarrow> bool) \<Rightarrow> nat" where
  "go_search lo hi f =
     (if lo < hi
      then let h = (lo + hi) div 2 in if \<not> f h then go_search (h + 1) hi f else go_search lo h f
      else lo)"
  by pat_completeness auto
termination by (relation "measure (\<lambda>(lo, hi, f). hi - lo)") auto

declare go_search.simps [simp del]

definition GetDestinationIndex :: "bytes \<Rightarrow> ConsistentHasher \<Rightarrow> nat outcome" where
  "GetDestinationIndex key h =
     (let position = computeRingPosition key;
          n = length (Ring h)
      in if n = 0 then Panic DivisionByZero
         else
           let index = go_search 0 n (\<lambda>i. Position (Ring h ! i) \<ge> position) mod n
           in Ok (DestinationIndex (Ring h ! index)))"

subsection \<open>Binary search\<close>

lemma go_search_first:
  "lo \<le> hi \<Longrightarrow> \<forall>i j. lo \<le> i \<longrightarrow> i \<le> j \<longrightarrow> j < hi \<longrightarrow> f i \<longrightarrow> f j \<Longrightarrow>
     lo \<le> go_search lo hi f \<and> go_search lo hi f \<le> hi \<and>
     (\<forall>i. lo \<le> i \<longrightarrow> i < go_search lo hi f \<longrightarrow> \<not> f i) \<and>
     (go_search lo hi f < hi \<longrightarrow> f (go_search lo hi f))"
proof (induction lo hi f rule: go_search.induct)
  case (1 lo hi f)
  show ?case
  proof (cases "lo < hi")
    case False
    then have "go_search lo hi f = lo" by (subst go_search.simps) simp
    then show ?thesis using 1(3) False by simp
  next
    case True
    define h where "h = (lo + hi) div 2"
    have h: "lo \<le> h" "h < hi" using True by (auto simp: h_def)
    show ?thesis
    proof (cases "f h")
      case False
      have st: "go_search lo hi f = go_search (h + 1) hi f"
        by (subst go_search.simps) (simp add: True Let_def h_def [symmetric] False)
      have low: "\<not> f i" if "lo \<le> i" "i \<le> h" for i using 1(4) False h that by blast
      have m: "\<forall>i j. h + 1 \<le> i \<longrightarrow> i \<le> j \<longrightarrow> j < hi \<longrightarrow> f i \<longrightarrow> f j"
      proof (intro allI impI)
        fix i j assume a: "h + 1 \<le> i" "i \<le> j" "j < hi" "f i"
        then have "lo \<le> i" using h(1) by simp
        then show "f j" using 1(4) a by blast
      qed
      have "h + 1 \<le> hi" using h(2) by simp
      note IH = 1(1) [OF True h_def False this m]
      have "\<not> f i" if "lo \<le> i" "i < go_search (h + 1) hi f" for i
        using low [of i] IH that by (cases "i \<le> h") auto
      then show ?thesis using IH h unfolding st by auto
    next
      case True
      have st: "go_search lo hi f = go_search lo h f"
        by (subst go_search.simps) (simp add: \<open>lo < hi\<close> Let_def h_def [symmetric] True)
      have m: "\<forall>i j. lo \<le> i \<longrightarrow> i \<le> j \<longrightarrow> j < h \<longrightarrow> f i \<longrightarrow> f j"
      proof (intro allI impI)
        fix i j assume a: "lo \<le> i" "i \<le> j" "j < h" "f i"
        then have "j < hi" using h(2) by simp
        then show "f j" using 1(4) a by blast
      qed
      have "\<not> \<not> f h" using True by simp
      note IH = 1(2) [OF \<open>lo < hi\<close> h_def this h(1) m]
      then show ?thesis using h True unfolding st by (cases "go_search lo h f = h") auto
    qed
  qed
qed

subsection \<open>The ring is sorted\<close>

lemma Less_order: "Less a b \<longleftrightarrow> ring_order a < ring_order b"
  by (auto simp: Less_def ring_order_def less_prod_def)

definition ring_sorted :: "hashRingEntry list \<Rightarrow> bool" where
  "ring_sorted es \<longleftrightarrow> sorted_wrt (\<lambda>a b. \<not> Less b a) es"

lemma not_Less_trans: "\<not> Less b a \<Longrightarrow> \<not> Less c b \<Longrightarrow> \<not> Less c a"
  unfolding Less_order not_less by (rule order_trans)

lemma not_Less_Position: "\<not> Less b a \<Longrightarrow> Position a \<le> Position b"
  by (auto simp: Less_def not_less)

lemma set_ring_insert [simp]: "set (ring_insert e xs) = insert e (set xs)"
  by (induction xs) auto

lemma length_ring_insert [simp]: "length (ring_insert e xs) = Suc (length xs)"
  by (induction xs) auto

lemma ring_insert_sorted: "ring_sorted xs \<Longrightarrow> ring_sorted (ring_insert e xs)"
proof (induction xs)
  case (Cons x xs)
  then show ?case
    by (auto simp: ring_sorted_def Less_order)
qed (simp add: ring_sorted_def)

lemma ring_sort_sorted: "ring_sorted (ring_sort es)"
  by (induction es) (simp_all add: ring_sort_def ring_insert_sorted, simp add: ring_sorted_def)

lemma set_ring_sort [simp]: "set (ring_sort es) = set es"
  by (induction es) (simp_all add: ring_sort_def)

lemma length_ring_sort [simp]: "length (ring_sort es) = length es"
  by (induction es) (simp_all add: ring_sort_def)

lemma ring_insert_hd: "ring_sorted (e # xs) \<Longrightarrow> ring_insert e xs = e # xs"
  by (cases xs) (auto simp: ring_sorted_def)

lemma ring_sort_id: "ring_sorted es \<Longrightarrow> ring_sort es = es"
proof (induction es)
  case (Cons e es)
  then have "ring_sort es = es" by (simp add: ring_sorted_def)
  then show ?case using ring_insert_hd [OF Cons(2)] by (simp add: ring_sort_def)
qed (simp add: ring_sort_def)

lemma filter_ring_insert:
  "ring_sorted xs \<Longrightarrow> filter P (ring_insert e xs) = (if P e then ring_insert e (filter P xs) else filter P xs)"
proof (induction xs)
  case (Cons x xs)
  have s: "ring_sorted xs" "\<forall>y \<in> set xs. \<not> Less y x" using Cons(2) by (auto simp: ring_sorted_def)
  show ?case
  proof (cases "Less x e")
    case True
    then show ?thesis using Cons.IH [OF s(1)] by auto
  next
    case False
    have "ring_insert e (filter P (x # xs)) = e # filter P (x # xs)"
    proof (cases "filter P (x # xs)")
      case (Cons y ys)
      then have "y \<in> set (x # xs)" by (metis filter_is_subset list.set_intros(1) subsetD)
      then have "\<not> Less y e" using False s(2) not_Less_trans by auto
      then show ?thesis using Cons by simp
    qed simp
    then show ?thesis using False by simp
  qed
qed simp

lemma filter_ring_sort: "filter P (ring_sort es) = ring_sort (filter P es)"
proof (induction es)
  case (Cons e es)
  then show ?case using filter_ring_insert [OF ring_sort_sorted, of P e es] by (simp add: ring_sort_def)
qed (simp add: ring_sort_def)

subsection \<open>Where a key goes\<close>

text \<open>The specification: the first entry at or after a position, else the first of the ring.\<close>

definition ring_lookup :: "hashRingEntry list \<Rightarrow> uint16 \<Rightarrow> hashRingEntry" where
  "ring_lookup ring p = (case find (\<lambda>e. p \<le> Position e) ring of Some e \<Rightarrow> e | None \<Rightarrow> hd ring)"

lemma sorted_Position: "ring_sorted es \<Longrightarrow> i \<le> j \<Longrightarrow> j < length es \<Longrightarrow> Position (es ! i) \<le> Position (es ! j)"
  unfolding ring_sorted_def sorted_wrt_iff_nth_less
  by (cases "i = j") (auto intro!: not_Less_Position)

lemma find_nth_first:
  "i < length xs \<Longrightarrow> P (xs ! i) \<Longrightarrow> (\<forall>j < i. \<not> P (xs ! j)) \<Longrightarrow> find P xs = Some (xs ! i)"
  by (metis find_Some_iff)

lemma GetDestinationIndex_lookup:
  assumes "ring_sorted (Ring h)" "Ring h \<noteq> []"
  shows "GetDestinationIndex key h = Ok (DestinationIndex (ring_lookup (Ring h) (computeRingPosition key)))"
proof -
  let ?r = "Ring h" and ?p = "computeRingPosition key"
  let ?f = "\<lambda>i. Position (?r ! i) \<ge> ?p"
  define k where "k = go_search 0 (length ?r) ?f"
  have mono: "\<forall>i j. 0 \<le> i \<longrightarrow> i \<le> j \<longrightarrow> j < length ?r \<longrightarrow> ?f i \<longrightarrow> ?f j"
    using sorted_Position [OF assms(1)] by (meson order_trans)
  have k: "k \<le> length ?r" "\<forall>i < k. \<not> ?f i" "k < length ?r \<longrightarrow> ?f k"
    using go_search_first [OF _ mono] by (simp_all add: k_def)
  have "?r ! (k mod length ?r) = ring_lookup ?r ?p"
  proof (cases "k < length ?r")
    case True
    then show ?thesis
      using find_nth_first [of k ?r "\<lambda>e. ?p \<le> Position e"] k by (simp add: ring_lookup_def)
  next
    case False
    then have "k = length ?r" using k(1) by simp
    then have "\<forall>e \<in> set ?r. \<not> ?p \<le> Position e" using k(2) by (auto simp: in_set_conv_nth)
    then have "find (\<lambda>e. ?p \<le> Position e) ?r = None" by (simp add: find_None_iff)
    then show ?thesis using \<open>k = length ?r\<close> assms(2) by (simp add: ring_lookup_def hd_conv_nth)
  qed
  then show ?thesis
    using assms(2) by (simp add: GetDestinationIndex_def Let_def k_def)
qed

lemma ring_lookup_in: "ring \<noteq> [] \<Longrightarrow> ring_lookup ring p \<in> set ring"
  by (auto simp: ring_lookup_def find_Some_iff split: option.splits)

lemma find_filter:
  "find Q xs = Some e \<Longrightarrow> P e \<Longrightarrow> find Q (filter P xs) = Some e"
  by (induction xs) (auto split: if_splits)

lemma find_filter_None: "find Q xs = None \<Longrightarrow> find Q (filter P xs) = None"
  by (auto simp: find_None_iff)

lemma ring_lookup_filter:
  assumes "xs \<noteq> []" "P (ring_lookup xs p)"
  shows "ring_lookup (filter P xs) p = ring_lookup xs p"
proof (cases "find (\<lambda>e. p \<le> Position e) xs")
  case None
  then have "P (hd xs)" using assms(2) by (simp add: ring_lookup_def)
  then have "hd (filter P xs) = hd xs" using assms(1) by (cases xs) auto
  then show ?thesis using None find_filter_None [OF None, of P] by (simp add: ring_lookup_def)
next
  case (Some e)
  then show ?thesis using find_filter [OF Some, of P] assms(2) by (simp add: ring_lookup_def)
qed

subsection \<open>The invariant of the hasher\<close>

definition hasher_wf :: "ConsistentHasher \<Rightarrow> bool" where
  "hasher_wf h \<longleftrightarrow> ring_sorted (Ring h) \<and> length (Ring h) = replicaCount h * length (destinations h) \<and>
     (\<forall>e \<in> set (Ring h). DestinationIndex e < length (destinations h))"

lemma ring_entry_fields:
  "ring_entry h d i = Some e \<Longrightarrow>
     DestinationIndex e = length (destinations h) \<and> Hostname e = server_of d \<and> re_Instance e = Instance d"
  by (auto simp: ring_entry_def Let_def split: if_splits)

lemma AddDestination_facts:
  assumes "AddDestination d h = Some h'"
  shows "destinations h' = destinations h @ [d]" "replicaCount h' = replicaCount h" "withFix h' = withFix h"
    "\<exists>es. Ring h' = ring_sort (Ring h @ es) \<and> length es = replicaCount h \<and>
       (\<forall>e \<in> set es. \<exists>i. ring_entry h d i = Some e)"
proof -
  let ?es = "map (ring_entry h d) [0..<replicaCount h]"
  have n: "None \<notin> set ?es" and h': "h' = h\<lparr>destinations := destinations h @ [d], Ring := ring_sort (Ring h @ map the ?es)\<rparr>"
    using assms by (auto simp: AddDestination_def Let_def split: if_splits)
  show "destinations h' = destinations h @ [d]" "replicaCount h' = replicaCount h" "withFix h' = withFix h"
    using h' by simp_all
  have "\<exists>i. ring_entry h d i = Some e" if e: "e \<in> set (map the ?es)" for e
  proof -
    obtain i where i: "i \<in> {0..<replicaCount h}" "e = the (ring_entry h d i)" using e by auto
    then have "ring_entry h d i \<noteq> None" using n by (metis image_eqI list.set_map set_upt)
    then show ?thesis using i(2) by auto
  qed
  then show "\<exists>es. Ring h' = ring_sort (Ring h @ es) \<and> length es = replicaCount h \<and>
       (\<forall>e \<in> set es. \<exists>i. ring_entry h d i = Some e)"
    using h' by (intro exI [of _ "map the ?es"]) auto
qed

lemma AddDestination_simple:
  "AddDestination d h = Some h' \<Longrightarrow>
     destinations h' = destinations h @ [d] \<and> replicaCount h' = replicaCount h \<and> withFix h' = withFix h"
  using AddDestination_facts(1-3) by blast

lemma AddDestination_nofix: "\<not> withFix h \<Longrightarrow> \<exists>h'. AddDestination d h = Some h' \<and> \<not> withFix h'"
  by (auto simp: AddDestination_def ring_entry_def Let_def)

lemma AddDestination_wf:
  assumes "hasher_wf h" "AddDestination d h = Some h'" shows "hasher_wf h'"
proof -
  note f = AddDestination_facts [OF assms(2)]
  obtain es where es: "Ring h' = ring_sort (Ring h @ es)" "length es = replicaCount h"
      "\<forall>e \<in> set es. \<exists>i. ring_entry h d i = Some e"
    using f(4) by blast
  have "DestinationIndex e < length (destinations h')" if "e \<in> set (Ring h')" for e
    using that es assms(1) f(1) ring_entry_fields by (fastforce simp: hasher_wf_def)
  then show ?thesis
    using assms(1) es f by (simp add: hasher_wf_def ring_sort_sorted)
qed

lemma add_all_induct:
  assumes "add_all ds h = Some h'" "P h"
    and "\<And>d h h'. P h \<Longrightarrow> AddDestination d h = Some h' \<Longrightarrow> P h'"
  shows "P h'"
  using assms(1,2)
  by (induction ds h rule: add_all.induct) (auto split: option.splits intro: assms(3))

lemma add_all_destinations:
  "add_all ds h = Some h' \<Longrightarrow> destinations h' = destinations h @ ds \<and> replicaCount h' = replicaCount h \<and> withFix h' = withFix h"
  by (induction ds h rule: add_all.induct) (auto split: option.splits dest!: AddDestination_simple)

lemma NewConsistentHasher_wf:
  assumes "NewConsistentHasherReplicaCount ds n fx = Some h"
  shows "hasher_wf h" "destinations h = ds" "replicaCount h = n" "withFix h = fx"
proof -
  have add: "add_all ds \<lparr>Ring = [], destinations = [], replicaCount = n, withFix = fx\<rparr> = Some h"
    using assms by (simp add: NewConsistentHasherReplicaCount_def)
  have "hasher_wf \<lparr>Ring = [], destinations = [], replicaCount = n, withFix = fx\<rparr>"
    by (simp add: hasher_wf_def ring_sorted_def)
  then show "hasher_wf h" using add_all_induct [OF add, of hasher_wf] AddDestination_wf by blast
  show "destinations h = ds" "replicaCount h = n" "withFix h = fx"
    using add_all_destinations [OF add] by simp_all
qed

subsection \<open>The repair of collisions\<close>

lemma bump_free: "bump fuel ring p = Some q \<Longrightarrow> \<forall>e \<in> set ring. Position e \<noteq> q"
  by (induction fuel ring p rule: bump.induct) (auto split: if_splits)

lemma bump_None: "bump fuel ring p = None \<Longrightarrow> \<forall>k < fuel. p + of_nat k \<in> Position ` set ring"
proof (induction fuel ring p rule: bump.induct)
  case (2 fuel ring p)
  then have "p \<in> Position ` set ring" "\<forall>k < fuel. p + 1 + of_nat k \<in> Position ` set ring"
    by (auto split: if_splits)
  then show ?case
    by (auto simp: less_Suc_eq_0_disj algebra_simps)
qed simp

text \<open>The fuel is enough: it runs out only when all 65536 positions are taken.\<close>

lemma bump_enough:
  assumes "bump 65536 ring p = None" shows "65536 \<le> length ring"
proof -
  have "w \<in> Position ` set ring" for w :: uint16
  proof -
    have "unat (w - p) < 65536" using unsigned_less [of "w - p", where ?'a = nat] by simp
    moreover have "p + of_nat (unat (w - p)) = w" by simp
    ultimately show ?thesis using bump_None [OF assms] by metis
  qed
  then have "UNIV = Position ` set ring" by blast
  then have "card (UNIV :: uint16 set) \<le> length ring"
    by (metis card_image_le card_length finite_set le_trans)
  then show ?thesis by (simp add: card_word)
qed

definition positions_apart :: "ConsistentHasher \<Rightarrow> bool" where
  "positions_apart h \<longleftrightarrow> (\<forall>e \<in> set (Ring h). \<forall>e' \<in> set (Ring h).
     DestinationIndex e \<noteq> DestinationIndex e' \<longrightarrow> Position e \<noteq> Position e')"

lemma AddDestination_apart:
  assumes "withFix h" "positions_apart h" "AddDestination d h = Some h'"
  shows "positions_apart h'"
proof -
  obtain es where es: "Ring h' = ring_sort (Ring h @ es)" "\<forall>e \<in> set es. \<exists>i. ring_entry h d i = Some e"
    using AddDestination_facts(4) [OF assms(3)] by blast
  have new: "Position e \<noteq> Position e'" if "e \<in> set es" "e' \<in> set (Ring h)" for e e'
    using that es(2) bump_free assms(1) by (fastforce simp: ring_entry_def Let_def)
  have "DestinationIndex e = length (destinations h)" if "e \<in> set es" for e
    using that es(2) ring_entry_fields by blast
  then show ?thesis using new assms(2) es(1) by (fastforce simp: positions_apart_def)
qed

lemma AddDestination_returns: "length (Ring h) < 65536 \<Longrightarrow> AddDestination d h \<noteq> None"
  using bump_enough [of "Ring h"] by (auto simp: AddDestination_def ring_entry_def Let_def split: if_splits)

subsection \<open>Properties\<close>

text \<open>C16: every key has a destination: on a ring with entries the binary search finds the first entry at
  or after the position of the key, wrapping to the first of the ring, and its index is that of
  one of the destinations; without destinations the lookup divides by zero.\<close>

theorem key_goes_to_first_entry:
  assumes "NewConsistentHasherReplicaCount ds n fx = Some h"
  shows "if ds = [] \<or> n = 0 then GetDestinationIndex key h = Panic DivisionByZero
    else GetDestinationIndex key h = Ok (DestinationIndex (ring_lookup (Ring h) (computeRingPosition key))) \<and>
      DestinationIndex (ring_lookup (Ring h) (computeRingPosition key)) < length ds"
proof -
  note wf = NewConsistentHasher_wf [OF assms]
  have len: "length (Ring h) = n * length ds" using wf by (simp add: hasher_wf_def)
  show ?thesis
  proof (cases "ds = [] \<or> n = 0")
    case True
    then have "Ring h = []" using len by auto
    then show ?thesis using True by (simp add: GetDestinationIndex_def)
  next
    case False
    then have ne: "Ring h \<noteq> []" using len by auto
    then show ?thesis
      using GetDestinationIndex_lookup [of h key] wf ring_lookup_in [OF ne] False by (auto simp: hasher_wf_def)
  qed
qed

definition ring_dest :: "bytes \<Rightarrow> Destination" where
  "ring_dest addr = dest_New ''r'' (fst (matcher_New [] [] [] [] [] [])) addr ''/s'' False False 1 1 1 1 1 1 1 1 1 1"

lemma NewConsistentHasher_nofix: "\<exists>h. NewConsistentHasherReplicaCount ds n False = Some h"
proof -
  have "\<not> withFix h \<Longrightarrow> \<exists>h'. add_all ds h = Some h'" for h
  proof (induction ds arbitrary: h)
    case (Cons d ds)
    obtain h1 where "AddDestination d h = Some h1" "\<not> withFix h1" using AddDestination_nofix [OF Cons(2)] by blast
    then show ?case using Cons.IH [of h1] by simp
  qed simp
  then show ?thesis by (simp add: NewConsistentHasherReplicaCount_def)
qed

theorem key_goes_to_first_entry_witness:
  "\<exists>h. NewConsistentHasherReplicaCount [ring_dest ''h1:2003'', ring_dest ''h2:2003''] 3 False = Some h \<and>
    (\<exists>i < 2. GetDestinationIndex ''foo.bar'' h = Ok i)"
proof -
  obtain h where h: "NewConsistentHasherReplicaCount [ring_dest ''h1:2003'', ring_dest ''h2:2003''] 3 False = Some h"
    using NewConsistentHasher_nofix by blast
  from key_goes_to_first_entry [OF h, of "''foo.bar''"] h show ?thesis by auto
qed



text \<open>with the repair of collisions no two destinations share a position on the ring, and the repair
  always ends unless the ring already has as many entries as there are positions.\<close>

theorem repaired_ring_has_no_collisions:
  assumes "NewConsistentHasherReplicaCount ds n True = Some h"
  shows "positions_apart h \<and> (length (Ring h) < 65536 \<longrightarrow> AddDestination d h \<noteq> None)"
proof -
  have "add_all ds \<lparr>Ring = [], destinations = [], replicaCount = n, withFix = True\<rparr> = Some h"
    using assms by (simp add: NewConsistentHasherReplicaCount_def)
  then have "positions_apart h \<and> withFix h"
  proof (rule add_all_induct)
    fix d h h' assume "positions_apart h \<and> withFix h" "AddDestination d h = Some h'"
    then show "positions_apart h' \<and> withFix h'" using AddDestination_apart AddDestination_facts(3) by blast
  qed (simp add: positions_apart_def)
  then show ?thesis using AddDestination_returns by blast
qed

theorem repaired_ring_has_no_collisions_witness:
  "\<exists>h. NewConsistentHasherReplicaCount [] 3 True = Some h \<and> positions_apart h \<and> AddDestination (ring_dest ''h1:2003'') h \<noteq> None"
proof -
  have h: "NewConsistentHasherReplicaCount [] 3 True = Some \<lparr>Ring = [], destinations = [], replicaCount = 3, withFix = True\<rparr>"
    by (simp add: NewConsistentHasherReplicaCount_def)
  from repaired_ring_has_no_collisions [OF this, of "ring_dest ''h1:2003''"] h show ?thesis by simp
qed

text \<open>C33: The construction of a ring returns, with or without the repair, as long as the ring has a free position
  before its last destination is added: with 100 replicas, for up to 656 destinations. Every destination has its number
  of entries.\<close>

theorem ring_construction_returns:
  assumes "(length ds - 1) * n < 65536"
  shows "\<exists>h. NewConsistentHasherReplicaCount ds n fx = Some h \<and> length (Ring h) = length ds * n \<and>
    (\<forall>i < length ds. length (filter (\<lambda>e. DestinationIndex e = i) (Ring h)) = n)"
proof -
  define P where "P = (\<lambda>h :: ConsistentHasher. length (Ring h) = length (destinations h) * replicaCount h \<and>
    (\<forall>i. length (filter (\<lambda>e. DestinationIndex e = i) (Ring h)) = (if i < length (destinations h) then replicaCount h else 0)))"
  have step: "P h'" if h: "P h" "AddDestination d h = Some h'" for d h h'
  proof -
    obtain es where es: "Ring h' = ring_sort (Ring h @ es)" "length es = replicaCount h"
        "\<forall>e \<in> set es. \<exists>i. ring_entry h d i = Some e"
      using AddDestination_facts(4) [OF h(2)] by blast
    have "filter (\<lambda>e. DestinationIndex e = i) es = (if i = length (destinations h) then es else [])" for i
      using es(3) ring_entry_fields by (fastforce intro: filter_True filter_False)
    then show ?thesis
      using h(1) es AddDestination_facts(1,2) [OF h(2)] by (auto simp: P_def filter_ring_sort)
  qed
  have "\<exists>h'. add_all ds h = Some h' \<and> P h'"
    if "P h" "(length (destinations h) + length ds - 1) * replicaCount h < 65536" for h
    using that
  proof (induction ds arbitrary: h)
    case (Cons d ds)
    then have "length (Ring h) \<le> (length (destinations h) + length (d # ds) - 1) * replicaCount h"
      by (simp add: P_def)
    with Cons.prems obtain h1 where h1: "AddDestination d h = Some h1"
      using AddDestination_returns [of h d] by fastforce
    have "(length (destinations h1) + length ds - 1) * replicaCount h1 < 65536"
      using Cons.prems(2) AddDestination_simple [OF h1] by simp
    then show ?case using Cons.IH [OF step [OF Cons.prems(1) h1]] h1 by simp
  qed simp
  from this [of "\<lparr>Ring = [], destinations = [], replicaCount = n, withFix = fx\<rparr>"] assms
  obtain h where h: "NewConsistentHasherReplicaCount ds n fx = Some h" "P h"
    by (auto simp: P_def NewConsistentHasherReplicaCount_def)
  then show ?thesis using NewConsistentHasher_wf [OF h(1)] by (auto simp: P_def)
qed

theorem ring_construction_returns_witness:
  "\<exists>h. NewConsistentHasherReplicaCount [ring_dest ''h1:2003'', ring_dest ''h2:2003''] 100 True = Some h \<and> length (Ring h) = 200"
  using ring_construction_returns [of "[ring_dest ''h1:2003'', ring_dest ''h2:2003'']" 100 True] by auto

end
