(* ===== verification/Route_Route.thy ===== *)
theory Route_Route
  imports Route_Hashing
begin

text \<open>
  \<^verbatim>\<open>route/route.go\<close>: the three routes of the carbon protocol and their configuration, which an
  atomic value holds. The interface \<open>Route\<close> and the embedded \<open>baseRoute\<close> are one record with a
  kind; the callbacks \<open>baseCfgExtender\<close> are \<open>extend\<close>, which rebuilds the hasher of a consistent
  hashing route. \<open>Dispatch\<close> gives the indices of the destinations that receive the line, in order.
  \<open>None\<close> inside a result is a call that does not return, as the repair loop of the hasher may.
\<close>

datatype route_kind = SendAllMatch | SendFirstMatch | ConsistentHashing

record Route =
  rt_kind :: route_kind
  rt_type :: bytes
  rt_key :: bytes
  rt_Matcher :: Matcher
  rt_Dests :: "Destination list"
  rt_Hasher :: "ConsistentHasher option"

fun run_dests :: "Destination list \<Rightarrow> Destination list outcome" where
  "run_dests [] = Ok []"
| "run_dests (d # ds) =
     (case dest_Run d of
        Panic p \<Rightarrow> Panic p
      | Ok d' \<Rightarrow> (case run_dests ds of Panic p \<Rightarrow> Panic p | Ok ds' \<Rightarrow> Ok (d' # ds')))"

definition NewSendAllMatch :: "bytes \<Rightarrow> Matcher \<Rightarrow> Destination list \<Rightarrow> Route outcome" where
  "NewSendAllMatch key m dests =
     (case run_dests dests of
        Panic p \<Rightarrow> Panic p
      | Ok ds \<Rightarrow> Ok \<lparr>rt_kind = SendAllMatch, rt_type = ''sendAllMatch'', rt_key = key, rt_Matcher = m,
                     rt_Dests = ds, rt_Hasher = None\<rparr>)"

definition NewSendFirstMatch :: "bytes \<Rightarrow> Matcher \<Rightarrow> Destination list \<Rightarrow> Route outcome" where
  "NewSendFirstMatch key m dests =
     (case run_dests dests of
        Panic p \<Rightarrow> Panic p
      | Ok ds \<Rightarrow> Ok \<lparr>rt_kind = SendFirstMatch, rt_type = ''sendFirstMatch'', rt_key = key, rt_Matcher = m,
                     rt_Dests = ds, rt_Hasher = None\<rparr>)"

definition NewConsistentHashing :: "bytes \<Rightarrow> Matcher \<Rightarrow> Destination list \<Rightarrow> bool \<Rightarrow> Route option outcome" where
  "NewConsistentHashing key m dests fixd =
     (case NewConsistentHasher dests fixd of
        None \<Rightarrow> Ok None
      | Some hasher \<Rightarrow>
          (case run_dests dests of
             Panic p \<Rightarrow> Panic p
           | Ok ds \<Rightarrow> Ok (Some \<lparr>rt_kind = ConsistentHashing,
                         rt_type = (if fixd then ''consistentHashing-v2'' else ''consistentHashing''), rt_key = key,
                         rt_Matcher = m, rt_Dests = ds, rt_Hasher = Some hasher\<rparr>)))"

subsection \<open>Dispatching\<close>

fun matching_from :: "nat \<Rightarrow> Destination list \<Rightarrow> bytes \<Rightarrow> nat list" where
  "matching_from i [] buf = []"
| "matching_from i (d # ds) buf = (if dest_Match d buf then i # matching_from (i + 1) ds buf else matching_from (i + 1) ds buf)"

fun first_matching_from :: "nat \<Rightarrow> Destination list \<Rightarrow> bytes \<Rightarrow> nat list" where
  "first_matching_from i [] buf = []"
| "first_matching_from i (d # ds) buf = (if dest_Match d buf then [i] else first_matching_from (i + 1) ds buf)"

definition rt_Dispatch :: "bytes \<Rightarrow> Route \<Rightarrow> nat list outcome" where
  "rt_Dispatch buf r =
     (case rt_kind r of
        SendAllMatch \<Rightarrow> Ok (matching_from 0 (rt_Dests r) buf)
      | SendFirstMatch \<Rightarrow> Ok (first_matching_from 0 (rt_Dests r) buf)
      | ConsistentHashing \<Rightarrow>
          (case index_byte buf CHR '' '' of
             Some pos \<Rightarrow>
               if pos > 0 then
                 (case rt_Hasher r of
                    None \<Rightarrow> Panic NilDereference
                  | Some h \<Rightarrow>
                      (case GetDestinationIndex (take pos buf) h of
                         Panic p \<Rightarrow> Panic p
                       | Ok i \<Rightarrow> if i < length (rt_Dests r) then Ok [i] else Panic IndexOutOfRange))
               else Ok []
           | None \<Rightarrow> Ok []))"

definition rt_Match :: "bytes \<Rightarrow> Route \<Rightarrow> bool" where
  "rt_Match s r = Match (rt_Matcher r) s"

fun rt_Flush :: "dest_error option list \<Rightarrow> dest_error option" where
  "rt_Flush [] = None"
| "rt_Flush (e # es) = (if e \<noteq> None then e else rt_Flush es)"

definition rt_Shutdown :: "Route \<Rightarrow> dest_error list" where
  "rt_Shutdown r = List.map_filter (\<lambda>d. snd (dest_Shutdown d)) (rt_Dests r)"

definition rt_Snapshot :: "Route \<Rightarrow> Matcher \<times> (Matcher \<times> bytes \<times> bytes \<times> bool \<times> bool \<times> bool \<times> bytes) list \<times> bytes \<times> bytes" where
  "rt_Snapshot r = (rt_Matcher r, map dest_Snapshot (rt_Dests r), rt_type r, rt_key r)"

subsection \<open>Changing the configuration\<close>

definition extend :: "Matcher \<Rightarrow> Destination list \<Rightarrow> Route \<Rightarrow> Route option" where
  "extend m ds r =
     (case rt_kind r of
        ConsistentHashing \<Rightarrow>
          (case NewConsistentHasher ds (withFix (the (rt_Hasher r))) of
             None \<Rightarrow> None
           | Some h \<Rightarrow> Some (r\<lparr>rt_Matcher := m, rt_Dests := ds, rt_Hasher := Some h\<rparr>))
      | _ \<Rightarrow> Some (r\<lparr>rt_Matcher := m, rt_Dests := ds\<rparr>))"

definition rt_Add :: "Destination \<Rightarrow> Route \<Rightarrow> Route option outcome" where
  "rt_Add d r =
     (case dest_Run d of
        Panic p \<Rightarrow> Panic p
      | Ok d' \<Rightarrow> Ok (extend (rt_Matcher r) (rt_Dests r @ [d']) r))"

definition DelDestination :: "int \<Rightarrow> Route \<Rightarrow> (Route \<times> dest_error option) option outcome" where
  "DelDestination index r =
     (if index \<ge> int (length (rt_Dests r)) then Ok (Some (r, Some (InvalidIndex index)))
      else if index < 0 then Panic IndexOutOfRange
      else Ok (map_option (\<lambda>r'. (r', None)) (extend (rt_Matcher r) (remove_nth (nat index) (rt_Dests r)) r)))"

definition GetDestination :: "int \<Rightarrow> Route \<Rightarrow> (dest_error + Destination) outcome" where
  "GetDestination index r =
     (if index \<ge> int (length (rt_Dests r)) then Ok (Inl (InvalidIndex index))
      else if index < 0 then Panic IndexOutOfRange
      else Ok (Inr (rt_Dests r ! nat index)))"

fun scan_route_opts :: "(bytes \<times> bytes) list \<Rightarrow> Matcher \<times> bool \<Rightarrow> dest_error + (Matcher \<times> bool)" where
  "scan_route_opts [] st = Inr st"
| "scan_route_opts ((name, val) # opts) (m, upd) =
     (case matcher_opt name val m of
        None \<Rightarrow> Inl (NoSuchOption name)
      | Some m' \<Rightarrow> scan_route_opts opts (m', True))"

definition rt_Update :: "(bytes \<times> bytes) list \<Rightarrow> Route \<Rightarrow> (Route \<times> dest_error option) option" where
  "rt_Update opts r =
     (case scan_route_opts opts (rt_Matcher r, False) of
        Inl err \<Rightarrow> Some (r, Some err)
      | Inr (m, updateM) \<Rightarrow>
          if updateM
          then (case rebuild_matcher m of
                  (_, Some err) \<Rightarrow> Some (r, Some (BadMatcher err))
                | (m', None) \<Rightarrow> map_option (\<lambda>r'. (r', None)) (extend m' (rt_Dests r) r))
          else Some (r, None))"

text \<open>Destinations are pointers: a failing update has changed the destination in the old configuration.\<close>

definition rt_UpdateDestination ::
  "(bytes \<Rightarrow> Sock option) \<Rightarrow> int \<Rightarrow> (bytes \<times> bytes) list \<Rightarrow> Route \<Rightarrow> (Route \<times> dest_error option) option outcome" where
  "rt_UpdateDestination dial index opts r =
     (if index \<ge> int (length (rt_Dests r)) then Ok (Some (r, Some (InvalidIndex index)))
      else if index < 0 then Panic IndexOutOfRange
      else case dest_Update dial opts (rt_Dests r ! nat index) of
             Panic p \<Rightarrow> Panic p
           | Ok (d, conn, err) \<Rightarrow>
               let ds = (rt_Dests r)[nat index := d]
               in (case err of
                     Some e \<Rightarrow> Ok (Some (r\<lparr>rt_Dests := ds\<rparr>, Some e))
                   | None \<Rightarrow> Ok (map_option (\<lambda>r'. (r', None)) (extend (rt_Matcher r) ds r))))"

definition rt_UpdateMatcher :: "Matcher \<Rightarrow> Route \<Rightarrow> Route option" where
  "rt_UpdateMatcher m r = extend m (rt_Dests r) r"

subsection \<open>The invariant of a route\<close>

definition route_wf :: "Route \<Rightarrow> bool" where
  "route_wf r \<longleftrightarrow> (case rt_kind r of
     ConsistentHashing \<Rightarrow> (\<exists>h. rt_Hasher r = Some h \<and> hasher_wf h \<and> replicaCount h = 100 \<and>
       length (destinations h) = length (rt_Dests r))
   | _ \<Rightarrow> True)"

lemma NewConsistentHasher_100:
  assumes "NewConsistentHasher ds fx = Some h"
  shows "hasher_wf h" "replicaCount h = 100" "destinations h = ds"
  using NewConsistentHasher_wf [of ds 100 fx h] assms by (simp_all add: NewConsistentHasher_def)

lemma extend_wf: "extend m ds r = Some r' \<Longrightarrow> route_wf r' \<and> rt_kind r' = rt_kind r \<and> rt_Dests r' = ds \<and> rt_Matcher r' = m"
  by (auto simp: extend_def route_wf_def NewConsistentHasher_100 split: route_kind.splits option.splits)

lemma run_dests_length: "run_dests ds = Ok ds' \<Longrightarrow> length ds' = length ds"
  by (induction ds arbitrary: ds') (auto split: outcome.splits)

datatype route_op = OpAdd Destination | OpDel int | OpUpdate "(bytes \<times> bytes) list"
  | OpUpdateDest int "(bytes \<times> bytes) list" | OpUpdateMatcher Matcher

text \<open>The route after an operation that returns.\<close>

fun apply_op :: "(bytes \<Rightarrow> Sock option) \<Rightarrow> route_op \<Rightarrow> Route \<Rightarrow> Route option outcome" where
  "apply_op dial (OpAdd d) r = rt_Add d r"
| "apply_op dial (OpDel i) r =
     (case DelDestination i r of Panic p \<Rightarrow> Panic p | Ok x \<Rightarrow> Ok (map_option fst x))"
| "apply_op dial (OpUpdate opts) r = Ok (map_option fst (rt_Update opts r))"
| "apply_op dial (OpUpdateDest i opts) r =
     (case rt_UpdateDestination dial i opts r of Panic p \<Rightarrow> Panic p | Ok x \<Rightarrow> Ok (map_option fst x))"
| "apply_op dial (OpUpdateMatcher m) r = Ok (rt_UpdateMatcher m r)"

lemma apply_op_wf:
  assumes "route_wf r" "apply_op dial op r = Ok (Some r')" shows "route_wf r'"
proof (cases op)
  case (OpUpdateDest i opts)
  have len: "route_wf (r\<lparr>rt_Dests := (rt_Dests r)[nat i := d]\<rparr>)" for d
    using assms(1) by (cases "rt_kind r") (simp_all add: route_wf_def)
  show ?thesis
    using assms OpUpdateDest len
    by (auto simp: rt_UpdateDestination_def Let_def dest: extend_wf split: if_splits outcome.splits option.splits prod.splits)
qed (use assms in \<open>auto simp: rt_Add_def DelDestination_def rt_Update_def rt_UpdateMatcher_def dest: extend_wf
      split: outcome.splits if_splits sum.splits prod.splits option.splits\<close>)

fun route_ops :: "(bytes \<Rightarrow> Sock option) \<Rightarrow> route_op list \<Rightarrow> Route \<Rightarrow> Route option outcome" where
  "route_ops dial [] r = Ok (Some r)"
| "route_ops dial (op # ops) r =
     (case apply_op dial op r of
        Panic p \<Rightarrow> Panic p
      | Ok None \<Rightarrow> Ok None
      | Ok (Some r') \<Rightarrow> route_ops dial ops r')"

lemma route_ops_wf: "route_wf r \<Longrightarrow> route_ops dial ops r = Ok (Some r') \<Longrightarrow> route_wf r' \<and> rt_kind r' = rt_kind r"
proof (induction ops arbitrary: r)
  case (Cons op ops)
  obtain r1 where 1: "apply_op dial op r = Ok (Some r1)" "route_ops dial ops r1 = Ok (Some r')"
    using Cons(3) by (auto split: outcome.splits option.splits)
  have "rt_kind r1 = rt_kind r"
    using 1(1) by (cases op)
      (auto simp: rt_Add_def DelDestination_def rt_Update_def rt_UpdateMatcher_def rt_UpdateDestination_def Let_def
        dest: extend_wf split: outcome.splits if_splits sum.splits prod.splits option.splits)
  then show ?case using Cons.IH [OF apply_op_wf [OF Cons(2) 1(1)] 1(2)] by simp
qed simp

subsection \<open>Properties\<close>

lemma matching_from_conv: "matching_from i ds buf = filter (\<lambda>j. dest_Match (ds ! (j - i)) buf) [i..<i + length ds]"
proof (induction ds arbitrary: i)
  case (Cons d ds)
  have "filter (\<lambda>j. dest_Match ((d # ds) ! (j - i)) buf) [i + 1..<i + 1 + length ds] =
      filter (\<lambda>j. dest_Match (ds ! (j - (i + 1))) buf) [i + 1..<i + 1 + length ds]"
    by (rule filter_cong) (auto simp: nth_Cons')
  then show ?case using Cons [of "i + 1"] by (simp add: upt_conv_Cons del: upt_Suc)
qed simp

lemma first_matching_from_conv: "first_matching_from i ds buf = take 1 (matching_from i ds buf)"
  by (induction ds arbitrary: i) auto

text \<open>the dispatch of the carbon routes: a \<open>sendAllMatch\<close> route hands a line to every destination that
  matches, in order, a \<open>sendFirstMatch\<close> route to the first of these.\<close>

theorem dispatch_by_matching:
  "(rt_kind r = SendAllMatch \<longrightarrow>
      rt_Dispatch buf r = Ok (filter (\<lambda>i. dest_Match (rt_Dests r ! i) buf) [0..<length (rt_Dests r)])) \<and>
   (rt_kind r = SendFirstMatch \<longrightarrow>
      rt_Dispatch buf r = Ok (take 1 (filter (\<lambda>i. dest_Match (rt_Dests r ! i) buf) [0..<length (rt_Dests r)])))"
  by (simp add: rt_Dispatch_def matching_from_conv first_matching_from_conv)

definition plain_dest :: "bytes \<Rightarrow> bytes \<Rightarrow> Destination" where
  "plain_dest prefix addr =
     dest_New ''r'' (fst (matcher_New prefix [] [] [] [] [])) addr ''/s'' False False 1000 1000 10 8 1 1 1 1 1 1"

theorem dispatch_by_matching_witness:
  "rt_Dispatch ''foo.bar 1 2'' \<lparr>rt_kind = SendFirstMatch, rt_type = ''sendFirstMatch'', rt_key = ''r'',
      rt_Matcher = fst (matcher_New [] [] [] [] [] []),
      rt_Dests = [plain_dest ''bar'' ''h1:1'', plain_dest ''foo'' ''h2:1'', plain_dest ''foo.b'' ''h3:1''], rt_Hasher = None\<rparr>
   = Ok [1]"
proof -
  let ?ds = "[plain_dest ''bar'' ''h1:1'', plain_dest ''foo'' ''h2:1'', plain_dest ''foo.b'' ''h3:1'']"
  have "filter (\<lambda>i. dest_Match (?ds ! i) ''foo.bar 1 2'') [0..<length ?ds] = [1, 2]"
    by code_simp
  then show ?thesis
    using dispatch_by_matching [of "\<lparr>rt_kind = SendFirstMatch, rt_type = ''sendFirstMatch'', rt_key = ''r'',
      rt_Matcher = fst (matcher_New [] [] [] [] [] []), rt_Dests = ?ds, rt_Hasher = None\<rparr>" "''foo.bar 1 2''"]
    by (simp del: upt_rec_numeral)
qed

lemma hashing_dispatch:
  assumes "route_wf r" "rt_kind r = ConsistentHashing" "index_byte buf CHR '' '' = Some pos" "0 < pos"
  shows "if rt_Dests r = [] then rt_Dispatch buf r = Panic DivisionByZero
    else \<exists>i < length (rt_Dests r). rt_Dispatch buf r = Ok [i]"
proof -
  from assms(1,2) obtain h where h: "rt_Hasher r = Some h" "hasher_wf h" "replicaCount h = 100"
      "length (destinations h) = length (rt_Dests r)"
    by (auto simp: route_wf_def)
  have len: "length (Ring h) = 100 * length (rt_Dests r)" using h by (simp add: hasher_wf_def)
  show ?thesis
  proof (cases "rt_Dests r = []")
    case True
    then have "Ring h = []" using len by simp
    then show ?thesis
      using True assms(2-4) h(1) by (simp add: rt_Dispatch_def GetDestinationIndex_def)
  next
    case False
    then have ne: "Ring h \<noteq> []" using len by auto
    let ?i = "DestinationIndex (ring_lookup (Ring h) (computeRingPosition (take pos buf)))"
    have "?i < length (rt_Dests r)" using ring_lookup_in [OF ne] h by (auto simp: hasher_wf_def)
    moreover have "GetDestinationIndex (take pos buf) h = Ok ?i"
      using GetDestinationIndex_lookup [OF _ ne] h(2) by (simp add: hasher_wf_def)
    ultimately show ?thesis using False assms(2-4) h(1) by (simp add: rt_Dispatch_def)
  qed
qed

text \<open>A route whose dispatch returns: a consistent hashing one has a destination.\<close>

definition route_ready :: "Route \<Rightarrow> bool" where
  "route_ready r \<longleftrightarrow> route_wf r \<and> (rt_kind r = ConsistentHashing \<longrightarrow> rt_Dests r \<noteq> [])"

lemma route_ready_dispatch:
  assumes "route_ready r"
  obtains idx where "rt_Dispatch buf r = Ok idx"
proof (cases "rt_kind r = ConsistentHashing")
  case True
  show thesis
  proof (cases "index_byte buf CHR '' ''")
    case (Some pos)
    then show thesis
      using True hashing_dispatch [of r buf pos] assms that
      by (cases "pos > 0") (auto simp: route_ready_def rt_Dispatch_def)
  qed (use True that in \<open>simp add: rt_Dispatch_def\<close>)
next
  case False
  then show thesis using that by (cases "rt_kind r") (auto simp: rt_Dispatch_def)
qed

text \<open>C18: whatever the history of additions, deletions and updates, failing ones included, a consistent
  hashing route sends each line with a key to exactly one of its destinations; but the deletion of
  the last destination is accepted, and then the next such line panics.\<close>

theorem consistent_hashing_dispatches_to_one:
  assumes "NewConsistentHashing key m dests fixd = Ok (Some r0)" and "route_ops dial ops r0 = Ok (Some r)"
    and "index_byte buf CHR '' '' = Some pos" and "0 < pos"
  shows "if rt_Dests r = [] then rt_Dispatch buf r = Panic DivisionByZero
    else \<exists>i < length (rt_Dests r). rt_Dispatch buf r = Ok [i]"
proof (rule hashing_dispatch)
  have "route_wf r0 \<and> rt_kind r0 = ConsistentHashing"
    using assms(1) by (auto simp: NewConsistentHashing_def route_wf_def NewConsistentHasher_100 run_dests_length
        split: option.splits outcome.splits)
  then show "route_wf r" "rt_kind r = ConsistentHashing" using route_ops_wf [OF _ assms(2)] by auto
qed (use assms in simp_all)

theorem consistent_hashing_dispatches_to_one_witness:
  "\<exists>r0 r. NewConsistentHashing ''k'' (fst (matcher_New [] [] [] [] [] [])) [plain_dest [] ''h1:1''] False = Ok (Some r0) \<and>
    route_ops (\<lambda>_. None) [OpDel 0] r0 = Ok (Some r) \<and> rt_Dispatch ''foo 1 2'' r = Panic DivisionByZero"
proof -
  obtain h where h: "NewConsistentHasher [plain_dest [] ''h1:1''] False = Some h"
    using NewConsistentHasher_nofix by (auto simp: NewConsistentHasher_def)
  obtain h' where h': "NewConsistentHasher [] False = Some h'"
    using NewConsistentHasher_nofix by (auto simp: NewConsistentHasher_def)
  have run: "run_dests [plain_dest [] ''h1:1''] = Ok [(plain_dest [] ''h1:1'')\<lparr>d_running := True\<rparr>]"
    by (simp add: dest_Run_def plain_dest_def dest_New_def split: prod.split)
  let ?M = "fst (matcher_New [] [] [] [] [] [])"
  obtain r0 where r0: "NewConsistentHashing ''k'' ?M [plain_dest [] ''h1:1''] False = Ok (Some r0)"
      "length (rt_Dests r0) = 1" "rt_kind r0 = ConsistentHashing" "rt_Hasher r0 = Some h"
    using h run by (simp add: NewConsistentHashing_def)
  have "\<not> withFix h" using NewConsistentHasher_wf(4) h by (auto simp: NewConsistentHasher_def)
  then obtain r where r: "route_ops (\<lambda>_. None) [OpDel 0] r0 = Ok (Some r)" "rt_Dests r = []"
    using r0 h' by (auto simp: DelDestination_def extend_def remove_nth_def)
  have "index_byte ''foo 1 2'' CHR '' '' = Some 3" by code_simp
  from consistent_hashing_dispatches_to_one [OF r0(1) r(1) this] r r0(1) show ?thesis by auto
qed

end
