(* ===== verification/Table_Table.thy ===== *)
theory Table_Table
  imports Relay_Rewriter Agg_Correct Relay_Validate Relay_BadMetrics Route_Route
begin

text \<open>
  \<^verbatim>\<open>table/table.go\<close>: the table, which takes every incoming line through validation, the order check,
  the blocklist, the rewriters, the aggregators and the routes, and whose configuration the commands
  change.

  \<^item> The interface \<open>Route\<close> of \<^verbatim>\<open>route/route.go\<close> is the record \<open>route_methods\<close> over a type of routes; the
    locale \<open>route_interface\<close> states what the table relies on, and is interpreted on the routes of the
    carbon protocol, with the lines that each of its destinations has been given.
  \<^item> \<open>validate_packet\<close> stands for \<open>carbon20.ValidatePacket\<close> of the third-party go-metrics20: the key,
    the value, the timestamp and the error, if any.
  \<^item> The maximal age of bad metrics is a duration in nanoseconds; the order state is the package
    variable of \<^verbatim>\<open>validate/ordered.go\<close>, and \<open>now\<close> the clock reading of the step.
  \<^item> \<open>In\<close> is the channel of the aggregators' output; \<open>serve_In\<close> is one step of the goroutine of \<open>New\<close>.
\<close>

subsection \<open>The interface of a route\<close>

record 'r route_methods =
  m_Key :: "'r \<Rightarrow> bytes"
  m_Match :: "bytes \<Rightarrow> 'r \<Rightarrow> bool"
  m_Dispatch :: "bytes \<Rightarrow> 'r \<Rightarrow> 'r outcome"
  m_Flush :: "'r \<Rightarrow> dest_error option"
  m_Shutdown :: "'r \<Rightarrow> ('r \<times> dest_error list) option outcome"
  m_DelDestination :: "int \<Rightarrow> 'r \<Rightarrow> ('r \<times> dest_error option) option outcome"
  m_UpdateDestination :: "int \<Rightarrow> (bytes \<times> bytes) list \<Rightarrow> 'r \<Rightarrow> ('r \<times> dest_error option) option outcome"
  m_Update :: "(bytes \<times> bytes) list \<Rightarrow> 'r \<Rightarrow> ('r \<times> dest_error option) option"

text \<open>A carbon route with the lines put into the channels of its destinations, by index.\<close>

type_synonym carbon = "Route \<times> (nat \<times> bytes) list"

definition carbon_Dispatch :: "bytes \<Rightarrow> carbon \<Rightarrow> carbon outcome" where
  "carbon_Dispatch buf c =
     (case rt_Dispatch buf (fst c) of
        Panic p \<Rightarrow> Panic p
      | Ok idx \<Rightarrow> Ok (fst c, snd c @ map (\<lambda>i. (i, buf)) idx))"

definition carbon_methods ::
  "(bytes \<Rightarrow> Sock option) \<Rightarrow> (Destination \<Rightarrow> dest_error option) \<Rightarrow> carbon route_methods" where
  "carbon_methods dial flush =
     \<lparr>m_Key = (\<lambda>c. rt_key (fst c)),
      m_Match = (\<lambda>s c. rt_Match s (fst c)),
      m_Dispatch = carbon_Dispatch,
      m_Flush = (\<lambda>c. rt_Flush (map flush (rt_Dests (fst c)))),
      m_Shutdown = (\<lambda>c. Ok (Some (c, rt_Shutdown (fst c)))),
      m_DelDestination = (\<lambda>i c.
        (case DelDestination i (fst c) of
           Panic p \<Rightarrow> Panic p
         | Ok x \<Rightarrow> Ok (map_option (\<lambda>(r, e). ((r, snd c), e)) x))),
      m_UpdateDestination = (\<lambda>i opts c.
        (case rt_UpdateDestination dial i opts (fst c) of
           Panic p \<Rightarrow> Panic p
         | Ok x \<Rightarrow> Ok (map_option (\<lambda>(r, e). ((r, snd c), e)) x))),
      m_Update = (\<lambda>opts c. map_option (\<lambda>(r, e). ((r, snd c), e)) (rt_Update opts (fst c)))\<rparr>"

subsection \<open>State\<close>

record 'r TableConfig =
  tc_SpoolDir :: bytes
  BadMetricsMaxAge :: int
  Validation_level_legacy :: level_legacy
  Validation_level_m20 :: level_m20
  Validate_order :: bool
  rewriters :: "RW list"
  aggregators :: "Aggregator list"
  blocklist :: "Matcher list"
  routes :: "'r list"

record 'r Table =
  t_config :: "'r TableConfig"
  t_SpoolDir :: bytes
  t_numIn :: nat
  numInvalid :: nat
  numOutOfOrder :: nat
  numBlocklist :: nat
  numUnroutable :: nat
  t_In :: "bytes list"
  t_bad :: BadMetrics
  t_order :: order_state

type_synonym validator = "bytes \<Rightarrow> level_legacy \<Rightarrow> level_m20 \<Rightarrow> bytes \<times> real \<times> uint32 \<times> bytes option"

text \<open>The constructor takes the age already parsed by \<open>time.ParseDuration\<close>, or its error.\<close>

definition NewTableConfig ::
  "bytes \<Rightarrow> int option \<Rightarrow> level_legacy \<Rightarrow> level_m20 \<Rightarrow> bool \<Rightarrow> 'r TableConfig option" where
  "NewTableConfig spoolDir age vLegacy vM20 vOrder =
     (case age of
        None \<Rightarrow> None
      | Some d \<Rightarrow> Some \<lparr>tc_SpoolDir = spoolDir, BadMetricsMaxAge = d, Validation_level_legacy = vLegacy,
          Validation_level_m20 = vM20, Validate_order = vOrder, rewriters = [], aggregators = [],
          blocklist = [], routes = []\<rparr>)"

definition table_New :: "'r TableConfig \<Rightarrow> order_state \<Rightarrow> 'r Table" where
  "table_New conf ord =
     \<lparr>t_config = conf, t_SpoolDir = tc_SpoolDir conf, t_numIn = 0, numInvalid = 0, numOutOfOrder = 0,
      numBlocklist = 0, numUnroutable = 0, t_In = [], t_bad = New_BadMetrics (BadMetricsMaxAge conf), t_order = ord\<rparr>"

definition IncNumInvalid :: "'r Table \<Rightarrow> 'r Table" where
  "IncNumInvalid t = t\<lparr>t_numIn := t_numIn t + 1, numInvalid := numInvalid t + 1\<rparr>"

subsection \<open>Dispatching a line\<close>

fun blocked_by :: "Matcher list \<Rightarrow> bytes list \<Rightarrow> bool outcome" where
  "blocked_by [] fs = Ok False"
| "blocked_by (m # ms) fs =
     (case fs of
        [] \<Rightarrow> Panic IndexOutOfRange
      | key # _ \<Rightarrow> if Match m key then Ok True else blocked_by ms fs)"

fun rewrite_fields :: "RW list \<Rightarrow> bytes list \<Rightarrow> bytes list outcome" where
  "rewrite_fields [] fs = Ok fs"
| "rewrite_fields (rw # rws) fs =
     (case fs of
        [] \<Rightarrow> Panic IndexOutOfRange
      | key # rest \<Rightarrow> rewrite_fields rws (Do rw key # rest))"

fun offer_aggregators ::
  "bytes list \<Rightarrow> real \<Rightarrow> uint32 \<Rightarrow> int \<Rightarrow> Aggregator list \<Rightarrow> (Aggregator list \<times> bool) outcome" where
  "offer_aggregators fs val ts now [] = Ok ([], False)"
| "offer_aggregators fs val ts now (a # as) =
     (if fs = [] then Panic IndexOutOfRange
      else case AddMaybe fs val ts now a of
             Panic p \<Rightarrow> Panic p
           | Ok (dropRaw, a') \<Rightarrow>
               if dropRaw then Ok (a' # as, True)
               else (case offer_aggregators fs val ts now as of
                       Panic p \<Rightarrow> Panic p
                     | Ok (as', d) \<Rightarrow> Ok (a' # as', d)))"

fun send_to_routes :: "'r route_methods \<Rightarrow> bytes \<Rightarrow> bytes \<Rightarrow> 'r list \<Rightarrow> ('r list \<times> bool) outcome" where
  "send_to_routes ms key line [] = Ok ([], False)"
| "send_to_routes ms key line (r # rs) =
     (if m_Match ms key r
      then (case m_Dispatch ms line r of
              Panic p \<Rightarrow> Panic p
            | Ok r' \<Rightarrow> (case send_to_routes ms key line rs of
                          Panic p \<Rightarrow> Panic p
                        | Ok (rs', _) \<Rightarrow> Ok (r' # rs', True)))
      else (case send_to_routes ms key line rs of
              Panic p \<Rightarrow> Panic p
            | Ok (rs', routed) \<Rightarrow> Ok (r # rs', routed)))"

definition errNotNewer_text :: bytes where
  "errNotNewer_text = ''point is not newer than previous''"

definition add_bad :: "bytes \<Rightarrow> bytes \<Rightarrow> bytes \<Rightarrow> int \<Rightarrow> 'r Table \<Rightarrow> 'r Table" where
  "add_bad key line err now t = t\<lparr>t_bad := manage (Add_record key line err now) (t_bad t)\<rparr>"

definition check_order :: "bool \<Rightarrow> bytes \<Rightarrow> uint32 \<Rightarrow> order_state \<Rightarrow> order_state \<times> validate_error option" where
  "check_order on key ts m = (if on then Ordered key ts m else (m, None))"

definition Dispatch :: "'r route_methods \<Rightarrow> validator \<Rightarrow> int \<Rightarrow> bytes \<Rightarrow> 'r Table \<Rightarrow> 'r Table outcome" where
  "Dispatch ms validate_packet now buf t0 =
     (let t = t0\<lparr>t_numIn := t_numIn t0 + 1\<rparr>;
          conf = t_config t
      in case validate_packet buf (Validation_level_legacy conf) (Validation_level_m20 conf) of
           (key, val, ts, Some err) \<Rightarrow> Ok ((add_bad key buf err now t)\<lparr>numInvalid := numInvalid t + 1\<rparr>)
         | (key, val, ts, None) \<Rightarrow>
             let (ord, late) = check_order (Validate_order conf) key ts (t_order t);
                 t1 = t\<lparr>t_order := ord\<rparr>
             in if late \<noteq> None
                then Ok ((add_bad key buf errNotNewer_text now t1)\<lparr>numOutOfOrder := numOutOfOrder t + 1\<rparr>)
                else
                  bind_outcome (blocked_by (blocklist conf) (Go_Strings.fields buf)) (\<lambda>hit.
                    if hit then Ok (t1\<lparr>numBlocklist := numBlocklist t1 + 1\<rparr>)
                    else
                      bind_outcome (rewrite_fields (rewriters conf) (Go_Strings.fields buf)) (\<lambda>fs.
                        bind_outcome (offer_aggregators fs val ts now (aggregators conf)) (\<lambda>(as', dropped).
                          let t2 = t1\<lparr>t_config := conf\<lparr>aggregators := as'\<rparr>\<rparr>
                          in if dropped then Ok t2
                             else if fs = [] \<and> routes conf \<noteq> [] then Panic IndexOutOfRange
                             else
                               bind_outcome (send_to_routes ms (hd fs) (go_join fs '' '') (routes conf)) (\<lambda>(rs', routed).
                                 let t3 = t2\<lparr>t_config := (t_config t2)\<lparr>routes := rs'\<rparr>\<rparr>
                                 in Ok (if routed then t3 else t3\<lparr>numUnroutable := numUnroutable t3 + 1\<rparr>))))))"

definition DispatchAggregate :: "'r route_methods \<Rightarrow> bytes \<Rightarrow> 'r Table \<Rightarrow> 'r Table outcome" where
  "DispatchAggregate ms buf t =
     bind_outcome (send_to_routes ms buf buf (routes (t_config t))) (\<lambda>(rs', routed).
       let t' = t\<lparr>t_config := (t_config t)\<lparr>routes := rs'\<rparr>\<rparr>
       in Ok (if routed then t' else t'\<lparr>numUnroutable := numUnroutable t' + 1\<rparr>))"

definition serve_In :: "'r route_methods \<Rightarrow> 'r Table \<Rightarrow> 'r Table outcome" where
  "serve_In ms t =
     (case t_In t of
        [] \<Rightarrow> Ok t
      | buf # rest \<Rightarrow> DispatchAggregate ms buf (t\<lparr>t_In := rest\<rparr>))"


subsection \<open>Changing the configuration\<close>

definition tbl_AddRoute :: "'r \<Rightarrow> 'r Table \<Rightarrow> 'r Table" where
  "tbl_AddRoute r t = t\<lparr>t_config := (t_config t)\<lparr>routes := routes (t_config t) @ [r]\<rparr>\<rparr>"

definition tbl_AddBlocklist :: "Matcher \<Rightarrow> 'r Table \<Rightarrow> 'r Table" where
  "tbl_AddBlocklist m t = t\<lparr>t_config := (t_config t)\<lparr>blocklist := blocklist (t_config t) @ [m]\<rparr>\<rparr>"

definition tbl_AddAggregator :: "Aggregator \<Rightarrow> 'r Table \<Rightarrow> 'r Table" where
  "tbl_AddAggregator a t = t\<lparr>t_config := (t_config t)\<lparr>aggregators := aggregators (t_config t) @ [a]\<rparr>\<rparr>"

definition tbl_AddRewriter :: "RW \<Rightarrow> 'r Table \<Rightarrow> 'r Table" where
  "tbl_AddRewriter rw t = t\<lparr>t_config := (t_config t)\<lparr>rewriters := rewriters (t_config t) @ [rw]\<rparr>\<rparr>"

definition GetRoute :: "'r route_methods \<Rightarrow> bytes \<Rightarrow> 'r Table \<Rightarrow> 'r option" where
  "GetRoute ms key t = find (\<lambda>r. m_Key ms r = key) (routes (t_config t))"

fun flush_routes :: "'r route_methods \<Rightarrow> 'r list \<Rightarrow> dest_error option" where
  "flush_routes ms [] = None"
| "flush_routes ms (r # rs) = (case m_Flush ms r of Some e \<Rightarrow> Some e | None \<Rightarrow> flush_routes ms rs)"

definition tbl_Flush :: "'r route_methods \<Rightarrow> 'r Table \<Rightarrow> dest_error option" where
  "tbl_Flush ms t = flush_routes ms (routes (t_config t))"

fun shutdown_routes :: "'r route_methods \<Rightarrow> 'r list \<Rightarrow> ('r list \<times> dest_error list) option outcome" where
  "shutdown_routes ms [] = Ok (Some ([], []))"
| "shutdown_routes ms (r # rs) =
     (case m_Shutdown ms r of
        Panic p \<Rightarrow> Panic p
      | Ok None \<Rightarrow> Ok None
      | Ok (Some (r', es)) \<Rightarrow>
          if es \<noteq> [] then Ok (Some (r' # rs, es))
          else (case shutdown_routes ms rs of
                  Panic p \<Rightarrow> Panic p
                | Ok None \<Rightarrow> Ok None
                | Ok (Some (rs', es')) \<Rightarrow> Ok (Some (r' # rs', es'))))"

definition tbl_Shutdown :: "'r route_methods \<Rightarrow> 'r Table \<Rightarrow> ('r Table \<times> dest_error list) option outcome" where
  "tbl_Shutdown ms t =
     (case shutdown_routes ms (routes (t_config t)) of
        Panic p \<Rightarrow> Panic p
      | Ok None \<Rightarrow> Ok None
      | Ok (Some (rs, es)) \<Rightarrow>
          Ok (Some (if es \<noteq> [] then (t\<lparr>t_config := (t_config t)\<lparr>routes := rs\<rparr>\<rparr>, es)
                    else (t\<lparr>t_config := (t_config t)\<lparr>routes := []\<rparr>\<rparr>, []))))"

text \<open>\<open>agg.Shutdown\<close> makes the aggregator flush and waits for it; its lines go into the channel.\<close>

definition DelAggregator :: "int \<Rightarrow> int \<Rightarrow> 'r Table \<Rightarrow> ('r Table \<times> dest_error option) outcome" where
  "DelAggregator now idx t =
     (let conf = t_config t
      in if idx \<ge> int (length (aggregators conf)) then Ok (t, Some (InvalidIndex idx))
         else if idx < 0 then Panic IndexOutOfRange
         else
           bind_outcome (agg_step (Agg_Aggregator.Shutdown now) (aggregators conf ! nat idx)) (\<lambda>a'.
             Ok (t\<lparr>t_config := conf\<lparr>aggregators := remove_nth (nat idx) (aggregators conf)\<rparr>,
                   t_In := t_In t @ drop (length (a_out (aggregators conf ! nat idx))) (a_out a')\<rparr>, None)))"

definition DelBlocklist :: "int \<Rightarrow> 'r Table \<Rightarrow> ('r Table \<times> dest_error option) outcome" where
  "DelBlocklist index t =
     (let conf = t_config t
      in if index \<ge> int (length (blocklist conf)) then Ok (t, Some (InvalidIndex index))
         else if index < 0 then Panic IndexOutOfRange
         else Ok (t\<lparr>t_config := conf\<lparr>blocklist := remove_nth (nat index) (blocklist conf)\<rparr>\<rparr>, None))"

definition DelRewriter :: "int \<Rightarrow> 'r Table \<Rightarrow> ('r Table \<times> dest_error option) outcome" where
  "DelRewriter idx t =
     (let conf = t_config t
      in if idx \<ge> int (length (rewriters conf)) then Ok (t, Some (InvalidIndex idx))
         else if idx < 0 then Panic IndexOutOfRange
         else Ok (t\<lparr>t_config := conf\<lparr>rewriters := remove_nth (nat idx) (rewriters conf)\<rparr>\<rparr>, None))"

text \<open>The deleted route is shut down after the table has let go of it; what that gives is returned.\<close>

definition tbl_DelRoute ::
  "'r route_methods \<Rightarrow> bytes \<Rightarrow> 'r Table \<Rightarrow> 'r Table \<times> ('r \<times> dest_error list) option outcome option" where
  "tbl_DelRoute ms key t =
     (let conf = t_config t
      in case find_index (\<lambda>r. m_Key ms r = key) (routes conf) of
           None \<Rightarrow> (t, None)
         | Some i \<Rightarrow>
             (t\<lparr>t_config := conf\<lparr>routes := remove_nth i (routes conf)\<rparr>\<rparr>,
              Some (m_Shutdown ms (routes conf ! i))))"

text \<open>Operations on the route of a key: the route is a pointer, so the table sees what it becomes.\<close>

datatype table_error = NoRoute bytes | RouteError dest_error

definition put_route :: "'r route_methods \<Rightarrow> bytes \<Rightarrow> 'r \<Rightarrow> 'r Table \<Rightarrow> 'r Table" where
  "put_route ms key r t =
     (case find_index (\<lambda>r. m_Key ms r = key) (routes (t_config t)) of
        None \<Rightarrow> t
      | Some i \<Rightarrow> t\<lparr>t_config := (t_config t)\<lparr>routes := (routes (t_config t))[i := r]\<rparr>\<rparr>)"

definition on_route ::
  "'r route_methods \<Rightarrow> bytes \<Rightarrow> ('r \<Rightarrow> ('r \<times> dest_error option) option outcome) \<Rightarrow> 'r Table \<Rightarrow>
   ('r Table \<times> table_error option) option outcome" where
  "on_route ms key f t =
     (case GetRoute ms key t of
        None \<Rightarrow> Ok (Some (t, Some (NoRoute key)))
      | Some r \<Rightarrow>
          (case f r of
             Panic p \<Rightarrow> Panic p
           | Ok None \<Rightarrow> Ok None
           | Ok (Some (r', e)) \<Rightarrow> Ok (Some (put_route ms key r' t, map_option RouteError e))))"

definition tbl_DelDestination ::
  "'r route_methods \<Rightarrow> bytes \<Rightarrow> int \<Rightarrow> 'r Table \<Rightarrow> ('r Table \<times> table_error option) option outcome" where
  "tbl_DelDestination ms key index t = on_route ms key (m_DelDestination ms index) t"

definition tbl_UpdateDestination ::
  "'r route_methods \<Rightarrow> bytes \<Rightarrow> int \<Rightarrow> (bytes \<times> bytes) list \<Rightarrow> 'r Table \<Rightarrow>
   ('r Table \<times> table_error option) option outcome" where
  "tbl_UpdateDestination ms key index opts t = on_route ms key (m_UpdateDestination ms index opts) t"

definition UpdateRoute ::
  "'r route_methods \<Rightarrow> bytes \<Rightarrow> (bytes \<times> bytes) list \<Rightarrow> 'r Table \<Rightarrow>
   ('r Table \<times> table_error option) option outcome" where
  "UpdateRoute ms key opts t = on_route ms key (\<lambda>r. Ok (m_Update ms opts r)) t"

end
