(* ===== verification/Table_Correct.thy ===== *)
theory Table_Correct
  imports Table_Table
begin

text \<open>
  Correctness of the table: every line has one fate, which the counters record, and goes through the
  pipeline as configured; the output of the aggregators is matched differently; the commands on
  routes change what they name. The contract between the table and its routes is the locale
  \<open>route_interface\<close>; \<open>carbon\<close> is its interpretation on the carbon routes.
\<close>

subsection \<open>The contract of a route\<close>

definition delivered :: "'r route_methods \<Rightarrow> bytes \<Rightarrow> 'r \<Rightarrow> 'r" where
  "delivered ms line r = (case m_Dispatch ms line r of Ok r' \<Rightarrow> r' | Panic _ \<Rightarrow> r)"

locale route_interface =
  fixes ms :: "'r route_methods" and ready :: "'r \<Rightarrow> bool"
  assumes Dispatch_returns: "ready r \<Longrightarrow> \<exists>r'. m_Dispatch ms line r = Ok r' \<and> ready r'"
    and DelDestination_key: "m_DelDestination ms i r = Ok (Some (r', e)) \<Longrightarrow> m_Key ms r' = m_Key ms r"
    and UpdateDestination_key:
      "m_UpdateDestination ms i opts r = Ok (Some (r', e)) \<Longrightarrow> m_Key ms r' = m_Key ms r"
    and Update_key: "m_Update ms opts r = Some (r', e) \<Longrightarrow> m_Key ms r' = m_Key ms r"
begin

lemma m_Dispatch_ok: "ready r \<Longrightarrow> m_Dispatch ms line r = Ok (delivered ms line r)"
  using Dispatch_returns [of r line] by (auto simp: delivered_def)

lemma delivered_ready: "ready r \<Longrightarrow> ready (delivered ms line r)"
  using Dispatch_returns [of r line] by (auto simp: delivered_def)

lemma send_to_routes_ok:
  "\<forall>r \<in> set rs. ready r \<Longrightarrow>
     send_to_routes ms key line rs =
       Ok (map (\<lambda>r. if m_Match ms key r then delivered ms line r else r) rs, \<exists>r \<in> set rs. m_Match ms key r)"
  by (induction rs) (auto simp: m_Dispatch_ok)

lemma on_route_local:
  assumes "on_route ms key f t = Ok (Some (t', e))"
    and "\<And>r r' e. f r = Ok (Some (r', e)) \<Longrightarrow> m_Key ms r' = m_Key ms r"
  shows "map (m_Key ms) (routes (t_config t')) = map (m_Key ms) (routes (t_config t)) \<and>
    (\<forall>i < length (routes (t_config t)). m_Key ms (routes (t_config t) ! i) \<noteq> key \<longrightarrow>
       routes (t_config t') ! i = routes (t_config t) ! i) \<and>
    (GetRoute ms key t = None \<longrightarrow> t' = t \<and> e = Some (NoRoute key))"
proof (cases "GetRoute ms key t")
  case None
  then show ?thesis using assms(1) by (auto simp: on_route_def)
next
  case (Some r)
  from assms(1) Some obtain r' e' where f: "f r = Ok (Some (r', e'))" "t' = put_route ms key r' t"
    by (auto simp: on_route_def split: outcome.splits option.splits)
  have "m_Key ms r = key" using Some by (simp add: GetRoute_def find_Some_iff) blast
  then have k: "m_Key ms r' = key" using assms(2) [OF f(1)] by simp
  show ?thesis
  proof (cases "find_index (\<lambda>r. m_Key ms r = key) (routes (t_config t))")
    case None
    then show ?thesis using f Some by (simp add: put_route_def)
  next
    case (Some i)
    from find_index_SomeD [OF this] have i: "i < length (routes (t_config t))"
      "m_Key ms (routes (t_config t) ! i) = key" by auto
    have "map (m_Key ms) ((routes (t_config t))[i := r']) = map (m_Key ms) (routes (t_config t))"
      using i k by (simp add: map_update list_update_same_conv)
    then show ?thesis
      using f Some i \<open>GetRoute ms key t = Some r\<close> by (auto simp: put_route_def nth_list_update)
  qed
qed

end

definition carbon_ready :: "carbon \<Rightarrow> bool" where
  "carbon_ready c = route_ready (fst c)"

lemma extend_key: "Route_Route.extend m ds r = Some r' \<Longrightarrow> rt_key r' = rt_key r"
  by (auto simp: Route_Route.extend_def split: route_kind.splits option.splits)

interpretation carbon: route_interface "carbon_methods dial flush" carbon_ready for dial flush
proof unfold_locales
  fix r :: carbon and line
  assume r: "carbon_ready r"
  then obtain idx where "rt_Dispatch line (fst r) = Ok idx"
    using route_ready_dispatch unfolding carbon_ready_def by blast
  then show "\<exists>r'. m_Dispatch (carbon_methods dial flush) line r = Ok r' \<and> carbon_ready r'"
    using r by (simp add: carbon_methods_def carbon_Dispatch_def carbon_ready_def)
next
  fix i and r r' :: carbon and e
  assume "m_DelDestination (carbon_methods dial flush) i r = Ok (Some (r', e))"
  then show "m_Key (carbon_methods dial flush) r' = m_Key (carbon_methods dial flush) r"
    by (auto simp: carbon_methods_def DelDestination_def extend_key split: outcome.splits if_splits)
next
  fix i opts and r r' :: carbon and e
  assume "m_UpdateDestination (carbon_methods dial flush) i opts r = Ok (Some (r', e))"
  then show "m_Key (carbon_methods dial flush) r' = m_Key (carbon_methods dial flush) r"
    by (auto simp: carbon_methods_def rt_UpdateDestination_def extend_key Let_def
        split: outcome.splits if_splits option.splits)
next
  fix opts and r r' :: carbon and e
  assume "m_Update (carbon_methods dial flush) opts r = Some (r', e)"
  then show "m_Key (carbon_methods dial flush) r' = m_Key (carbon_methods dial flush) r"
    by (auto simp: carbon_methods_def rt_Update_def extend_key
        split: sum.splits if_splits option.splits prod.splits)
qed


subsection \<open>The specification of a dispatch\<close>

datatype fate = Invalid | OutOfOrder | Blocklisted | Aggregated | Unroutable | Routed

text \<open>Which aggregators take a point, and which of them keep it from the routes.\<close>

definition takes :: "bytes \<Rightarrow> Aggregator \<Rightarrow> bool" where
  "takes name a \<longleftrightarrow> PreMatch (a_Matcher a) name \<and>
     (DropRaw a \<longrightarrow> snd (expanded (a_Matcher a) name (outFmt a)))"

definition keeps :: "bytes \<Rightarrow> Aggregator \<Rightarrow> bool" where
  "keeps name a \<longleftrightarrow> takes name a \<and> DropRaw a"

definition new_name :: "'r TableConfig \<Rightarrow> bytes \<Rightarrow> bytes" where
  "new_name conf buf = fold Do (rewriters conf) (hd (Go_Strings.fields buf))"

definition new_line :: "'r TableConfig \<Rightarrow> bytes \<Rightarrow> bytes" where
  "new_line conf buf = go_join (new_name conf buf # tl (Go_Strings.fields buf)) '' ''"

definition fate_of :: "'r route_methods \<Rightarrow> validator \<Rightarrow> bytes \<Rightarrow> 'r Table \<Rightarrow> fate" where
  "fate_of ms validate_packet buf t =
     (let conf = t_config t
      in case validate_packet buf (Validation_level_legacy conf) (Validation_level_m20 conf) of
           (key, val, ts, err) \<Rightarrow>
             if err \<noteq> None then Invalid
             else if Validate_order conf \<and> ts \<le> Relay_Validate.newest (t_order t) key then OutOfOrder
             else if \<exists>m \<in> set (blocklist conf). Match m (hd (Go_Strings.fields buf)) then Blocklisted
             else if \<exists>a \<in> set (aggregators conf). keeps (new_name conf buf) a then Aggregated
             else if \<exists>r \<in> set (routes conf). m_Match ms (new_name conf buf) r then Routed
             else Unroutable)"

text \<open>What the aggregators and the routes have after a point that has passed the blocklist.\<close>

definition offered :: "bytes \<Rightarrow> msg \<Rightarrow> Aggregator list \<Rightarrow> msg list list" where
  "offered name m as =
     (let k = length (takeWhile (\<lambda>a. \<not> keeps name a) as)
      in map (\<lambda>i. a_in (as ! i) @ (if i \<le> k \<and> takes name (as ! i) then [m] else [])) [0..<length as])"

definition table_ready :: "('r \<Rightarrow> bool) \<Rightarrow> 'r Table \<Rightarrow> bool" where
  "table_ready ready t \<longleftrightarrow> (\<forall>a \<in> set (aggregators (t_config t)). agg_inv a) \<and>
     (\<forall>r \<in> set (routes (t_config t)). ready r)"

subsection \<open>The stages\<close>

lemma blocked_by_ok: "fs \<noteq> [] \<Longrightarrow> blocked_by ms fs = Ok (\<exists>m \<in> set ms. Match m (hd fs))"
  by (induction ms) (auto split: list.splits)

lemma rewrite_fields_ok: "fs \<noteq> [] \<Longrightarrow> rewrite_fields rws fs = Ok (fold Do rws (hd fs) # tl fs)"
  by (induction rws arbitrary: fs) (auto split: list.splits)

lemma offered_Cons:
  "offered name m (a # as) =
     (a_in a @ (if takes name a then [m] else [])) #
     (if keeps name a then map a_in as else offered name m as)"
proof -
  have "map (\<lambda>i. a_in (as ! i)) [0..<length as] = map a_in as"
    by (rule nth_equalityI) simp_all
  moreover have "[0..<length (a # as)] = 0 # map Suc [0..<length as]"
    by (simp add: upt_conv_Cons map_Suc_upt del: upt_Suc)
  moreover have "keeps name a \<Longrightarrow> takes name a" by (simp add: keeps_def)
  ultimately show ?thesis
    unfolding offered_def Let_def
    by (cases "keeps name a") (simp_all del: upt_Suc length_Cons add: o_def)
qed

lemma offer_aggregators_ok:
  assumes "fs \<noteq> []" "\<forall>a \<in> set as. agg_inv a"
  shows "\<exists>as'. offer_aggregators fs val ts now as = Ok (as', \<exists>a \<in> set as. keeps (hd fs) a) \<and>
    (\<forall>a \<in> set as'. agg_inv a) \<and> map config as' = map config as \<and>
    map a_in as' = offered (hd fs) \<lparr>msg_buf = fs, msg_val = val, msg_ts = ts\<rparr> as"
  using assms(2)
proof (induction as)
  case Nil
  then show ?case by (simp add: offered_def)
next
  case (Cons a as)
  then have inv: "agg_inv a" "\<forall>a \<in> set as. agg_inv a" by simp_all
  let ?m = "\<lparr>msg_buf = fs, msg_val = val, msg_ts = ts\<rparr>"
  obtain c where c: "cache_ok (a\<lparr>reCache := c\<rparr>)"
    "AddMaybe fs val ts now a =
       (if takes (hd fs) a then Ok (DropRaw a, a\<lparr>reCache := c, a_in := a_in a @ [?m]\<rparr>)
        else Ok (False, a\<lparr>reCache := c\<rparr>))"
    using AddMaybe_ok [OF inv(1), of fs val ts now] unfolding takes_def by blast
  obtain as' where as': "offer_aggregators fs val ts now as = Ok (as', \<exists>a \<in> set as. keeps (hd fs) a)"
    "\<forall>a \<in> set as'. agg_inv a" "map config as' = map config as" "map a_in as' = offered (hd fs) ?m as"
    using Cons.IH [OF inv(2)] by blast
  have i: "agg_inv (a\<lparr>reCache := c\<rparr>)" "agg_inv (a\<lparr>reCache := c, a_in := x\<rparr>)" for x
    using agg_inv_cache [OF inv(1) c(1)] by (simp_all only: agg_inv_more)
  have k: "config (a\<lparr>reCache := c, a_in := x\<rparr>) = config a" for x by (simp add: config_def)
  show ?case
    using c(2) as' i k inv(2) assms(1)
    by (cases "takes (hd fs) a"; cases "DropRaw a") (auto simp: offered_Cons keeps_def)
qed


text \<open>A line that the validation accepts has a field.\<close>

definition accepts_lines :: "validator \<Rightarrow> bool" where
  "accepts_lines validate_packet \<longleftrightarrow>
     (\<forall>buf vl vm key val ts. validate_packet buf vl vm = (key, val, ts, None) \<longrightarrow> Go_Strings.fields buf \<noteq> [])"

definition passed :: "fate \<Rightarrow> bool" where
  "passed f \<longleftrightarrow> f = Aggregated \<or> f = Unroutable \<or> f = Routed"

definition counted :: "fate \<Rightarrow> 'r Table \<Rightarrow> 'r Table \<Rightarrow> bool" where
  "counted f t t' \<longleftrightarrow> t_numIn t' = t_numIn t + 1 \<and>
     numInvalid t' = numInvalid t + of_bool (f = Invalid) \<and>
     numOutOfOrder t' = numOutOfOrder t + of_bool (f = OutOfOrder) \<and>
     numBlocklist t' = numBlocklist t + of_bool (f = Blocklisted) \<and>
     numUnroutable t' = numUnroutable t + of_bool (f = Unroutable)"

lemma fate_of_cases:
  assumes "validate_packet buf (Validation_level_legacy (t_config t)) (Validation_level_m20 (t_config t)) = (key, val, ts, err)"
  shows "fate_of ms validate_packet buf t =
    (if err \<noteq> None then Invalid
     else if Validate_order (t_config t) \<and> ts \<le> Relay_Validate.newest (t_order t) key then OutOfOrder
     else if \<exists>m \<in> set (blocklist (t_config t)). Match m (hd (Go_Strings.fields buf)) then Blocklisted
     else if \<exists>a \<in> set (aggregators (t_config t)). keeps (new_name (t_config t) buf) a then Aggregated
     else if \<exists>r \<in> set (routes (t_config t)). m_Match ms (new_name (t_config t) buf) r then Routed
     else Unroutable)"
  using assms by (simp add: fate_of_def Let_def)

text \<open>The table over any kind of routes that keeps the contract.\<close>

fun dispatch_all :: "'r route_methods \<Rightarrow> validator \<Rightarrow> (int \<times> bytes) list \<Rightarrow> 'r Table \<Rightarrow> ('r Table \<times> fate list) outcome" where
  "dispatch_all ms vp [] t = Ok (t, [])"
| "dispatch_all ms vp ((now, buf) # lines) t =
     (case Dispatch ms vp now buf t of
        Panic p \<Rightarrow> Panic p
      | Ok t' \<Rightarrow> (case dispatch_all ms vp lines t' of
                    Panic p \<Rightarrow> Panic p
                  | Ok (t'', fs) \<Rightarrow> Ok (t'', fate_of ms vp buf t # fs)))"

context route_interface
begin

lemma Dispatch_ok:
  assumes "table_ready ready t" "accepts_lines vp"
    and v: "vp buf (Validation_level_legacy (t_config t)) (Validation_level_m20 (t_config t)) = (key, val, ts, err)"
  defines "conf \<equiv> t_config t"
  defines "f \<equiv> fate_of ms vp buf t"
  shows "\<exists>t' conf'. Dispatch ms vp now buf t = Ok t' \<and> t_config t' = conf' \<and> table_ready ready t' \<and> counted f t t' \<and>
    t_bad t' = (if f = Invalid then manage (Add_record key buf (the err) now) (t_bad t)
                else if f = OutOfOrder then manage (Add_record key buf errNotNewer_text now) (t_bad t)
                else t_bad t) \<and>
    map a_in (aggregators conf') =
      (if passed f
       then offered (new_name conf buf)
              \<lparr>msg_buf = new_name conf buf # tl (Go_Strings.fields buf), msg_val = val, msg_ts = ts\<rparr> (aggregators conf)
       else map a_in (aggregators conf)) \<and>
    map config (aggregators conf') = map config (aggregators conf) \<and>
    routes conf' =
      (if f = Routed
       then map (\<lambda>r. if m_Match ms (new_name conf buf) r then delivered ms (new_line conf buf) r else r) (routes conf)
       else routes conf) \<and>
    rewriters conf' = rewriters conf \<and> blocklist conf' = blocklist conf"
proof -
  note fate = fate_of_cases [where ms = ms and validate_packet = vp and t = t and buf = buf, OF v]
  show ?thesis
proof (cases err)
  case (Some e)
  then have "f = Invalid" using fate by (simp add: f_def)
  then show ?thesis
    using Some v assms(1)
    by (simp add: Dispatch_def add_bad_def counted_def passed_def conf_def table_ready_def Let_def)
next
  case None
  note err = None
  define late where "late \<longleftrightarrow> Validate_order conf \<and> ts \<le> Relay_Validate.newest (t_order t) key"
  let ?ord = "if Validate_order conf then fst (Ordered key ts (t_order t)) else t_order t"
  have ord: "check_order (Validate_order conf) key ts (t_order t) =
      (?ord, if late then Some errNotNewer else None)"
    by (auto simp: late_def check_order_def Ordered_def Relay_Validate.newest_def Let_def)
  have fs: "Go_Strings.fields buf \<noteq> []"
    using assms(2) v err unfolding accepts_lines_def by blast
  show ?thesis
  proof (cases "late \<or> (\<exists>m \<in> set (blocklist conf). Match m (hd (Go_Strings.fields buf)))")
    case True
    have "f = (if late then OutOfOrder else Blocklisted)"
      unfolding f_def fate using True err unfolding conf_def late_def by auto
    moreover have "Dispatch ms vp now buf t =
        Ok (if late
            then (add_bad key buf errNotNewer_text now (t\<lparr>t_numIn := t_numIn t + 1, t_order := ?ord\<rparr>))
                   \<lparr>numOutOfOrder := numOutOfOrder t + 1\<rparr>
            else t\<lparr>t_numIn := t_numIn t + 1, t_order := ?ord, numBlocklist := numBlocklist t + 1\<rparr>)"
    proof (cases late)
      case True
      show ?thesis unfolding Dispatch_def using v err ord \<open>late\<close> by (simp add: Let_def conf_def [symmetric])
    next
      case intime: False
      then have "blocked_by (blocklist conf) (Go_Strings.fields buf) = Ok True"
        using True unfolding blocked_by_ok [OF fs] by auto
      then show ?thesis
        unfolding Dispatch_def using v err ord intime
        by (auto simp: Let_def conf_def [symmetric] simp del: bind_outcome_eq_Ok)
    qed
    ultimately show ?thesis
      using assms(1) by (cases late)
        (simp_all add: add_bad_def counted_def passed_def conf_def table_ready_def)
  next
    case False
    let ?fs = "new_name conf buf # tl (Go_Strings.fields buf)"
    let ?m = "\<lparr>msg_buf = ?fs, msg_val = val, msg_ts = ts\<rparr>"
    let ?drop = "\<exists>a \<in> set (aggregators conf). keeps (new_name conf buf) a"
    have rw: "rewrite_fields (rewriters conf) (Go_Strings.fields buf) = Ok ?fs"
      using rewrite_fields_ok [OF fs] by (simp add: new_name_def)
    obtain as' where as': "offer_aggregators ?fs val ts now (aggregators conf) = Ok (as', ?drop)"
      "\<forall>a \<in> set as'. agg_inv a" "map config as' = map config (aggregators conf)"
      "map a_in as' = offered (new_name conf buf) ?m (aggregators conf)"
      using offer_aggregators_ok [of ?fs "aggregators conf" val ts now] assms(1)
      by (auto simp: table_ready_def conf_def)
    let ?hit = "\<exists>r \<in> set (routes conf). m_Match ms (new_name conf buf) r"
    let ?rs = "map (\<lambda>r. if m_Match ms (new_name conf buf) r then delivered ms (new_line conf buf) r else r) (routes conf)"
    have ready: "\<forall>r \<in> set (routes conf). ready r" using assms(1) by (simp add: table_ready_def conf_def)
    have send: "send_to_routes ms (hd ?fs) (go_join ?fs '' '') (routes conf) = Ok (?rs, ?hit)"
      using send_to_routes_ok [OF ready] by (simp add: new_line_def)
    have ready': "\<forall>r \<in> set ?rs. ready r"
      using ready delivered_ready by auto
    have same: "\<not> ?hit \<Longrightarrow> ?rs = routes conf" by (auto intro: map_idI)
    have f: "f = (if ?drop then Aggregated else if ?hit then Routed else Unroutable)"
      unfolding f_def fate using False err unfolding conf_def late_def by auto
    let ?t1 = "t\<lparr>t_numIn := t_numIn t + 1, t_order := ?ord\<rparr>"
    have D: "Dispatch ms vp now buf t =
        (let t2 = ?t1\<lparr>t_config := conf\<lparr>aggregators := as'\<rparr>\<rparr>
         in if ?drop then Ok t2
            else let t3 = t2\<lparr>t_config := (t_config t2)\<lparr>routes := ?rs\<rparr>\<rparr>
                 in Ok (if ?hit then t3 else t3\<lparr>numUnroutable := numUnroutable t3 + 1\<rparr>))"
      unfolding Dispatch_def
      using v err ord False blocked_by_ok [OF fs, of "blocklist conf"] rw as'(1) send
      by (simp add: Let_def conf_def [symmetric] del: go_join.simps list.sel bind_outcome_eq_Ok)
    show ?thesis
    proof (cases ?drop)
      case True
      then show ?thesis
        using D f as'(2-4) ready by (simp add: counted_def passed_def table_ready_def)
    next
      case False
      show ?thesis
      proof (cases ?hit)
        case True
        then have "f = Routed" using f False by simp
        then show ?thesis
          using D True False as'(2-4) ready' by (simp add: counted_def passed_def table_ready_def)
      next
        case nohit: False
        then have "f = Unroutable" using f False by simp
        then show ?thesis
          using D nohit False as'(2-4) ready' same [OF nohit] by (simp add: counted_def passed_def table_ready_def)
      qed
    qed
  qed
qed
qed

lemma dispatch_all_ok:
  assumes "table_ready ready t" "accepts_lines vp"
  shows "\<exists>t' fs. dispatch_all ms vp lines t = Ok (t', fs) \<and> table_ready ready t' \<and>
    length fs = length lines \<and>
    t_numIn t' = t_numIn t + length lines \<and>
    numInvalid t' = numInvalid t + count_list fs Invalid \<and>
    numOutOfOrder t' = numOutOfOrder t + count_list fs OutOfOrder \<and>
    numBlocklist t' = numBlocklist t + count_list fs Blocklisted \<and>
    numUnroutable t' = numUnroutable t + count_list fs Unroutable"
  using assms(1)
proof (induction lines arbitrary: t)
  case (Cons l lines)
  obtain now buf where l: "l = (now, buf)" by fastforce
  obtain key val ts err where
    v: "vp buf (Validation_level_legacy (t_config t)) (Validation_level_m20 (t_config t)) = (key, val, ts, err)"
    by (metis prod.collapse)
  obtain t1 where t1: "Dispatch ms vp now buf t = Ok t1" "table_ready ready t1" "counted (fate_of ms vp buf t) t t1"
    using Dispatch_ok [OF Cons.prems assms(2) v, of now] by blast
  obtain t' fs where t': "dispatch_all ms vp lines t1 = Ok (t', fs)" "table_ready ready t'"
    "length fs = length lines" "t_numIn t' = t_numIn t1 + length lines"
    "numInvalid t' = numInvalid t1 + count_list fs Invalid"
    "numOutOfOrder t' = numOutOfOrder t1 + count_list fs OutOfOrder"
    "numBlocklist t' = numBlocklist t1 + count_list fs Blocklisted"
    "numUnroutable t' = numUnroutable t1 + count_list fs Unroutable"
    using Cons.IH [OF t1(2)] by blast
  show ?case using t1 t' by (simp add: l counted_def)
qed simp

end


subsection \<open>Properties\<close>

definition example_validator :: validator where
  "example_validator buf vl vm =
     (if length (Go_Strings.fields buf) = 3 then (hd (Go_Strings.fields buf), 1, 10, None)
      else (buf, 0, 0, Some ''invalid''))"

lemma example_validator_accepts: "accepts_lines example_validator"
  by (auto simp: accepts_lines_def example_validator_def split: if_splits)

definition example_route :: "bytes \<Rightarrow> Matcher \<Rightarrow> carbon" where
  "example_route key m =
     (\<lparr>rt_kind = SendAllMatch, rt_type = ''sendAllMatch'', rt_key = key, rt_Matcher = m,
       rt_Dests = [plain_dest [] ''h1:1''], rt_Hasher = None\<rparr>, [])"

definition prefix_matcher :: "bytes \<Rightarrow> Matcher" where
  "prefix_matcher p = fst (matcher_New p [] [] [] [] [])"

definition example_table :: "Matcher list \<Rightarrow> carbon list \<Rightarrow> carbon Table" where
  "example_table bl rs =
     table_New \<lparr>tc_SpoolDir = [], BadMetricsMaxAge = 0, Validation_level_legacy = NoneLegacy,
       Validation_level_m20 = NoneM20, Validate_order = False, rewriters = [], aggregators = [],
       blocklist = bl, routes = rs\<rparr> (\<lambda>_. None)"

lemma example_table_ready: "table_ready carbon_ready (example_table bl (map (\<lambda>(k, m). example_route k m) rs))"
  by (auto simp: table_ready_def example_table_def table_New_def example_route_def carbon_ready_def
      route_ready_def route_wf_def)

text \<open>a line from an aggregator goes to exactly the routes whose matcher accepts the whole line, with the
  value and the timestamp, and is counted as unroutable when there is none; it meets no validation,
  blocklist, rewriter or aggregator.\<close>

theorem aggregates_are_matched_by_line:
  assumes "table_ready carbon_ready t"
  shows "\<exists>t'. DispatchAggregate (carbon_methods dial flush) buf t = Ok t' \<and>
    (let ms = carbon_methods dial flush
     in t' = t\<lparr>t_config := (t_config t)\<lparr>routes :=
                 map (\<lambda>r. if m_Match ms buf r then delivered ms buf r else r) (routes (t_config t))\<rparr>,
              numUnroutable := numUnroutable t + of_bool (\<forall>r \<in> set (routes (t_config t)). \<not> m_Match ms buf r)\<rparr>)"
proof -
  have "\<forall>r \<in> set (routes (t_config t)). carbon_ready r" using assms by (simp add: table_ready_def)
  from carbon.send_to_routes_ok [OF this, of dial flush buf buf] show ?thesis
    by (simp add: DispatchAggregate_def Let_def del: bind_outcome_eq_Ok)
qed

definition sum_table :: "carbon Table" where
  "sum_table = example_table [] [example_route ''r'' (fst (matcher_New [] [] [] [] ''^sum$'' []))]"

lemma sum_table_ready: "table_ready carbon_ready sum_table"
  using example_table_ready [of "[]" "[(''r'', fst (matcher_New [] [] [] [] ''^sum$'' []))]"] by (simp add: sum_table_def)

theorem aggregates_are_matched_by_line_witness:
  "\<exists>t'. DispatchAggregate (carbon_methods (\<lambda>_. None) (\<lambda>_. None)) ''sum 5.000000 10'' sum_table = Ok t' \<and>
    numUnroutable t' = 1"
proof -
  have "\<forall>r \<in> set (routes (t_config sum_table)). \<not> m_Match (carbon_methods (\<lambda>_. None) (\<lambda>_. None)) ''sum 5.000000 10'' r"
    by code_simp
  with aggregates_are_matched_by_line [OF sum_table_ready, of "\<lambda>_. None" "\<lambda>_. None" "''sum 5.000000 10''"]
  show ?thesis by (auto simp: Let_def sum_table_def example_table_def table_New_def)
qed

text \<open>a route for the key \<open>sum\<close> gets the line of that key when it comes from an input, but not when the
  same line comes from an aggregator: then it is counted as unroutable.\<close>

theorem aggregates_are_not_routed_like_metrics:
  "\<exists>t1 t2. Dispatch (carbon_methods (\<lambda>_. None) (\<lambda>_. None)) example_validator 10 ''sum 5.000000 10'' sum_table = Ok t1 \<and>
    DispatchAggregate (carbon_methods (\<lambda>_. None) (\<lambda>_. None)) ''sum 5.000000 10'' sum_table = Ok t2 \<and>
    map snd (routes (t_config t1)) = [[(0, ''sum 5.000000 10'')]] \<and> numUnroutable t1 = 0 \<and>
    map snd (routes (t_config t2)) = [[]] \<and> numUnroutable t2 = 1"
proof -
  let ?ms = "carbon_methods (\<lambda>_. None) (\<lambda>_. None)" and ?l = "''sum 5.000000 10''"
  have "case Dispatch ?ms example_validator 10 ?l sum_table of Panic _ \<Rightarrow> False
    | Ok t1 \<Rightarrow> map snd (routes (t_config t1)) = [[(0, ?l)]] \<and> numUnroutable t1 = 0"
    by code_simp
  moreover have "case DispatchAggregate ?ms ?l sum_table of Panic _ \<Rightarrow> False
    | Ok t2 \<Rightarrow> map snd (routes (t_config t2)) = [[]] \<and> numUnroutable t2 = 1"
    by code_simp
  ultimately show ?thesis by (auto split: outcome.splits)
qed


lemma find_find_index:
  "find P xs = (case find_index P xs of None \<Rightarrow> None | Some i \<Rightarrow> Some (xs ! i))"
  by (induction xs) (auto split: option.splits)

lemma find_remove_nth:
  assumes "find_index P xs = Some i" "\<And>x. P x \<Longrightarrow> \<not> Q x"
  shows "find Q (remove_nth i xs) = find Q xs"
  using assms
proof (induction xs arbitrary: i)
  case (Cons x xs)
  then show ?case
    by (cases "P x") (auto simp: remove_nth_def)
qed simp

lemma find_index_remove_nth:
  assumes "distinct (map k xs)" "find_index (\<lambda>x. k x = v) xs = Some i"
  shows "find_index (\<lambda>x. k x = v) (remove_nth i xs) = None"
proof -
  have "i < length xs" "k (xs ! i) = v" using find_index_SomeD [OF assms(2)] by auto
  then have "\<forall>x \<in> set (remove_nth i xs). k x \<noteq> v"
    using assms(1) by (auto simp: remove_nth_def in_set_conv_nth distinct_conv_nth)
  then show ?thesis by (simp add: find_index_None_iff)
qed

text \<open>the deletion of a route is idempotent and local: when keys are distinct, the route of the key is
  gone afterwards and has been shut down, the lookup of every other key gives what it gave, a second
  deletion changes nothing and reports no error, as does the deletion of an unknown key.\<close>

theorem route_deletion:
  assumes "distinct (map (m_Key ms) (routes (t_config t)))" and "tbl_DelRoute ms key t = (t', res)"
  shows "GetRoute ms key t' = None \<and> (\<forall>k. k \<noteq> key \<longrightarrow> GetRoute ms k t' = GetRoute ms k t) \<and>
    tbl_DelRoute ms key t' = (t', None) \<and>
    res = map_option (m_Shutdown ms) (GetRoute ms key t) \<and> (GetRoute ms key t = None \<longrightarrow> t' = t)"
proof (cases "find_index (\<lambda>r. m_Key ms r = key) (routes (t_config t))")
  case None
  then show ?thesis
    using assms(2) by (auto simp: tbl_DelRoute_def GetRoute_def find_find_index Let_def)
next
  case (Some i)
  then have t': "t' = t\<lparr>t_config := (t_config t)\<lparr>routes := remove_nth i (routes (t_config t))\<rparr>\<rparr>"
    "res = Some (m_Shutdown ms (routes (t_config t) ! i))"
    using assms(2) by (auto simp: tbl_DelRoute_def Let_def)
  have gone: "find_index (\<lambda>r. m_Key ms r = key) (routes (t_config t')) = None"
    using find_index_remove_nth [OF assms(1) Some] by (simp add: t')
  have "GetRoute ms k t' = GetRoute ms k t" if "k \<noteq> key" for k
    using find_remove_nth [OF Some, of "\<lambda>r. m_Key ms r = k"] that by (simp add: GetRoute_def t')
  moreover have "tbl_DelRoute ms key t' = (t', None)"
    using gone by (simp add: tbl_DelRoute_def Let_def)
  ultimately show ?thesis
    using gone Some t'(2) by (simp add: GetRoute_def find_find_index)
qed

theorem route_deletion_witness:
  "\<exists>t'. tbl_DelRoute (carbon_methods (\<lambda>_. None) (\<lambda>_. None)) ''r''
      (example_table [] [example_route ''r'' (prefix_matcher ''foo''), example_route ''s'' (prefix_matcher ''bar'')]) =
      (t', Some (Ok (Some (example_route ''r'' (prefix_matcher ''foo''), [NotRunningYet])))) \<and>
    GetRoute (carbon_methods (\<lambda>_. None) (\<lambda>_. None)) ''r'' t' = None"
proof -
  let ?t = "example_table [] [example_route ''r'' (prefix_matcher ''foo''), example_route ''s'' (prefix_matcher ''bar'')]"
  let ?ms = "carbon_methods (\<lambda>_. None) (\<lambda>_. None)"
  obtain t' res where d: "tbl_DelRoute ?ms ''r'' ?t = (t', res)" by fastforce
  have k: "distinct (map (m_Key ?ms) (routes (t_config ?t)))"
    by (simp add: example_table_def table_New_def carbon_methods_def example_route_def)
  have "map_option (m_Shutdown ?ms) (GetRoute ?ms ''r'' ?t) =
      Some (Ok (Some (example_route ''r'' (prefix_matcher ''foo''), [NotRunningYet])))"
    by code_simp
  with route_deletion [OF k d] d show ?thesis by simp
qed

text \<open>an update of a destination, failing or not, keeps the keys and the order of the routes and changes at
  most the routes of the given key; with no such route it reports that and changes nothing.\<close>

theorem destination_updates_are_local:
  assumes "tbl_UpdateDestination (carbon_methods dial flush) key index opts t = Ok (Some (t', e))"
  shows "map (\<lambda>c. rt_key (fst c)) (routes (t_config t')) = map (\<lambda>c. rt_key (fst c)) (routes (t_config t)) \<and>
    (\<forall>i < length (routes (t_config t)). rt_key (fst (routes (t_config t) ! i)) \<noteq> key \<longrightarrow>
       routes (t_config t') ! i = routes (t_config t) ! i) \<and>
    (GetRoute (carbon_methods dial flush) key t = None \<longrightarrow> t' = t \<and> e = Some (NoRoute key))"
proof -
  have k: "m_Key (carbon_methods dial flush) = (\<lambda>c. rt_key (fst c))" by (simp add: carbon_methods_def)
  have "m_Key (carbon_methods dial flush) r' = m_Key (carbon_methods dial flush) r"
    if "m_UpdateDestination (carbon_methods dial flush) index opts r = Ok (Some (r', e))" for r r' e
    by (rule carbon.UpdateDestination_key [OF that])
  from carbon.on_route_local [OF assms [unfolded tbl_UpdateDestination_def] this] show ?thesis
    unfolding k .
qed

theorem destination_updates_are_local_witness:
  "\<exists>t'. tbl_UpdateDestination (carbon_methods (\<lambda>_. None) (\<lambda>_. None)) ''s'' 0 [(''sub'', ''x'')]
      (example_table [] [example_route ''r'' (prefix_matcher ''foo'')]) = Ok (Some (t', Some (NoRoute ''s''))) \<and>
    map (\<lambda>c. rt_key (fst c)) (routes (t_config t')) = [''r'']"
proof -
  let ?t = "example_table [] [example_route ''r'' (prefix_matcher ''foo'')]"
  have "tbl_UpdateDestination (carbon_methods (\<lambda>_. None) (\<lambda>_. None)) ''s'' 0 [(''sub'', ''x'')] ?t =
      Ok (Some (?t, Some (NoRoute ''s'')))"
    by (simp add: tbl_UpdateDestination_def on_route_def GetRoute_def example_table_def table_New_def
        carbon_methods_def example_route_def)
  from destination_updates_are_local [OF this] this show ?thesis
    by (simp add: example_table_def table_New_def example_route_def)
qed

end
