(* ===== verification/Persist_Schemas.thy ===== *)
theory Persist_Schemas
  imports Go_Regexp
begin

text \<open>
  The storage schemas: \<^verbatim>\<open>persister/ini.go\<close>, \<^verbatim>\<open>persister/whisper_schema.go\<close>, \<^verbatim>\<open>go-whisper/whisper.go\<close>
  and \<^verbatim>\<open>route/schemas.go\<close>: the file of sections, the retentions of a section, the order of the
  schemas, and the conversion of a line into metric data with the interval of its schema.

  \<^item> A section is an association list; \<open>strings.ToLower\<close> and \<open>TrimSpace\<close> are those of ASCII texts.
  \<^item> \<open>dur\<close> stands for \<open>dur.ParseDuration\<close> of the third-party raintank/dur: seconds, or nothing on an
    error. \<open>valid\<close> stands for \<open>MetricData.Validate\<close> of metrictank. A file is its content, or nothing
    when it cannot be read.
  \<^item> Priorities are 64-bit; \<open>sort.Sort\<close> is taken to be a stable sort, which matters only for equal
    priorities.
\<close>

subsection \<open>The file of sections\<close>

type_synonym section_map = "(bytes \<times> bytes) list"

datatype ini_error = CannotRead | UnfinishedSection nat | EmptySectionName nat | NoSection nat
  | NoKeyValue nat | EmptyKey nat

definition lower_char :: "char \<Rightarrow> char" where
  "lower_char c = (if CHR ''A'' \<le> c \<and> c \<le> CHR ''Z'' then char_of ((of_char c :: nat) + 32) else c)"

definition to_lower :: "bytes \<Rightarrow> bytes" where
  "to_lower s = map lower_char s"

definition flush_section :: "section_map option \<Rightarrow> section_map list \<Rightarrow> section_map list" where
  "flush_section sec config = (case sec of None \<Rightarrow> config | Some m \<Rightarrow> config @ [m])"

fun ini_lines :: "nat \<Rightarrow> bytes list \<Rightarrow> section_map option \<Rightarrow> section_map list \<Rightarrow> ini_error + section_map list" where
  "ini_lines i [] sec config = Inr (flush_section sec config)"
| "ini_lines i (l # ls) sec config =
     (let line = trim_space l
      in if length line = 0 then ini_lines (i + 1) ls sec config
         else if hd line = CHR '';'' \<or> hd line = CHR ''#'' then ini_lines (i + 1) ls sec config
         else if hd line = CHR ''['' then
           (if last line \<noteq> CHR '']'' then Inl (UnfinishedSection (i + 1))
            else let name = trim_space (butlast (tl line))
                 in if length name = 0 then Inl (EmptySectionName (i + 1))
                    else ini_lines (i + 1) ls (Some [(''name'', name)]) (flush_section sec config))
         else case sec of
                None \<Rightarrow> Inl (NoSection (i + 1))
              | Some m \<Rightarrow>
                  let kv = split_n line ''='' 2
                  in if length kv \<noteq> 2 then Inl (NoKeyValue (i + 1))
                     else let key = to_lower (trim_space (kv ! 0));
                              value = trim_chars [CHR 0x22, CHR 0x27] (trim_space (kv ! 1))
                          in if key = [] then Inl (EmptyKey (i + 1))
                             else ini_lines (i + 1) ls (Some (AList.update key value m)) config)"

definition parseIniFile :: "bytes option \<Rightarrow> ini_error + section_map list" where
  "parseIniFile file =
     (case file of
        None \<Rightarrow> Inl CannotRead
      | Some body \<Rightarrow> ini_lines 0 (go_split body [CHR 0x0A]) None [])"

definition get :: "bytes \<Rightarrow> section_map \<Rightarrow> bytes" where
  "get k m = (case map_of m k of None \<Rightarrow> [] | Some v \<Rightarrow> v)"

subsection \<open>Retentions\<close>

record Retention =
  secondsPerPoint :: int
  numberOfPoints :: int

datatype schema_error = IniError ini_error | BadRetention bytes | EmptyPattern bytes | BadPattern regexp_error
  | BadPriority num_error | EmptyRetentions | ZeroInterval | NoDefault

definition ParseRetentionDef :: "(bytes \<Rightarrow> uint32 option) \<Rightarrow> bytes \<Rightarrow> (schema_error + Retention) outcome" where
  "ParseRetentionDef dur retentionDef =
     (let parts = go_split retentionDef '':''
      in if length parts \<noteq> 2 then Ok (Inl (BadRetention retentionDef))
         else case dur (parts ! 0) of
                None \<Rightarrow> Ok (Inl (BadRetention retentionDef))
              | Some precision \<Rightarrow>
                  (case dur (parts ! 1) of
                     None \<Rightarrow> Ok (Inl (BadRetention retentionDef))
                   | Some points \<Rightarrow>
                       if precision = 0 then Panic DivisionByZero
                       else Ok (Inr \<lparr>secondsPerPoint = uint precision, numberOfPoints = uint (points div precision)\<rparr>)))"

fun retention_defs :: "(bytes \<Rightarrow> uint32 option) \<Rightarrow> bytes list \<Rightarrow> (schema_error + Retention list) outcome" where
  "retention_defs dur [] = Ok (Inr [])"
| "retention_defs dur (d # ds) =
     (let retentionDef = trim_space d; parts = go_split retentionDef '':''
      in if length parts \<noteq> 2 then Ok (Inl (BadRetention retentionDef))
         else
           bind_try
             (case (parse_int (parts ! 0) 64, parse_int (parts ! 1) 64) of
                (Inr val1, Inr val2) \<Rightarrow> Ok (Inr \<lparr>secondsPerPoint = val1, numberOfPoints = val2\<rparr>)
              | _ \<Rightarrow> ParseRetentionDef dur retentionDef)
             (\<lambda>ret. bind_try (retention_defs dur ds) (\<lambda>rets. Ok (Inr (ret # rets)))))"

definition ParseRetentionDefs :: "(bytes \<Rightarrow> uint32 option) \<Rightarrow> bytes \<Rightarrow> (schema_error + Retention list) outcome" where
  "ParseRetentionDefs dur s = retention_defs dur (go_split s '','')"

subsection \<open>Schemas\<close>

record Schema =
  sc_Name :: bytes
  PatternStr :: bytes
  Pattern :: regexp
  RetentionStr :: bytes
  Retentions :: "Retention list"
  Priority :: int
  IntervalsStr :: bytes
  RelativeToQueryStr :: bytes

definition schema_priority :: "int \<Rightarrow> nat \<Rightarrow> int" where
  "schema_priority p i = sint (push_bit 32 (word_of_int p :: 64 word) - word_of_nat i)"

definition read_priority :: "bytes \<Rightarrow> schema_error + int" where
  "read_priority s =
     (if s = [] then Inr 0
      else case parse_int s 64 of Inl e \<Rightarrow> Inl (BadPriority e) | Inr p \<Rightarrow> Inr p)"

definition read_section :: "(bytes \<Rightarrow> uint32 option) \<Rightarrow> nat \<Rightarrow> section_map \<Rightarrow> (schema_error + Schema) outcome" where
  "read_section dur i sec =
     (if get ''pattern'' sec = [] then Ok (Inl (EmptyPattern (get ''name'' sec)))
      else case Compile (get ''pattern'' sec) of
             Inl e \<Rightarrow> Ok (Inl (BadPattern e))
           | Inr re \<Rightarrow>
               bind_try (ParseRetentionDefs dur (get ''retentions'' sec)) (\<lambda>rets.
               bind_try (Ok (read_priority (get ''priority'' sec))) (\<lambda>p.
                 Ok (Inr \<lparr>sc_Name = get ''name'' sec, PatternStr = get ''pattern'' sec, Pattern = re,
                          RetentionStr = get ''retentions'' sec, Retentions = rets,
                          Priority = schema_priority p i, IntervalsStr = get ''intervals'' sec,
                          RelativeToQueryStr = get ''relativetoquery'' sec\<rparr>))))"

fun read_sections :: "(bytes \<Rightarrow> uint32 option) \<Rightarrow> nat \<Rightarrow> section_map list \<Rightarrow> (schema_error + Schema list) outcome" where
  "read_sections dur i [] = Ok (Inr [])"
| "read_sections dur i (sec # secs) =
     bind_try (read_section dur i sec) (\<lambda>s.
     bind_try (read_sections dur (i + 1) secs) (\<lambda>ss. Ok (Inr (s # ss))))"

definition ReadWhisperSchemas :: "(bytes \<Rightarrow> uint32 option) \<Rightarrow> bytes option \<Rightarrow> (schema_error + Schema list) outcome" where
  "ReadWhisperSchemas dur file =
     (case parseIniFile file of
        Inl e \<Rightarrow> Ok (Inl (IniError e))
      | Inr config \<Rightarrow>
          bind_try (read_sections dur 0 config) (\<lambda>schemas.
            Ok (Inr (sort_key (\<lambda>s. - Priority s) schemas))))"

definition schema_Match :: "bytes \<Rightarrow> Schema list \<Rightarrow> Schema option" where
  "schema_Match metric ss = find (\<lambda>s. MatchBytes (Pattern s) metric) ss"

definition schema_String :: "Schema \<Rightarrow> bytes" where
  "schema_String s =
     ''['' @ sc_Name s @ '']'' @ [CHR 0x0A] @
     ''pattern = '' @ PatternStr s @ [CHR 0x0A] @
     ''retentions = '' @ RetentionStr s @ [CHR 0x0A] @
     ''priority = '' @ format_int (Priority s) @ [CHR 0x0A] @
     (if IntervalsStr s \<noteq> [] then ''intervals = '' @ IntervalsStr s @ [CHR 0x0A] else []) @
     (if RelativeToQueryStr s \<noteq> [] then ''relativeToQuery = '' @ RelativeToQueryStr s @ [CHR 0x0A] else [])"

definition schemas_String :: "Schema list \<Rightarrow> bytes" where
  "schemas_String ss = concat (map schema_String ss)"

subsection \<open>The routes' use of the schemas\<close>

fun check_schemas :: "bool \<Rightarrow> Schema list \<Rightarrow> schema_error option" where
  "check_schemas defaultFound [] = (if \<not> defaultFound then Some NoDefault else None)"
| "check_schemas defaultFound (s # ss) =
     (let found = defaultFound \<or> PatternStr s = ''.*''
      in if length (Retentions s) = 0 then Some EmptyRetentions
         else if \<exists>ret \<in> set (Retentions s). secondsPerPoint ret = 0 then Some ZeroInterval
         else check_schemas found ss)"

definition getSchemas :: "(bytes \<Rightarrow> uint32 option) \<Rightarrow> bytes option \<Rightarrow> (schema_error + Schema list) outcome" where
  "getSchemas dur file =
     bind_try (ReadWhisperSchemas dur file) (\<lambda>ss.
       (case check_schemas False ss of Some e \<Rightarrow> Ok (Inl e) | None \<Rightarrow> Ok (Inr ss)))"

record MetricData =
  md_Name :: bytes
  md_Interval :: int
  md_Value :: real
  md_Unit :: bytes
  md_Time :: nat
  md_Mtype :: bytes
  md_Tags :: "bytes list"
  md_OrgId :: int

datatype parse_metric_error = Need3Fields | BadValue num_error | BadTimestamp num_error | InvalidMetric

definition name_with_tags :: "bytes \<Rightarrow> bytes" where
  "name_with_tags s =
     (let elements = go_split s '';''; tags = sort (tl elements)
      in hd elements @ '';'' @ go_join tags '';'')"

definition parseMetric :: "(MetricData \<Rightarrow> bool) \<Rightarrow> bytes \<Rightarrow> Schema list \<Rightarrow> int \<Rightarrow> (parse_metric_error + MetricData) outcome" where
  "parseMetric valid buf schemas orgId =
     (let elements = Go_Strings.fields (trim_space buf)
      in if length elements \<noteq> 3 then Ok (Inl Need3Fields)
         else case parse_float (elements ! 1) of
           Inl e \<Rightarrow> Ok (Inl (BadValue e))
         | Inr val \<Rightarrow>
             (case parse_uint (elements ! 2) 32 of
                Inl e \<Rightarrow> Ok (Inl (BadTimestamp e))
              | Inr timestamp \<Rightarrow>
                  (let parts = go_split (elements ! 0) '';''; name = hd parts; tags = sort (tl parts)
                   in case schema_Match (name_with_tags (elements ! 0)) schemas of
                        None \<Rightarrow> Panic (ExplicitPanic name)
                      | Some s \<Rightarrow>
                          if Retentions s = [] then Panic IndexOutOfRange
                          else
                            let md = \<lparr>md_Name = name, md_Interval = secondsPerPoint (hd (Retentions s)), md_Value = val,
                                      md_Unit = ''unknown'', md_Time = timestamp, md_Mtype = ''gauge'',
                                      md_Tags = tags, md_OrgId = orgId\<rparr>
                            in if valid md then Ok (Inr md) else Ok (Inl InvalidMetric))))"


text \<open>The metric data of the lines that can be converted.\<close>

definition parsed :: "(MetricData \<Rightarrow> bool) \<Rightarrow> Schema list \<Rightarrow> int \<Rightarrow> bytes list \<Rightarrow> MetricData list" where
  "parsed valid schemas org q =
     List.map_filter (\<lambda>buf. case parseMetric valid buf schemas org of Ok (Inr md) \<Rightarrow> Some md | _ \<Rightarrow> None) q"

lemma parsed_append [simp]: "parsed valid ss org (xs @ ys) = parsed valid ss org xs @ parsed valid ss org ys"
  by (simp add: parsed_def List.map_filter_def)

lemma parsed_Nil [simp]: "parsed valid ss org [] = []"
  by (simp add: parsed_def List.map_filter_def)

lemma parsed_Cons: "parsed valid ss org (buf # q) =
    (case parseMetric valid buf ss org of Ok (Inr md) \<Rightarrow> [md] | _ \<Rightarrow> []) @ parsed valid ss org q"
  by (auto simp: parsed_def List.map_filter_def split: outcome.splits sum.splits)


subsection \<open>The order of the schemas\<close>

definition section_priority :: "section_map \<Rightarrow> int" where
  "section_priority sec = (case read_priority (get ''priority'' sec) of Inl _ \<Rightarrow> 0 | Inr p \<Rightarrow> p)"

lemma schema_priority_word: "schema_priority p i = sint (word_of_int (p * 2 ^ 32 - int i) :: 64 word)"
  by (simp add: schema_priority_def push_bit_eq_mult mult.commute)

lemma schema_priority_exact:
  assumes "\<bar>p\<bar> < 2 ^ 31" "i < 2 ^ 32"
  shows "schema_priority p i = p * 2 ^ 32 - int i"
  unfolding schema_priority_word
  by (subst signed_of_int) (use assms in \<open>auto intro!: signed_take_bit_int_eq_self\<close>)

lemma read_sections_nth:
  "read_sections dur k secs = Ok (Inr ss) \<Longrightarrow>
     length ss = length secs \<and> (\<forall>i < length secs. read_section dur (k + i) (secs ! i) = Ok (Inr (ss ! i)))"
proof (induction secs arbitrary: k ss)
  case (Cons sec secs)
  then obtain s ss' where s: "read_section dur k sec = Ok (Inr s)"
      "read_sections dur (k + 1) secs = Ok (Inr ss')" "ss = s # ss'"
    by auto
  from Cons.IH [OF s(2)] s show ?case by (auto simp: nth_Cons split: nat.splits)
qed simp

lemma read_section_fields:
  "read_section dur i sec = Ok (Inr s) \<Longrightarrow>
     Priority s = schema_priority (section_priority sec) i \<and> Compile (PatternStr s) = Inr (Pattern s)"
  by (auto simp: read_section_def section_priority_def split: if_splits sum.splits)

lemma ReadWhisperSchemas_sections:
  assumes "ReadWhisperSchemas dur file = Ok (Inr ss)"
  obtains secs ss0 where "parseIniFile file = Inr secs" "length ss0 = length secs"
    "\<forall>i < length secs. read_section dur i (secs ! i) = Ok (Inr (ss0 ! i))"
    "ss = sort_key (\<lambda>s. - Priority s) ss0"
proof -
  from assms obtain secs ss0 where "parseIniFile file = Inr secs" "read_sections dur 0 secs = Ok (Inr ss0)"
      "ss = sort_key (\<lambda>s. - Priority s) ss0"
    by (auto simp: ReadWhisperSchemas_def split: sum.splits)
  then show thesis using read_sections_nth [of dur 0 secs ss0] by (intro that [of secs ss0]) simp_all
qed

lemma find_sorted_first:
  assumes "find P xs = Some x" "sorted (map f xs)" "y \<in> set xs" "P y"
  shows "P x \<and> x \<in> set xs \<and> f x \<le> f y"
proof -
  from assms(1) obtain i where i: "i < length xs" "P (xs ! i)" "x = xs ! i" "\<forall>j < i. \<not> P (xs ! j)"
    by (auto simp: find_Some_iff)
  from assms(3) obtain j where j: "j < length xs" "xs ! j = y" by (auto simp: in_set_conv_nth)
  have "i \<le> j" using i(4) assms(4) j by (meson leI)
  then have "map f xs ! i \<le> map f xs ! j" using assms(2) j(1) by (intro sorted_nth_mono) auto
  then show ?thesis using i j by auto
qed

lemma priority_order:
  fixes p q :: int
  assumes "p * 2 ^ 32 - int i \<ge> q * 2 ^ 32 - int j" "i < 2 ^ 32" "j < 2 ^ 32"
  shows "q < p \<or> q = p \<and> i \<le> j"
proof (rule disjCI)
  assume n: "\<not> (q = p \<and> i \<le> j)"
  show "q < p"
  proof (rule ccontr)
    assume "\<not> q < p"
    then consider "p + 1 \<le> q" | "p = q" by linarith
    then show False
    proof cases
      case 1
      then have "(p + 1) * 2 ^ 32 \<le> q * 2 ^ 32" by simp
      then show False using assms by (simp add: distrib_right)
    next
      case 2
      then show False using n assms(1) by simp
    qed
  qed
qed

subsection \<open>The default schema\<close>

lemma check_schemas_None:
  "check_schemas d ss = None \<Longrightarrow>
     (d \<or> (\<exists>s \<in> set ss. PatternStr s = ''.*'')) \<and>
     (\<forall>s \<in> set ss. Retentions s \<noteq> [] \<and> (\<forall>ret \<in> set (Retentions s). secondsPerPoint ret \<noteq> 0))"
  by (induction d ss rule: check_schemas.induct) (auto simp: Let_def split: if_splits)

lemma Compile_any: "Compile ''.*'' = Inr (OpStar True OpAnyNotNL)"
  by code_simp

lemma any_matches: "MatchBytes (OpStar True OpAnyNotNL) s"
  by (auto simp: MatchBytes_iff)

lemma getSchemas_ok:
  assumes "getSchemas dur file = Ok (Inr ss)"
  shows "schema_Match metric ss \<noteq> None" "s \<in> set ss \<Longrightarrow> Retentions s \<noteq> [] \<and> secondsPerPoint (hd (Retentions s)) \<noteq> 0"
proof -
  from assms have r: "ReadWhisperSchemas dur file = Ok (Inr ss)" "check_schemas False ss = None"
    by (auto simp: getSchemas_def split: option.splits)
  obtain secs ss0 where "length ss0 = length secs"
    "\<forall>i < length secs. read_section dur i (secs ! i) = Ok (Inr (ss0 ! i))"
    "ss = sort_key (\<lambda>s. - Priority s) ss0"
    using ReadWhisperSchemas_sections [OF r(1)] .
  then have comp: "Compile (PatternStr s) = Inr (Pattern s)" if "s \<in> set ss" for s
    using that read_section_fields by (auto simp: in_set_conv_nth)
  from check_schemas_None [OF r(2)] obtain d where d: "d \<in> set ss" "PatternStr d = ''.*''" by auto
  then have "Pattern d = OpStar True OpAnyNotNL" using comp [OF d(1)] Compile_any by simp
  then show "schema_Match metric ss \<noteq> None"
    using d(1) any_matches unfolding schema_Match_def find_None_iff by metis
  show "s \<in> set ss \<Longrightarrow> Retentions s \<noteq> [] \<and> secondsPerPoint (hd (Retentions s)) \<noteq> 0"
    using check_schemas_None [OF r(2)] by (cases "Retentions s") auto
qed


subsection \<open>Properties\<close>

text \<open>C21: The schema of a metric is that of the section with the highest priority whose pattern matches,
  and among these of the first in the file; the priorities are those that the packing into 64 bits
  keeps apart, below \<open>2 ^ 31\<close> in absolute value.\<close>

theorem schema_of_highest_priority:
  assumes "ReadWhisperSchemas dur file = Ok (Inr ss)" and "parseIniFile file = Inr secs"
    and "\<forall>sec \<in> set secs. \<bar>section_priority sec\<bar> < 2 ^ 31" and "length secs < 2 ^ 32"
    and "schema_Match metric ss = Some s"
  shows "\<exists>i < length secs. read_section dur i (secs ! i) = Ok (Inr s) \<and> MatchBytes (Pattern s) metric \<and>
    (\<forall>j < length secs. \<forall>s'. read_section dur j (secs ! j) = Ok (Inr s') \<and> MatchBytes (Pattern s') metric \<longrightarrow>
       section_priority (secs ! j) < section_priority (secs ! i) \<or>
       section_priority (secs ! j) = section_priority (secs ! i) \<and> i \<le> j)"
proof -
  obtain ss0 where ss0: "length ss0 = length secs"
    "\<forall>i < length secs. read_section dur i (secs ! i) = Ok (Inr (ss0 ! i))"
    "ss = sort_key (\<lambda>s. - Priority s) ss0"
    by (rule ReadWhisperSchemas_sections [OF assms(1)]) (use assms(2) in simp)
  have sorted: "sorted (map (\<lambda>s. - Priority s) ss)" using ss0(3) by simp
  have prio: "Priority (ss0 ! i) = section_priority (secs ! i) * 2 ^ 32 - int i" if "i < length secs" for i
    using read_section_fields [OF ss0(2) [rule_format, OF that]] assms(3,4) that
    by (simp add: schema_priority_exact)
  note first = find_sorted_first [OF assms(5) [unfolded schema_Match_def] sorted]
  have s: "s \<in> set ss" "MatchBytes (Pattern s) metric"
    using assms(5) by (auto simp: schema_Match_def find_Some_iff in_set_conv_nth)
  then obtain i where i: "i < length secs" "s = ss0 ! i"
    using ss0(1,3) by (auto simp: in_set_conv_nth)
  have "section_priority (secs ! j) < section_priority (secs ! i) \<or>
      section_priority (secs ! j) = section_priority (secs ! i) \<and> i \<le> j"
    if j: "j < length secs" "read_section dur j (secs ! j) = Ok (Inr s')" "MatchBytes (Pattern s') metric" for j s'
  proof -
    have s': "s' = ss0 ! j" using ss0(2) j(1,2) by auto
    then have "s' \<in> set ss" using ss0(1,3) j(1) by auto
    from first [OF this j(3)] have "Priority s \<ge> Priority s'" by simp
    then have "section_priority (secs ! i) * 2 ^ 32 - int i \<ge> section_priority (secs ! j) * 2 ^ 32 - int j"
      using prio [OF i(1)] prio [OF j(1)] i(2) s' by simp
    from priority_order [OF this] show ?thesis using assms(4) i(1) j(1) by simp
  qed
  then show ?thesis using i s ss0(2) by blast
qed

definition example_dur :: "bytes \<Rightarrow> uint32 option" where
  "example_dur s = (if s = ''10s'' then Some 10 else if s = ''1d'' then Some 86400 else None)"

definition example_file :: bytes where
  "example_file =
     ''[all]'' @ [CHR 0x0A] @ ''pattern = .*'' @ [CHR 0x0A] @ ''retentions = 60:1440'' @ [CHR 0x0A] @
     ''[web]'' @ [CHR 0x0A] @ ''pattern = ^web'' @ [CHR 0x0A] @ ''retentions = 10s:1d'' @ [CHR 0x0A] @
     ''priority = 5'' @ [CHR 0x0A]"

definition example_secs :: "section_map list" where
  "example_secs =
    [[(''name'', ''all''), (''pattern'', ''.*''), (''retentions'', ''60:1440'')],
         [(''name'', ''web''), (''pattern'', ''^web''), (''retentions'', ''10s:1d''), (''priority'', ''5'')]]"

lemma example_sections: "parseIniFile (Some example_file) = Inr example_secs"
  by code_simp

theorem schema_of_highest_priority_witness:
  "\<exists>ss s. ReadWhisperSchemas example_dur (Some example_file) = Ok (Inr ss) \<and>
    schema_Match ''web.hits;'' ss = Some s \<and>
    (\<exists>i < length example_secs. read_section example_dur i (example_secs ! i) = Ok (Inr s))"
proof -
  have "case ReadWhisperSchemas example_dur (Some example_file) of
      Ok (Inr ss) \<Rightarrow> schema_Match ''web.hits;'' ss \<noteq> None | _ \<Rightarrow> False"
    by code_simp
  then obtain ss s where ss: "ReadWhisperSchemas example_dur (Some example_file) = Ok (Inr ss)"
      "schema_Match ''web.hits;'' ss = Some s"
    by (auto split: outcome.splits sum.splits)
  have p: "\<forall>sec \<in> set example_secs. \<bar>section_priority sec\<bar> < 2 ^ 31"
    by code_simp
  from schema_of_highest_priority [OF ss(1) example_sections p _ ss(2)] ss show ?thesis
    by (auto simp: example_secs_def [THEN arg_cong [of _ _ length]])
qed

lemma parseMetric_ok:
  assumes "getSchemas dur file = Ok (Inr ss)"
  shows "\<exists>r. parseMetric valid buf ss orgId = Ok r \<and> (\<forall>md. r = Inr md \<longrightarrow> md_Interval md \<noteq> 0 \<and> md_OrgId md = orgId)"
proof -
  have "Retentions s \<noteq> [] \<and> secondsPerPoint (hd (Retentions s)) \<noteq> 0" if "schema_Match metric ss = Some s" for metric s
    using getSchemas_ok(2) [OF assms] that by (auto simp: schema_Match_def find_Some_iff)
  moreover have "\<exists>s. schema_Match metric ss = Some s" for metric
    using getSchemas_ok(1) [OF assms, of metric] by auto
  ultimately show ?thesis
    unfolding parseMetric_def Let_def
    by (auto split: sum.splits option.splits) (metis option.distinct(1))+
qed

text \<open>C22: The schemas that the routes accept have an interval for every metric, so that the conversion of a line
  never panics, and the interval is not zero.\<close>

theorem parse_metric_finds_an_interval:
  assumes "getSchemas dur file = Ok (Inr ss)"
  shows "\<exists>r. parseMetric valid buf ss orgId = Ok r \<and> (\<forall>md. r = Inr md \<longrightarrow> md_Interval md \<noteq> 0 \<and> md_OrgId md = orgId)"
  by (rule parseMetric_ok [OF assms])

theorem parse_metric_finds_an_interval_witness:
  "\<exists>ss r. getSchemas example_dur (Some example_file) = Ok (Inr ss) \<and> parseMetric (\<lambda>_. True) ''a 1 2'' ss 1 = Ok r"
proof -
  have "case getSchemas example_dur (Some example_file) of Ok (Inr ss) \<Rightarrow> True | _ \<Rightarrow> False" by code_simp
  then obtain ss where "getSchemas example_dur (Some example_file) = Ok (Inr ss)"
    by (auto split: outcome.splits sum.splits)
  with parse_metric_finds_an_interval [OF this, of "\<lambda>_. True" "''a 1 2''" 1] show ?thesis by blast
qed

text \<open>The text that is sent to the server does not read back as the same schemas: a priority that has been
  packed with its position is packed again, and of the old one only the old position is left.\<close>

theorem printed_priority_is_lost:
  assumes "i < 2 ^ 31" and "j < 2 ^ 32"
  shows "\<exists>q. read_priority (format_int (schema_priority p i)) = Inr q \<and>
    schema_priority q j = - int i * 2 ^ 32 - int j"
proof -
  let ?q = "schema_priority p i"
  have b: "- (2 ^ 63) \<le> ?q" "?q < 2 ^ 63"
    unfolding schema_priority_def using sint_greater_eq [where 'a = 64] sint_less [where 'a = 64] by auto
  have "read_priority (format_int ?q) = Inr ?q"
    using parse_int_format_int [of 64 ?q] b format_nat_digits
    by (auto simp: read_priority_def format_int_def)
  moreover have "schema_priority ?q j = - int i * 2 ^ 32 - int j"
  proof -
    have "word_of_int (?q * 2 ^ 32 - int j) = (word_of_int (- int i * 2 ^ 32 - int j) :: 64 word)"
    proof -
      define w :: "64 word" where "w = word_of_int (p * 2 ^ 32 - int i)"
      have "w * 2 ^ 32 = word_of_int p * (2 ^ 32 * 2 ^ 32) - of_nat i * 2 ^ 32"
        by (simp add: w_def left_diff_distrib mult.assoc del: mult_numeral_left_semiring_numeral)
      moreover have zero: "(2 ^ 32 * 2 ^ 32 :: 64 word) = 0" by simp
      ultimately have "w * 2 ^ 32 = - (of_nat i * 2 ^ 32)" by (simp only: zero mult_zero_right diff_0)
      moreover have "word_of_int ?q = w" by (simp add: schema_priority_word w_def)
      ultimately show ?thesis by simp
    qed
    moreover have "sint (word_of_int (- int i * 2 ^ 32 - int j) :: 64 word) = - int i * 2 ^ 32 - int j"
      by (subst signed_of_int) (use assms in \<open>auto intro!: signed_take_bit_int_eq_self\<close>)
    ultimately show ?thesis unfolding schema_priority_word by simp
  qed
  ultimately show ?thesis by blast
qed

theorem printed_priority_is_lost_witness:
  "\<exists>q. read_priority (format_int (schema_priority 10 1)) = Inr q \<and> schema_priority q 0 = - (2 ^ 32)"
  using printed_priority_is_lost [of 1 0 10] by simp

text \<open>The name that the patterns are matched against always ends with a semicolon when there are no tags, so
  that a pattern anchored at the end never matches such a metric.\<close>

theorem anchored_pattern_misses_untagged_metric:
  "\<exists>re. Compile ''^foo$'' = Inr re \<and> MatchBytes re ''foo'' \<and>
    \<not> MatchBytes re (name_with_tags ''foo'')"
proof -
  have "case Compile ''^foo$'' of Inl _ \<Rightarrow> False
    | Inr re \<Rightarrow> MatchBytes re ''foo'' \<and> \<not> MatchBytes re (name_with_tags ''foo'')"
    by code_simp
  then show ?thesis by (auto split: sum.splits)
qed

end
