(* ===== verification/MtConf_Aggregations.thy ===== *)
theory MtConf_Aggregations
  imports Prelude Go_Regexp Go_Strconv "HOL-Library.Word"
begin

text \<open>
  \<^verbatim>\<open>pkg/mt-conf/aggregations.go\<close> and \<^verbatim>\<open>pkg/mt-conf/method.go\<close>: the rules of a storage-aggregation file, which
  the GrafanaNet route reads and uploads. The parser of the file is the third-party configparser: a file is the list of its
  sections, a section its name and the values, without comments, of the keys that exist. Indices of
  rules are 16 bits wide.
\<close>

datatype agg_method = Avg | Sum | Lst | Max | Min

definition NewMethod :: "bytes \<Rightarrow> bytes + agg_method" where
  "NewMethod str =
     (if str = ''average'' \<or> str = ''avg'' then Inr Avg
      else if str = ''sum'' then Inr Sum
      else if str = ''last'' then Inr Lst
      else if str = ''max'' then Inr Max
      else if str = ''min'' then Inr Min
      else Inl str)"

fun method_String :: "agg_method \<Rightarrow> bytes" where
  "method_String Avg = ''avg''"
| "method_String Sum = ''sum''"
| "method_String Lst = ''last''"
| "method_String Max = ''max''"
| "method_String Min = ''min''"

record agg_rule =
  ar_Name :: bytes
  ar_Pattern :: regexp
  ar_PatternStr :: bytes
  XFilesFactor :: real
  AggregationMethod :: "agg_method list"

record Aggregations =
  ag_Data :: "agg_rule list"
  DefaultAggregation :: agg_rule

definition defaultAggregation :: agg_rule where
  "defaultAggregation =
     \<lparr>ar_Name = ''default'', ar_Pattern = (case Compile ''.*'' of Inr re \<Rightarrow> re), ar_PatternStr = ''.*'',
      XFilesFactor = 1 / 2, AggregationMethod = [Avg]\<rparr>"

definition NewAggregations :: Aggregations where
  "NewAggregations = \<lparr>ag_Data = [], DefaultAggregation = defaultAggregation\<rparr>"

type_synonym agg_section = "bytes \<times> (bytes \<times> bytes) list"

datatype agg_read_error = FileUnreadable | NoRules | EmptyName | NoPattern bytes | BadPattern bytes | BadFactor bytes
  | BadMethod bytes bytes

fun read_methods :: "bytes list \<Rightarrow> bytes + agg_method list" where
  "read_methods [] = Inr []"
| "read_methods (s # ss) = bind_result (NewMethod s) (\<lambda>m. bind_result (read_methods ss) (\<lambda>ms. Inr (m # ms)))"

definition read_rule :: "agg_section \<Rightarrow> agg_read_error + agg_rule" where
  "read_rule s =
     (let name = fst s; vals = map_of (snd s)
      in if name = [] then Inl EmptyName
         else case vals ''pattern'' of
                None \<Rightarrow> Inl (NoPattern name)
              | Some patt \<Rightarrow>
                  (case Compile patt of
                     Inl _ \<Rightarrow> Inl (BadPattern name)
                   | Inr re \<Rightarrow>
                       bind_result
                         (case vals ''xFilesFactor'' of
                            None \<Rightarrow> Inr (XFilesFactor defaultAggregation)
                          | Some xff \<Rightarrow> (case parse_float xff of Inl _ \<Rightarrow> Inl (BadFactor name) | Inr x \<Rightarrow> Inr x))
                         (\<lambda>xff.
                       bind_result
                         (case vals ''aggregationMethod'' of
                            None \<Rightarrow> Inr (AggregationMethod defaultAggregation)
                          | Some ms \<Rightarrow>
                              (case read_methods (go_split ms '','') of Inl m \<Rightarrow> Inl (BadMethod name m) | Inr ms' \<Rightarrow> Inr ms'))
                         (\<lambda>ms.
                       Inr \<lparr>ar_Name = name, ar_Pattern = re, ar_PatternStr = patt, XFilesFactor = xff,
                            AggregationMethod = ms\<rparr>))))"

fun read_rules :: "agg_section list \<Rightarrow> agg_read_error + agg_rule list" where
  "read_rules [] = Inr []"
| "read_rules (s # ss) = bind_result (read_rule s) (\<lambda>r. bind_result (read_rules ss) (\<lambda>rs. Inr (r # rs)))"

definition ReadAggregations :: "agg_section list option \<Rightarrow> agg_read_error + Aggregations" where
  "ReadAggregations file =
     (case file of
        None \<Rightarrow> Inl FileUnreadable
      | Some sections \<Rightarrow>
          if sections = [] then Inl NoRules
          else bind_result (read_rules sections) (\<lambda>rs. Inr (NewAggregations\<lparr>ag_Data := rs\<rparr>)))"

text \<open>\<open>Match\<close> gives the first rule that matches, or the default, with its index.\<close>

fun match_from :: "nat \<Rightarrow> agg_rule list \<Rightarrow> bytes \<Rightarrow> (nat \<times> agg_rule) option" where
  "match_from i [] metric = None"
| "match_from i (r # rs) metric =
     (if MatchBytes (ar_Pattern r) metric then Some (i, r) else match_from (Suc i) rs metric)"

definition agg_Match :: "Aggregations \<Rightarrow> bytes \<Rightarrow> 16 word \<times> agg_rule" where
  "agg_Match a metric =
     (case match_from 0 (ag_Data a) metric of
        Some (i, r) \<Rightarrow> (word_of_nat i, r)
      | None \<Rightarrow> (word_of_nat (length (ag_Data a)), DefaultAggregation a))"

definition agg_Get :: "Aggregations \<Rightarrow> 16 word \<Rightarrow> agg_rule outcome" where
  "agg_Get a i =
     (if i + 1 > word_of_nat (length (ag_Data a)) then Ok (DefaultAggregation a)
      else if length (ag_Data a) \<le> unat i then Panic IndexOutOfRange
      else Ok (ag_Data a ! unat i))"

definition rule_Equal :: "agg_rule \<Rightarrow> agg_rule \<Rightarrow> bool" where
  "rule_Equal a b \<longleftrightarrow>
     ar_Name a = ar_Name b \<and> ar_PatternStr a = ar_PatternStr b \<and>
     \<bar>XFilesFactor a - XFilesFactor b\<bar> \<le> 1 / 1000 \<and> AggregationMethod a = AggregationMethod b"

definition agg_Equal :: "Aggregations \<Rightarrow> Aggregations \<Rightarrow> bool" where
  "agg_Equal a b \<longleftrightarrow> rule_Equal (DefaultAggregation a) (DefaultAggregation b) \<and> list_all2 rule_Equal (ag_Data a) (ag_Data b)"

text \<open>The printed rules, which are uploaded; the verb \<open>%0.1f\<close> prints the factor.\<close>

definition format_float1 :: "real \<Rightarrow> bytes" where
  "format_float1 x =
     (let n = nat (round_half_even (\<bar>x\<bar> * 10))
      in (if x < 0 then ''-'' else []) @ format_nat (n div 10) @ ''.'' @ format_nat (n mod 10))"

definition rule_String :: "agg_rule \<Rightarrow> bytes outcome" where
  "rule_String r =
     (case AggregationMethod r of
        [] \<Rightarrow> Panic IndexOutOfRange
      | m # ms \<Rightarrow>
          Ok (''['' @ ar_Name r @ '']'' @ [CHR 0x0A] @
              ''pattern = '' @ ar_PatternStr r @ [CHR 0x0A] @
              ''xFilesFactor = '' @ format_float1 (XFilesFactor r) @ [CHR 0x0A] @
              ''aggregationMethod = '' @ method_String m @ concat (map (\<lambda>m. '','' @ method_String m) ms) @ [CHR 0x0A]))"

fun rules_String :: "agg_rule list \<Rightarrow> bytes outcome" where
  "rules_String [] = Ok []"
| "rules_String (r # rs) =
     bind_outcome (rule_String r) (\<lambda>s.
     bind_outcome (rules_String rs) (\<lambda>s'. Ok (s @ (if rs = [] then [] else [CHR 0x0A]) @ s')))"

definition agg_String :: "Aggregations \<Rightarrow> bytes outcome" where
  "agg_String a = rules_String (ag_Data a)"

subsection \<open>Properties\<close>

lemma method_roundtrip: "NewMethod (method_String m) = Inr m"
  by (cases m) (simp_all add: NewMethod_def)

lemma read_methods_length: "read_methods ss = Inr ms \<Longrightarrow> length ms = length ss"
proof (induction ss arbitrary: ms)
  case (Cons s ss)
  then show ?case by (cases "NewMethod s"; cases "read_methods ss") auto
qed simp

lemma go_split_not_Nil: "go_split s sep \<noteq> []"
  by (simp add: go_split_def split_n.simps [of s] split: option.splits prod.splits)

lemma read_rule_methods: "read_rule s = Inr r \<Longrightarrow> AggregationMethod r \<noteq> []"
  using go_split_not_Nil read_methods_length
  by (fastforce simp: read_rule_def Let_def defaultAggregation_def bind_result_def
      split: if_splits option.splits sum.splits)

lemma read_rules_all:
  "read_rules ss = Inr rs \<Longrightarrow> list_all2 (\<lambda>s r. read_rule s = Inr r) ss rs"
proof (induction ss arbitrary: rs)
  case (Cons s ss)
  then show ?case by (cases "read_rule s"; cases "read_rules ss") auto
qed simp

lemma match_from_props:
  "match_from i rs metric = Some (j, r) \<Longrightarrow>
     i \<le> j \<and> j < i + length rs \<and> r = rs ! (j - i) \<and> MatchBytes (ar_Pattern r) metric \<and>
     (\<forall>k < j - i. \<not> MatchBytes (ar_Pattern (rs ! k)) metric)"
  "match_from i rs metric = None \<Longrightarrow> \<forall>r \<in> set rs. \<not> MatchBytes (ar_Pattern r) metric"
proof (induction rs arbitrary: i)
  case (Cons a rs)
  {
    case 1
    with Cons.IH(1) [of "Suc i"] show ?case
      by (cases "MatchBytes (ar_Pattern a) metric") (auto simp: nth_Cons' less_diff_conv2 gr0_conv_Suc)
  next
    case 2
    with Cons.IH(2) [of "Suc i"] show ?case by (auto split: if_splits)
  }
qed simp_all

lemma read_rules_methods:
  assumes "ReadAggregations file = Inr a" and "r \<in> set (ag_Data a)"
  shows "AggregationMethod r \<noteq> []"
proof -
  obtain ss rs where "read_rules ss = Inr rs" "ag_Data a = rs"
    using assms(1) by (auto simp: ReadAggregations_def bind_result_def split: option.splits if_splits sum.splits)
  then obtain s where "read_rule s = Inr r"
    using assms(2) list_all2_source [OF read_rules_all] by blast
  then show ?thesis by (rule read_rule_methods)
qed

lemma rules_String_Ok: "\<forall>r \<in> set rs. AggregationMethod r \<noteq> [] \<Longrightarrow> \<exists>s. rules_String rs = Ok s"
proof (induction rs)
  case (Cons r rs)
  then show ?case by (cases "AggregationMethod r") (auto simp: rule_String_def)
qed simp

lemma word16_Suc:
  assumes "n < 65535"
  shows "(word_of_nat n + 1 :: 16 word) = word_of_nat (Suc n)" "unat (word_of_nat n :: 16 word) = n"
    "unat (word_of_nat (Suc n) :: 16 word) = Suc n"
proof -
  have u: "m < 65536 \<Longrightarrow> unat (word_of_nat m :: 16 word) = m" for m
    by (simp add: unat_of_nat)
  show "(word_of_nat n + 1 :: 16 word) = word_of_nat (Suc n)" by (simp add: add.commute)
  show "unat (word_of_nat n :: 16 word) = n" "unat (word_of_nat (Suc n) :: 16 word) = Suc n"
    using assms u [of n] u [of "Suc n"] by (simp_all del: of_nat_Suc)
qed

lemma agg_Get_index:
  assumes "length (ag_Data a) < 65535" and "i \<le> length (ag_Data a)"
  shows "agg_Get a (word_of_nat i) =
    Ok (if i < length (ag_Data a) then ag_Data a ! i else DefaultAggregation a)"
proof -
  let ?n = "length (ag_Data a)"
  have i: "i < 65535" using assms by simp
  note u = word16_Suc(2) [OF assms(1)] word16_Suc(2) [OF i] word16_Suc(3) [OF i]
  have "(word_of_nat i + 1 > (word_of_nat ?n :: 16 word)) = (Suc i > ?n)"
    unfolding word_less_nat_alt word16_Suc(1) [OF i] u by simp
  then show ?thesis using assms u by (auto simp: agg_Get_def)
qed

text \<open>C32: The rules of a file that can be read can be printed: each has an aggregation method. \<open>Match\<close> gives the
  first rule that matches, or the default, and \<open>Get\<close> finds it again by its index, as long as there are fewer
  than 65535 rules.\<close>

theorem aggregation_rules_are_found_again:
  assumes "ReadAggregations file = Inr a" and "length (ag_Data a) < 65535"
  shows "(\<exists>s. agg_String a = Ok s) \<and>
    (case agg_Match a metric of (i, r) \<Rightarrow>
       agg_Get a i = Ok r \<and>
       (\<forall>k < unat i. \<not> MatchBytes (ar_Pattern (ag_Data a ! k)) metric) \<and>
       (if unat i < length (ag_Data a) then MatchBytes (ar_Pattern r) metric else r = DefaultAggregation a))"
proof -
  have "\<exists>s. agg_String a = Ok s"
    unfolding agg_String_def using read_rules_methods [OF assms(1)] by (intro rules_String_Ok) blast
  moreover have "case agg_Match a metric of (i, r) \<Rightarrow>
       agg_Get a i = Ok r \<and>
       (\<forall>k < unat i. \<not> MatchBytes (ar_Pattern (ag_Data a ! k)) metric) \<and>
       (if unat i < length (ag_Data a) then MatchBytes (ar_Pattern r) metric else r = DefaultAggregation a)"
  proof (cases "match_from 0 (ag_Data a) metric")
    case None
    then show ?thesis
      using match_from_props(2) [OF None] agg_Get_index [OF assms(2), of "length (ag_Data a)"] word16_Suc(2) [OF assms(2)]
      by (auto simp: agg_Match_def)
  next
    case (Some x)
    then obtain i r where m: "match_from 0 (ag_Data a) metric = Some (i, r)" by (cases x) auto
    from match_from_props(1) [OF m] have i: "i < length (ag_Data a)" "r = ag_Data a ! i"
      "MatchBytes (ar_Pattern r) metric" "\<forall>k < i. \<not> MatchBytes (ar_Pattern (ag_Data a ! k)) metric" by auto
    then have "unat (word_of_nat i :: 16 word) = i" using assms(2) by (intro word16_Suc(2)) simp
    with i m show ?thesis using agg_Get_index [OF assms(2), of i] by (simp add: agg_Match_def)
  qed
  ultimately show ?thesis by blast
qed

definition example_rules :: "agg_section list option" where
  "example_rules = Some [(''s'', [(''pattern'', ''x''), (''aggregationMethod'', ''sum,max'')]), (''t'', [(''pattern'', ''y'')])]"

theorem aggregation_rules_are_found_again_witness:
  "\<exists>a. ReadAggregations example_rules = Inr a \<and> agg_Get a (fst (agg_Match a ''a.y'')) = Ok (snd (agg_Match a ''a.y'')) \<and>
    fst (agg_Match a ''a.y'') = 1"
proof -
  have "case ReadAggregations example_rules of Inr a \<Rightarrow> length (ag_Data a) = 2 \<and> fst (agg_Match a ''a.y'') = 1 | _ \<Rightarrow> False"
    by code_simp
  then obtain a where a: "ReadAggregations example_rules = Inr a" "length (ag_Data a) = 2" "fst (agg_Match a ''a.y'') = 1"
    by (auto split: sum.splits)
  with aggregation_rules_are_found_again [OF a(1), of "''a.y''"] show ?thesis
    by (auto split: prod.splits)
qed

text \<open>The index 65535 is not told apart from a rule's: \<open>i + 1\<close> wraps to zero.\<close>

theorem last_index_panics:
  assumes "length (ag_Data a) \<le> 65535"
  shows "agg_Get a 65535 = Panic IndexOutOfRange"
proof -
  have z: "(65535 :: 16 word) + 1 = 0" by simp
  have "\<not> (65535 :: 16 word) + 1 > w" for w unfolding z by simp
  moreover have "unat (65535 :: 16 word) = 65535" by simp
  ultimately show ?thesis using assms unfolding agg_Get_def by metis
qed

text \<open>What is uploaded is not what was read: a factor is printed with one decimal.\<close>

theorem printed_factor_is_rounded:
  "format_float1 (1 / 4) = ''0.2'' \<and> \<not> rule_Equal (r\<lparr>XFilesFactor := 1 / 4\<rparr>) (r\<lparr>XFilesFactor := 1 / 5\<rparr>)"
proof -
  have "\<lfloor>5 / 2 :: real\<rfloor> = 2" by (simp add: floor_eq_iff)
  then have "round_half_even (5 / 2) = 2" by (simp add: round_half_even_def)
  moreover have "format_nat 2 = ''2''" "format_nat 0 = ''0''" by code_simp+
  ultimately show ?thesis by (simp add: format_float1_def rule_Equal_def)
qed

end
