(* ===== verification/Route_Dispatch.thy ===== *)
theory Route_Dispatch
  imports Prelude
begin

text \<open>
  \<^verbatim>\<open>route/dispatch.go\<close>, and what the routes with a channel in front of a goroutine share: the channel,
  the two ways of putting a line into it, taking one out, and runs of events.

  \<^item> A channel is the list of the lines in it and the list of the lines whose senders are blocked; a
    blocked sender gets in when a line is taken out.
  \<^item> A channel is taken to have room for a line when its capacity is not used up: with capacity zero a
    send succeeds only while the receiver waits.
  \<^item> The locale \<open>lossless\<close> is the contract of a goroutine that neither loses, invents nor reorders:
    every step adds to the contents of the state what it accepts. It is interpreted on
    the kafkaMdm, pubsub and CloudWatch routes.
\<close>

record chan =
  ch_in :: "bytes list"
  ch_waiting :: "bytes list"

definition queue :: "'a chan_scheme \<Rightarrow> bytes list" where
  "queue s = ch_in s @ ch_waiting s"

text \<open>The result is the channel, the change of the gauge of buffered lines and the number of drops.\<close>

definition dispatchNonBlocking :: "nat \<Rightarrow> bytes \<Rightarrow> 'a chan_scheme \<Rightarrow> 'a chan_scheme \<times> int \<times> nat" where
  "dispatchNonBlocking cap buf s =
     (if length (ch_in s) < cap \<and> ch_waiting s = [] then (s\<lparr>ch_in := ch_in s @ [buf]\<rparr>, 1, 0) else (s, 0, 1))"

definition dispatchBlocking :: "nat \<Rightarrow> bytes \<Rightarrow> 'a chan_scheme \<Rightarrow> 'a chan_scheme \<times> int \<times> nat" where
  "dispatchBlocking cap buf s =
     (if length (ch_in s) < cap \<and> ch_waiting s = [] then (s\<lparr>ch_in := ch_in s @ [buf]\<rparr>, 1, 0)
      else (s\<lparr>ch_waiting := ch_waiting s @ [buf]\<rparr>, 1, 0))"

definition take_msg :: "'a chan_scheme \<Rightarrow> (bytes \<times> 'a chan_scheme) option" where
  "take_msg s =
     (case ch_in s @ ch_waiting s of
        [] \<Rightarrow> None
      | buf # _ \<Rightarrow>
          Some (buf, (case ch_waiting s of
                        [] \<Rightarrow> s\<lparr>ch_in := tl (ch_in s)\<rparr>
                      | w # ws \<Rightarrow> s\<lparr>ch_in := tl (ch_in s @ [w]), ch_waiting := ws\<rparr>)))"

lemma take_msg_queue:
  "take_msg s = Some (buf, s') \<Longrightarrow> queue s = buf # queue s' \<and> chan.more s' = chan.more s"
  by (cases "ch_in s"; cases "ch_waiting s") (auto simp: take_msg_def queue_def)

lemma same_more: "chan.more s' = chan.more s \<Longrightarrow> s' = s\<lparr>ch_in := ch_in s', ch_waiting := ch_waiting s'\<rparr>"
  by (cases s; cases s') simp

lemma take_msg_other:
  assumes "take_msg s = Some (buf, s')"
  shows "\<exists>q w. s' = s\<lparr>ch_in := q, ch_waiting := w\<rparr> \<and> queue s = buf # q @ w \<and> (ch_waiting s = [] \<longrightarrow> w = [])"
proof (intro exI conjI impI)
  note q = take_msg_queue [OF assms]
  then show "s' = s\<lparr>ch_in := ch_in s', ch_waiting := ch_waiting s'\<rparr>" by (intro same_more) simp
  show "queue s = buf # ch_in s' @ ch_waiting s'" using q by (simp add: queue_def [of s'])
  show "ch_waiting s = [] \<Longrightarrow> ch_waiting s' = []"
    using assms by (auto simp: take_msg_def split: list.splits)
qed

lemma take_msg_None: "take_msg s = None \<longleftrightarrow> queue s = []"
  by (auto simp: take_msg_def queue_def split: list.splits)

text \<open>The field \<open>dispatch\<close> of a route: a line is taken in, or dropped and counted.\<close>

definition dispatch :: "bool \<Rightarrow> nat \<Rightarrow> bytes \<Rightarrow> 'a chan_scheme \<Rightarrow> 'a chan_scheme \<times> int \<times> nat" where
  "dispatch blocking = (if blocking then dispatchBlocking else dispatchNonBlocking)"

definition accepts :: "bool \<Rightarrow> nat \<Rightarrow> 'a chan_scheme \<Rightarrow> bool" where
  "accepts blocking cap s \<longleftrightarrow> blocking \<or> length (ch_in s) < cap \<and> ch_waiting s = []"

lemma dispatch_accepts:
  assumes "dispatch b cap buf s = (s', buffered, dropped)"
  shows "chan.more s' = chan.more s" "queue s' = queue s @ (if accepts b cap s then [buf] else [])"
    "dropped = (if accepts b cap s then 0 else 1)" "buffered = (if accepts b cap s then 1 else 0)"
  using assms
  by (auto simp: dispatch_def accepts_def dispatchBlocking_def dispatchNonBlocking_def queue_def split: if_splits)

subsection \<open>Sending again until it succeeds\<close>

text \<open>The number of failed attempts before the first that succeeds.\<close>

fun failures :: "bool list \<Rightarrow> nat option" where
  "failures [] = None"
| "failures (ok # oks) = (if ok then Some 0 else map_option Suc (failures oks))"

text \<open>A ticker needs a positive duration, given in milliseconds: the product is 64-bit.\<close>

definition millis :: "int \<Rightarrow> int" where
  "millis ms = sint (word_of_int (ms * 1000000) :: 64 word)"

subsection \<open>Runs\<close>

fun run_events :: "('e \<Rightarrow> 's \<Rightarrow> 's outcome) \<Rightarrow> 'e list \<Rightarrow> 's \<Rightarrow> 's outcome" where
  "run_events step [] s = Ok s"
| "run_events step (e # es) s = bind_outcome (step e s) (run_events step es)"

text \<open>What the steps of a run take in, each read off from the state before it.\<close>

fun taken_in :: "('e \<Rightarrow> 's \<Rightarrow> 's outcome) \<Rightarrow> ('e \<Rightarrow> 's \<Rightarrow> 'a list) \<Rightarrow> 'e list \<Rightarrow> 's \<Rightarrow> 'a list" where
  "taken_in step new [] s = []"
| "taken_in step new (e # es) s =
     new e s @ (case step e s of Panic _ \<Rightarrow> [] | Ok s' \<Rightarrow> taken_in step new es s')"

locale lossless =
  fixes step :: "'e \<Rightarrow> 's \<Rightarrow> 's outcome" and inv :: "'s \<Rightarrow> bool" and allowed :: "'e \<Rightarrow> bool"
    and contents :: "'s \<Rightarrow> 'a list" and new :: "'e \<Rightarrow> 's \<Rightarrow> 'a list"
  assumes step_keeps: "inv s \<Longrightarrow> allowed e \<Longrightarrow> \<exists>s'. step e s = Ok s' \<and> inv s' \<and> contents s' = contents s @ new e s"
begin

lemma run_keeps:
  assumes "inv s" and "\<forall>e \<in> set es. allowed e"
  shows "\<exists>s'. run_events step es s = Ok s' \<and> inv s' \<and> contents s' = contents s @ taken_in step new es s"
  using assms
proof (induction es arbitrary: s)
  case Nil
  then show ?case by simp
next
  case (Cons e es)
  then obtain s1 where "step e s = Ok s1" "inv s1" "contents s1 = contents s @ new e s"
    using step_keeps [of s e] by auto
  with Cons.IH [of s1] Cons.prems show ?case by auto
qed

lemma run_append_keeps:
  assumes "inv s" and "\<forall>e \<in> set (es @ fs). allowed e"
  shows "\<exists>s1 s2. run_events step es s = Ok s1 \<and> run_events step fs s1 = Ok s2 \<and> inv s2"
proof -
  obtain s1 where "run_events step es s = Ok s1" "inv s1"
    using run_keeps [of s es] assms by auto
  with run_keeps [of s1 fs] assms show ?thesis by auto
qed

end

end
