(* ===== verification/Route_GrafanaNet.thy ===== *)
theory Route_GrafanaNet
  imports Persist_Schemas MtConf_Aggregations Relay_Matcher Go_Hash Route_Dispatch
begin

text \<open>
  \<^verbatim>\<open>route/grafananet.go\<close>: the route to a Grafana Cloud metrics endpoint. Lines are
  spread over the queues of \<open>Concurrency\<close> shards by the hash of their key; the goroutine of a shard
  converts them and posts them in batches, again and again until the endpoint accepts a batch.

  \<^item> \<open>url_Parse\<close> gives, of an address, whether it is absolute, its host and its path, or nothing on an
    error; files are as in \<^theory_text>\<open>Persist_Schemas\<close> and, for \<open>ReadAggregations\<close>, in
    \<^theory_text>\<open>MtConf_Aggregations\<close>. The encoding and compression of a batch are third-party; a batch that is
    posted is the list of its metric data.
  \<^item> A post is answered by nothing (a transport error) or by an HTTP status. The answers to the posts of
    a flush are an argument; when none of them is a success the goroutine goes on retrying and the
    shard is \<open>sh_stuck\<close>.
  \<^item> A shard's channel is taken to have room, \<open>BufSize \<ge> Concurrency\<close>: with an unbuffered one a send
    succeeds only while the goroutine waits.
  \<^item> \<open>gn_wg\<close> is the counter of the wait group. Timers decide only when \<open>ShardTimer\<close> may happen.
\<close>

subsection \<open>Configuration\<close>

record GrafanaNetConfig =
  gc_Addr :: bytes
  ApiKey :: bytes
  SchemasFile :: bytes
  AggregationFile :: bytes
  BufSize :: int
  FlushMaxNum :: int
  FlushMaxWait :: int
  Timeout :: int
  Concurrency :: int
  OrgID :: int
  SSLVerify :: bool
  Blocking :: bool
  gc_Spool :: bool
  ErrBackoffMin :: int
  ErrBackoffFactor :: real

text \<open>The error of a call as an error of the caller.\<close>

definition wrap_error :: "('e \<Rightarrow> 'f) \<Rightarrow> ('e + 'a) outcome \<Rightarrow> ('f + 'a) outcome" where
  "wrap_error f m = bind_outcome m (\<lambda>r. Ok (map_sum f id r))"

lemma wrap_error_eq_Inr [simp]: "wrap_error f m = Ok (Inr x) \<longleftrightarrow> m = Ok (Inr x)"
proof (cases m)
  case (Ok r)
  then show ?thesis by (cases r) (simp_all add: wrap_error_def)
qed (simp add: wrap_error_def)

datatype gn_config_error = InvalidAddr | NotMetricsEndpoint | NoApiKey | NoSchemasFile
  | BadSchemas schema_error | BadAggregations

record files_env =
  url_Parse :: "bytes \<Rightarrow> (bool \<times> bytes \<times> bytes) option"
  read_file :: "bytes \<Rightarrow> bytes option"
  dur_Parse :: "bytes \<Rightarrow> uint32 option"
  agg_sections :: "bytes \<Rightarrow> agg_section list option"

definition aggregations_ok :: "files_env \<Rightarrow> bytes \<Rightarrow> bool" where
  "aggregations_ok env f = (case ReadAggregations (agg_sections env f) of Inl _ \<Rightarrow> False | Inr _ \<Rightarrow> True)"

text \<open>The rules as they are uploaded.\<close>

definition aggregation_text :: "files_env \<Rightarrow> bytes \<Rightarrow> bytes outcome" where
  "aggregation_text env f =
     (if f = [] then Ok []
      else case ReadAggregations (agg_sections env f) of Inl _ \<Rightarrow> Ok [] | Inr a \<Rightarrow> agg_String a)"

definition NewGrafanaNetConfig ::
  "files_env \<Rightarrow> bytes \<Rightarrow> bytes \<Rightarrow> bytes \<Rightarrow> bytes \<Rightarrow> (gn_config_error + GrafanaNetConfig) outcome" where
  "NewGrafanaNetConfig env addr apiKey schemasFile aggregationFile =
     (if (case url_Parse env addr of None \<Rightarrow> True | Some (abs', host, path) \<Rightarrow> \<not> abs' \<or> host = []) then Ok (Inl InvalidAddr)
      else let path = snd (snd (the (url_Parse env addr)))
      in if \<not> has_suffix path ''/metrics'' \<and> \<not> has_suffix path ''/metrics/'' then Ok (Inl NotMetricsEndpoint)
      else if apiKey = [] then Ok (Inl NoApiKey)
      else if schemasFile = [] then Ok (Inl NoSchemasFile)
      else bind_try (wrap_error BadSchemas (getSchemas (dur_Parse env) (read_file env schemasFile))) (\<lambda>_.
            if aggregationFile \<noteq> [] \<and> \<not> aggregations_ok env aggregationFile then Ok (Inl BadAggregations)
            else Ok (Inr \<lparr>gc_Addr = addr, ApiKey = apiKey, SchemasFile = schemasFile, AggregationFile = aggregationFile,
                   BufSize = 10000000, FlushMaxNum = 5000, FlushMaxWait = 500000000, Timeout = 10 * 1000000000,
                   Concurrency = 100, OrgID = 1, SSLVerify = True, Blocking = False, gc_Spool = False,
                   ErrBackoffMin = 100000000, ErrBackoffFactor = 1.5\<rparr>)))"

definition getGrafanaNetAddr :: "bytes \<Rightarrow> (bytes \<times> bytes \<times> bytes) outcome" where
  "getGrafanaNetAddr addr0 =
     (let addr = (if has_suffix addr0 ''/'' then butlast addr0 else addr0)
      in if \<not> has_suffix addr ''/metrics'' then Panic (ExplicitPanic ''getAddr'')
         else let baseAddr = trim_suffix addr ''/metrics'';
                  baseAddr = (if has_suffix baseAddr ''/graphite'' then trim_suffix baseAddr ''/graphite'' else baseAddr)
              in Ok (addr, baseAddr @ ''/graphite/config/storageSchema'', baseAddr @ ''/graphite/config/storageAggregation''))"

subsection \<open>State\<close>

record shard = chan +
  sh_metrics :: "MetricData list"
  sh_posted :: "MetricData list list"
  sh_running :: bool
  sh_stuck :: bool

record GrafanaNet =
  gn_key :: bytes
  gn_Matcher :: Matcher
  gn_Cfg :: GrafanaNetConfig
  gn_schemas :: "Schema list"
  gn_schemasStr :: bytes
  gn_aggregationStr :: bytes
  gn_addrs :: "bytes \<times> bytes \<times> bytes"
  gn_in :: "shard list"
  gn_wg :: int
  gn_numErrFlush :: nat
  gn_numOut :: nat
  gn_numDropBuffFull :: nat
  gn_numBuffered :: int

definition new_shard :: shard where
  "new_shard = \<lparr>ch_in = [], ch_waiting = [], sh_metrics = [], sh_posted = [], sh_running = True, sh_stuck = False\<rparr>"

definition NewGrafanaNet ::
  "files_env \<Rightarrow> bytes \<Rightarrow> Matcher \<Rightarrow> GrafanaNetConfig \<Rightarrow> (gn_config_error + GrafanaNet) outcome" where
  "NewGrafanaNet env key m cfg =
     bind_try (wrap_error BadSchemas (getSchemas (dur_Parse env) (read_file env (SchemasFile cfg)))) (\<lambda>schemas.
           if AggregationFile cfg \<noteq> [] \<and> \<not> aggregations_ok env (AggregationFile cfg) then Ok (Inl BadAggregations)
           else if Concurrency cfg < 0 then Panic IndexOutOfRange
           else bind_outcome (aggregation_text env (AggregationFile cfg)) (\<lambda>aggStr.
             bind_outcome (getGrafanaNetAddr (gc_Addr cfg)) (\<lambda>addrs.
             if Concurrency cfg > 0 \<and> BufSize cfg < 0 \<and> - BufSize cfg \<ge> Concurrency cfg then Panic IndexOutOfRange
             else Ok (Inr \<lparr>gn_key = key, gn_Matcher = m, gn_Cfg = cfg, gn_schemas = schemas,
                    gn_schemasStr = schemas_String schemas, gn_aggregationStr = aggStr, gn_addrs = addrs,
                    gn_in = replicate (nat (Concurrency cfg)) new_shard, gn_wg = Concurrency cfg,
                    gn_numErrFlush = 0, gn_numOut = 0, gn_numDropBuffFull = 0, gn_numBuffered = 0\<rparr>))))"

subsection \<open>Dispatch\<close>

definition shard_cap :: "GrafanaNetConfig \<Rightarrow> nat" where
  "shard_cap cfg = nat (BufSize cfg div Concurrency cfg)"

definition shard_of :: "bytes \<Rightarrow> GrafanaNetConfig \<Rightarrow> nat" where
  "shard_of key cfg = unat (fnv32a key mod word_of_int (Concurrency cfg))"

definition gn_Dispatch :: "bytes \<Rightarrow> GrafanaNet \<Rightarrow> GrafanaNet outcome" where
  "gn_Dispatch buf0 g =
     (let buf = trim_space buf0
      in case index_byte buf CHR '' '' of
           None \<Rightarrow> Ok g
         | Some index \<Rightarrow>
             if (word_of_int (Concurrency (gn_Cfg g)) :: uint32) = 0 then Panic DivisionByZero
             else let i = shard_of (take index buf) (gn_Cfg g)
                  in if i \<ge> length (gn_in g) then Panic IndexOutOfRange
                     else case (if Blocking (gn_Cfg g) then dispatchBlocking else dispatchNonBlocking)
                                 (shard_cap (gn_Cfg g)) buf (gn_in g ! i) of
                            (s, buffered, dropped) \<Rightarrow>
                              Ok (g\<lparr>gn_in := (gn_in g)[i := s], gn_numBuffered := gn_numBuffered g + buffered,
                                    gn_numDropBuffFull := gn_numDropBuffFull g + dropped\<rparr>))"

subsection \<open>The goroutine of a shard\<close>

text \<open>The number of failed posts before the first that succeeds.\<close>

fun failed_posts :: "int option list \<Rightarrow> nat option" where
  "failed_posts [] = None"
| "failed_posts (resp # resps) =
     (case resp of
        None \<Rightarrow> map_option Suc (failed_posts resps)
      | Some status \<Rightarrow> if status \<ge> 200 \<and> status < 300 then Some 0 else map_option Suc (failed_posts resps))"

definition retryFlush :: "int option list \<Rightarrow> shard \<Rightarrow> shard \<times> nat \<times> nat" where
  "retryFlush resps s =
     (if length (sh_metrics s) = 0 then (s, 0, 0)
      else case failed_posts resps of
             None \<Rightarrow> (s\<lparr>sh_stuck := True\<rparr>, length (sh_metrics s), length resps)
           | Some n \<Rightarrow> (s\<lparr>sh_metrics := [], sh_posted := sh_posted s @ [sh_metrics s]\<rparr>, length (sh_metrics s), n))"

datatype shard_event = ShardMsg "int option list" | ShardTimer "int option list" | ShardShutdown "int option list"

definition shard_step ::
  "(MetricData \<Rightarrow> bool) \<Rightarrow> GrafanaNetConfig \<Rightarrow> Schema list \<Rightarrow> shard_event \<Rightarrow> shard \<Rightarrow> (shard \<times> int \<times> nat \<times> nat) outcome" where
  "shard_step valid cfg schemas e s =
     (if \<not> sh_running s \<or> sh_stuck s then Ok (s, 0, 0, 0)
      else case e of
        ShardMsg resps \<Rightarrow>
          (case take_msg s of
             None \<Rightarrow> Ok (s, 0, 0, 0)
           | Some (buf, s1) \<Rightarrow>
               bind_outcome (parseMetric valid buf schemas (OrgID cfg)) (\<lambda>r.
                 case r of
                   Inl _ \<Rightarrow> Ok (s1, - 1, 0, 0)
                 | Inr md \<Rightarrow>
                     let s2 = s1\<lparr>sh_metrics := sh_metrics s1 @ [md]\<rparr>
                     in if int (length (sh_metrics s2)) = FlushMaxNum cfg
                        then (case retryFlush resps s2 of (s3, out, errs) \<Rightarrow> Ok (s3, - 1, out, errs))
                        else Ok (s2, - 1, 0, 0)))
      | ShardTimer resps \<Rightarrow> (case retryFlush resps s of (s', out, errs) \<Rightarrow> Ok (s', 0, out, errs))
      | ShardShutdown resps \<Rightarrow> (case retryFlush resps s of (s', out, errs) \<Rightarrow> Ok (s'\<lparr>sh_running := False\<rparr>, 0, out, errs)))"

datatype gn_event = Line bytes | Shard nat shard_event

definition gn_step :: "(MetricData \<Rightarrow> bool) \<Rightarrow> gn_event \<Rightarrow> GrafanaNet \<Rightarrow> GrafanaNet outcome" where
  "gn_step valid e g =
     (case e of
        Line buf \<Rightarrow> gn_Dispatch buf g
      | Shard i ev \<Rightarrow>
          if i \<ge> length (gn_in g) then Ok g
          else bind_outcome (shard_step valid (gn_Cfg g) (gn_schemas g) ev (gn_in g ! i)) (\<lambda>(s, buffered, out, errs).
            Ok (g\<lparr>gn_in := (gn_in g)[i := s], gn_numBuffered := gn_numBuffered g + buffered,
                  gn_numOut := gn_numOut g + out, gn_numErrFlush := gn_numErrFlush g + errs\<rparr>)))"

fun gn_run :: "(MetricData \<Rightarrow> bool) \<Rightarrow> gn_event list \<Rightarrow> GrafanaNet \<Rightarrow> GrafanaNet outcome" where
  "gn_run valid [] g = Ok g"
| "gn_run valid (e # es) g = bind_outcome (gn_step valid e g) (gn_run valid es)"

text \<open>\<open>Shutdown\<close> hands one token to one running shard (\<open>ShardShutdown\<close>) and then waits for the counter of the wait
  group; \<open>run\<close> returns from inside its loop and never reaches \<open>wg.Done\<close>.\<close>

definition shutdown_returns :: "GrafanaNet \<Rightarrow> bool" where
  "shutdown_returns g \<longleftrightarrow> (\<exists>s \<in> set (gn_in g). sh_running s \<and> \<not> sh_stuck s) \<and> gn_wg g = 0"


subsection \<open>What a shard has taken\<close>

text \<open>Everything that came out of a shard, is in its batch or waits in its channel, in order.\<close>

definition through :: "(MetricData \<Rightarrow> bool) \<Rightarrow> GrafanaNetConfig \<Rightarrow> Schema list \<Rightarrow> shard \<Rightarrow> MetricData list" where
  "through valid cfg ss s = concat (sh_posted s) @ sh_metrics s @ parsed valid ss (OrgID cfg) (queue s)"

definition batches_ok :: "GrafanaNetConfig \<Rightarrow> shard \<Rightarrow> bool" where
  "batches_ok cfg s \<longleftrightarrow>
     (if sh_stuck s then int (length (sh_metrics s)) \<le> FlushMaxNum cfg
      else int (length (sh_metrics s)) < FlushMaxNum cfg) \<and>
     (\<forall>b \<in> set (sh_posted s). b \<noteq> [] \<and> int (length b) \<le> FlushMaxNum cfg)"

lemma take_shard_msg: "take_msg s = Some (buf, s') \<Longrightarrow> queue s = buf # queue s' \<and>
    sh_metrics s' = sh_metrics s \<and> sh_posted s' = sh_posted s \<and> sh_stuck s' = sh_stuck s"
  by (cases "ch_in s"; cases "ch_waiting s") (auto simp: take_msg_def queue_def)

lemma retryFlush_through:
  "retryFlush resps s = (s', out, errs) \<Longrightarrow> through valid cfg ss s' = through valid cfg ss s"
  by (auto simp: retryFlush_def through_def queue_def split: if_splits option.splits)

lemma retryFlush_batches:
  assumes "retryFlush resps s = (s', out, errs)" "\<not> sh_stuck s" "int (length (sh_metrics s)) \<le> FlushMaxNum cfg"
    "0 < FlushMaxNum cfg" "\<forall>b \<in> set (sh_posted s). b \<noteq> [] \<and> int (length b) \<le> FlushMaxNum cfg"
  shows "batches_ok cfg s'"
  using assms by (auto simp: retryFlush_def batches_ok_def split: if_splits option.splits)

lemma shard_step_through:
  assumes "shard_step valid cfg ss e s = Ok (s', b, out, errs)"
  shows "through valid cfg ss s' = through valid cfg ss s"
proof (cases "\<not> sh_running s \<or> sh_stuck s")
  case True
  then show ?thesis using assms by (simp add: shard_step_def)
next
  case False
  note run = this
  show ?thesis
  proof (cases e)
    case (ShardMsg resps)
    show ?thesis
    proof (cases "take_msg s")
      case None
      then show ?thesis using assms run ShardMsg by (simp add: shard_step_def)
    next
      case (Some p)
      then obtain buf s1 where t: "take_msg s = Some (buf, s1)" by (cases p) auto
      note q = take_shard_msg [OF t]
      from assms run ShardMsg t obtain r where r: "parseMetric valid buf ss (OrgID cfg) = Ok r"
        by (auto simp: shard_step_def)
      show ?thesis
      proof (cases r)
        case (Inl err)
        then show ?thesis using assms run ShardMsg t r q
          by (auto simp: shard_step_def through_def parsed_Cons)
      next
        case (Inr md)
        let ?s2 = "s1\<lparr>sh_metrics := sh_metrics s1 @ [md]\<rparr>"
        have "through valid cfg ss ?s2 = through valid cfg ss s"
          using q r Inr by (simp add: through_def queue_def parsed_Cons)
        moreover have "s' = ?s2 \<or> (\<exists>out errs. retryFlush resps ?s2 = (s', out, errs))"
          using assms run ShardMsg t r Inr by (auto simp: shard_step_def Let_def split: if_splits prod.splits)
        ultimately show ?thesis using retryFlush_through by metis
      qed
    qed
  next
    case (ShardTimer resps)
    then show ?thesis using assms run retryFlush_through by (auto simp: shard_step_def split: prod.splits)
  next
    case (ShardShutdown resps)
    then obtain s1 where "retryFlush resps s = (s1, out, errs)" "s' = s1\<lparr>sh_running := False\<rparr>"
      using assms run by (auto simp: shard_step_def split: prod.splits)
    then show ?thesis using retryFlush_through [of resps s s1] by (simp add: through_def queue_def)
  qed
qed

lemma shard_step_batches:
  assumes "shard_step valid cfg ss e s = Ok (s', b, out, errs)" "batches_ok cfg s" "0 < FlushMaxNum cfg"
  shows "batches_ok cfg s'"
proof (cases "\<not> sh_running s \<or> sh_stuck s")
  case True
  then show ?thesis using assms by (simp add: shard_step_def)
next
  case False
  then have run: "sh_running s" "\<not> sh_stuck s" by auto
  note flush = retryFlush_batches [OF _ _ _ assms(3)]
  from run assms(2) have small: "int (length (sh_metrics s)) < FlushMaxNum cfg"
    "\<forall>b \<in> set (sh_posted s). b \<noteq> [] \<and> int (length b) \<le> FlushMaxNum cfg" by (simp_all add: batches_ok_def)
  show ?thesis
  proof (cases e)
    case (ShardMsg resps)
    show ?thesis
    proof (cases "take_msg s")
      case None
      then show ?thesis using assms run ShardMsg by (simp add: shard_step_def)
    next
      case (Some p)
      then obtain buf s1 where t: "take_msg s = Some (buf, s1)" by (cases p) auto
      note q = take_shard_msg [OF t]
      then have s1: "batches_ok cfg s1" "\<not> sh_stuck s1" using small run by (auto simp: batches_ok_def)
      from assms run ShardMsg t obtain r where r: "parseMetric valid buf ss (OrgID cfg) = Ok r"
        by (auto simp: shard_step_def)
      show ?thesis
      proof (cases r)
        case (Inl err)
        then show ?thesis using assms run ShardMsg t r s1 by (auto simp: shard_step_def)
      next
        case (Inr md)
        let ?s2 = "s1\<lparr>sh_metrics := sh_metrics s1 @ [md]\<rparr>"
        consider "int (length (sh_metrics ?s2)) = FlushMaxNum cfg" "\<exists>out errs. retryFlush resps ?s2 = (s', out, errs)"
          | "int (length (sh_metrics ?s2)) \<noteq> FlushMaxNum cfg" "s' = ?s2"
          using assms(1) run ShardMsg t r Inr
          by (cases "int (length (sh_metrics ?s2)) = FlushMaxNum cfg")
            (simp_all add: shard_step_def Let_def split: prod.splits)
        then show ?thesis
        proof cases
          case 1
          then obtain out errs where f: "retryFlush resps ?s2 = (s', out, errs)" by blast
          show ?thesis by (rule flush [OF f]) (use s1 1(1) small(2) q in auto)
        next
          case 2
          then show ?thesis using s1 q small by (auto simp: batches_ok_def)
        qed
      qed
    qed
  next
    case (ShardTimer resps)
    then obtain out errs where f: "retryFlush resps s = (s', out, errs)"
      using assms run by (auto simp: shard_step_def split: prod.splits)
    show ?thesis by (rule flush [OF f]) (use run small in auto)
  next
    case (ShardShutdown resps)
    then obtain s1 where f: "retryFlush resps s = (s1, out, errs)" "s' = s1\<lparr>sh_running := False\<rparr>"
      using assms run by (auto simp: shard_step_def split: prod.splits)
    have "batches_ok cfg s1" by (rule flush [OF f(1)]) (use run small in auto)
    then show ?thesis using f(2) by (simp add: batches_ok_def)
  qed
qed


subsection \<open>Runs\<close>

definition key_of :: "bytes \<Rightarrow> bytes option" where
  "key_of buf0 = (let buf = trim_space buf0 in map_option (\<lambda>i. take i buf) (index_byte buf CHR '' ''))"

text \<open>The lines that a run puts into the channel of shard \<open>i\<close>.\<close>

fun gn_accepted :: "(MetricData \<Rightarrow> bool) \<Rightarrow> gn_event list \<Rightarrow> GrafanaNet \<Rightarrow> nat \<Rightarrow> bytes list" where
  "gn_accepted valid [] g i = []"
| "gn_accepted valid (e # es) g i =
     (case gn_step valid e g of
        Panic _ \<Rightarrow> []
      | Ok g' \<Rightarrow>
          (case e of
             Line buf \<Rightarrow> drop (length (queue (gn_in g ! i))) (queue (gn_in g' ! i))
           | Shard _ _ \<Rightarrow> []) @ gn_accepted valid es g' i)"

definition keyed_lines :: "gn_event list \<Rightarrow> nat" where
  "keyed_lines es = length (filter (\<lambda>e. case e of Line buf \<Rightarrow> key_of buf \<noteq> None | _ \<Rightarrow> False) es)"

lemma shard_of_less:
  assumes "0 < Concurrency cfg" "Concurrency cfg < 2 ^ 32"
  shows "shard_of key cfg < nat (Concurrency cfg)" "(word_of_int (Concurrency cfg) :: uint32) \<noteq> 0"
proof -
  let ?w = "word_of_int (Concurrency cfg) :: uint32"
  have u: "unat ?w = nat (Concurrency cfg)"
    using assms by (simp add: unat_eq_nat_uint uint_word_of_int_eq take_bit_int_eq_self)
  then show ne: "?w \<noteq> 0" using assms(1) by (metis unat_0 zero_less_nat_eq less_irrefl)
  have "unat (fnv32a key mod ?w) < unat ?w" using u assms(1) by (simp add: unat_mod_distrib)
  then show "shard_of key cfg < nat (Concurrency cfg)" using u by (simp add: shard_of_def)
qed

lemma dispatch_shard:
  assumes "(if b then dispatchBlocking else dispatchNonBlocking) cap buf s = (s', buffered, dropped)"
  shows "(queue s' = queue s @ [buf] \<and> dropped = 0 \<or> s' = s \<and> dropped = 1) \<and>
    sh_metrics s' = sh_metrics s \<and> sh_posted s' = sh_posted s \<and> sh_stuck s' = sh_stuck s"
  using assms by (auto simp: dispatchBlocking_def dispatchNonBlocking_def queue_def split: if_splits)

text \<open>The effect of one line: at most the shard of its key changes.\<close>

lemma gn_Dispatch_ok:
  assumes "0 < Concurrency (gn_Cfg g)" "Concurrency (gn_Cfg g) < 2 ^ 32"
    "length (gn_in g) = nat (Concurrency (gn_Cfg g))"
  obtains g' where "gn_Dispatch buf g = Ok g'" "gn_Cfg g' = gn_Cfg g" "gn_schemas g' = gn_schemas g"
    "length (gn_in g') = length (gn_in g)" "gn_wg g' = gn_wg g"
    "key_of buf = None \<Longrightarrow> g' = g"
    "\<And>k. key_of buf = Some k \<Longrightarrow>
       (let i = shard_of k (gn_Cfg g); s = gn_in g ! i; s' = gn_in g' ! i
        in i < length (gn_in g) \<and> gn_in g' = (gn_in g)[i := s'] \<and>
           sh_metrics s' = sh_metrics s \<and> sh_posted s' = sh_posted s \<and> sh_stuck s' = sh_stuck s \<and>
           (queue s' = queue s @ [trim_space buf] \<and> gn_numDropBuffFull g' = gn_numDropBuffFull g \<or>
            s' = s \<and> gn_numDropBuffFull g' = gn_numDropBuffFull g + 1))"
proof (cases "index_byte (trim_space buf) CHR '' ''")
  case None
  then show thesis using that [of g] by (simp add: gn_Dispatch_def key_of_def)
next
  case (Some j)
  let ?k = "take j (trim_space buf)"
  let ?i = "shard_of ?k (gn_Cfg g)"
  note sh = shard_of_less [OF assms(1,2)]
  obtain s' b d where s': "(if Blocking (gn_Cfg g) then dispatchBlocking else dispatchNonBlocking)
      (shard_cap (gn_Cfg g)) (trim_space buf) (gn_in g ! ?i) = (s', b, d)"
    by (metis prod_cases3)
  have i: "?i < length (gn_in g)" using sh(1) assms(3) by simp
  have "gn_Dispatch buf g = Ok (g\<lparr>gn_in := (gn_in g)[?i := s'], gn_numBuffered := gn_numBuffered g + b,
                                    gn_numDropBuffFull := gn_numDropBuffFull g + d\<rparr>)"
    using Some sh(2) i s' by (simp add: gn_Dispatch_def Let_def)
  moreover have "key_of buf = Some ?k" using Some by (simp add: key_of_def)
  ultimately show thesis
    using that dispatch_shard [OF s'] i by (auto simp: Let_def)
qed

definition net_inv :: "(MetricData \<Rightarrow> bool) \<Rightarrow> (nat \<Rightarrow> bytes list) \<Rightarrow> GrafanaNet \<Rightarrow> bool" where
  "net_inv valid acc g \<longleftrightarrow>
     length (gn_in g) = nat (Concurrency (gn_Cfg g)) \<and>
     (\<forall>i < length (gn_in g).
        through valid (gn_Cfg g) (gn_schemas g) (gn_in g ! i) = parsed valid (gn_schemas g) (OrgID (gn_Cfg g)) (acc i) \<and>
        (\<forall>buf \<in> set (acc i). \<exists>k. key_of buf = Some k \<and> shard_of k (gn_Cfg g) = i) \<and>
        (0 < FlushMaxNum (gn_Cfg g) \<longrightarrow> batches_ok (gn_Cfg g) (gn_in g ! i)))"

lemma trim_space_idem: "trim_space (trim_space s) = trim_space s"
proof -
  have d: "dropWhile P (dropWhile P xs) = dropWhile P xs" for P :: "char \<Rightarrow> bool" and xs
    by (induction xs) auto
  let ?t = "dropWhile is_space s"
  have "dropWhile is_space (rev (dropWhile is_space (rev ?t))) = rev (dropWhile is_space (rev ?t))"
  proof (cases ?t)
    case (Cons c cs)
    then have c: "\<not> is_space c" by (metis hd_dropWhile list.distinct(1) list.sel(1))
    then have "\<exists>ys. dropWhile is_space (rev ?t) = ys @ [c]"
      unfolding Cons by (simp add: dropWhile_append)
    then show ?thesis using c by auto
  next
    case Nil
    show ?thesis unfolding Nil by simp
  qed
  then show ?thesis by (simp add: trim_space_def d)
qed


lemma key_of_trim: "key_of (trim_space buf) = key_of buf"
  by (simp add: key_of_def trim_space_idem)

text \<open>One step keeps the invariant, with the newly accepted line added, and never panics.\<close>

lemma gn_step_ok:
  assumes inv: "net_inv valid acc g" and c: "0 < Concurrency (gn_Cfg g)" "Concurrency (gn_Cfg g) < 2 ^ 32"
    and ok: "\<forall>buf. \<exists>r. parseMetric valid buf (gn_schemas g) (OrgID (gn_Cfg g)) = Ok r"
  shows "\<exists>g' d. gn_step valid e g = Ok g' \<and> gn_Cfg g' = gn_Cfg g \<and> gn_schemas g' = gn_schemas g \<and> gn_wg g' = gn_wg g \<and>
    (let new = (\<lambda>i. case e of Line buf \<Rightarrow> drop (length (queue (gn_in g ! i))) (queue (gn_in g' ! i)) | Shard _ _ \<Rightarrow> [])
     in net_inv valid (\<lambda>i. acc i @ new i) g' \<and> gn_numDropBuffFull g' = gn_numDropBuffFull g + d \<and>
        keyed_lines [e] = sum_list (map (\<lambda>i. length (new i)) [0..<nat (Concurrency (gn_Cfg g))]) + d)"
proof (cases e)
  case (Line buf)
  obtain g' where g': "gn_Dispatch buf g = Ok g'" "gn_Cfg g' = gn_Cfg g" "gn_schemas g' = gn_schemas g"
    "length (gn_in g') = length (gn_in g)" "gn_wg g' = gn_wg g" "key_of buf = None \<Longrightarrow> g' = g"
    "\<And>k. key_of buf = Some k \<Longrightarrow>
       (let i = shard_of k (gn_Cfg g); s = gn_in g ! i; s' = gn_in g' ! i
        in i < length (gn_in g) \<and> gn_in g' = (gn_in g)[i := s'] \<and>
           sh_metrics s' = sh_metrics s \<and> sh_posted s' = sh_posted s \<and> sh_stuck s' = sh_stuck s \<and>
           (queue s' = queue s @ [trim_space buf] \<and> gn_numDropBuffFull g' = gn_numDropBuffFull g \<or>
            s' = s \<and> gn_numDropBuffFull g' = gn_numDropBuffFull g + 1))"
    using gn_Dispatch_ok [OF c, of buf] inv unfolding net_inv_def by blast
  define new where "new i = drop (length (queue (gn_in g ! i))) (queue (gn_in g' ! i))" for i
  show ?thesis
  proof (cases "key_of buf")
    case None
    then have "g' = g" using g'(6) by simp
    moreover from this have "new i = []" for i by (simp add: new_def)
    ultimately show ?thesis
      using g' inv None Line
      by (auto simp: gn_step_def keyed_lines_def new_def [symmetric] sum_list_triv simp del: length_drop)
  next
    case (Some k)
    define i where "i = shard_of k (gn_Cfg g)"
    have i: "i < length (gn_in g)" "gn_in g' = (gn_in g)[i := gn_in g' ! i]"
      "sh_metrics (gn_in g' ! i) = sh_metrics (gn_in g ! i)" "sh_posted (gn_in g' ! i) = sh_posted (gn_in g ! i)"
      "sh_stuck (gn_in g' ! i) = sh_stuck (gn_in g ! i)"
      "queue (gn_in g' ! i) = queue (gn_in g ! i) @ [trim_space buf] \<and> gn_numDropBuffFull g' = gn_numDropBuffFull g \<or>
       gn_in g' ! i = gn_in g ! i \<and> gn_numDropBuffFull g' = gn_numDropBuffFull g + 1"
      using g'(7) [OF Some] by (auto simp: Let_def i_def)
    have other: "gn_in g' ! j = gn_in g ! j" "new j = []" if "j \<noteq> i" for j
      using i(2) that by (metis nth_list_update_neq, metis nth_list_update_neq new_def drop_all order_refl)
    define d where "d = (if new i = [] then 1 else 0 :: nat)"
    have q: "queue (gn_in g' ! i) = queue (gn_in g ! i) @ new i" "new i = [] \<or> new i = [trim_space buf]"
      "gn_numDropBuffFull g' = gn_numDropBuffFull g + d"
      using i(6) by (auto simp: new_def d_def)
    have thr: "through valid (gn_Cfg g) (gn_schemas g) (gn_in g' ! j) =
        through valid (gn_Cfg g) (gn_schemas g) (gn_in g ! j) @ parsed valid (gn_schemas g) (OrgID (gn_Cfg g)) (new j)" for j
      using other [of j] q(1) i(3,4) by (cases "j = i") (auto simp: through_def)
    have bat: "batches_ok (gn_Cfg g) (gn_in g' ! j) = batches_ok (gn_Cfg g) (gn_in g ! j)" for j
      using other [of j] i(3-5) by (cases "j = i") (auto simp: batches_ok_def)
    have keys: "\<exists>k. key_of b = Some k \<and> shard_of k (gn_Cfg g) = j" if "b \<in> set (new j)" for b j
      using that other(2) [of j] q(2) Some by (cases "j = i") (auto simp: key_of_trim i_def)
    have "net_inv valid (\<lambda>i. acc i @ new i) g'"
      using inv g'(2-4) keys unfolding net_inv_def by (auto simp: thr bat)
    moreover have "sum_list (map (\<lambda>j. length (new j)) [0..<nat (Concurrency (gn_Cfg g))]) = length (new i)"
    proof -
      have "i < nat (Concurrency (gn_Cfg g))" using i(1) inv by (simp add: net_inv_def)
      then have "(\<Sum>j = 0..<nat (Concurrency (gn_Cfg g)). length (new j)) = (\<Sum>j \<in> {i}. length (new j))"
        by (intro sum.mono_neutral_right) (use other(2) in auto)
      then show ?thesis by (simp add: interv_sum_list_conv_sum_set_nat)
    qed
    moreover have "keyed_lines [e] = length (new i) + d"
      using Some Line q(2) by (auto simp: keyed_lines_def d_def)
    ultimately show ?thesis
      using g'(1-3,5) q(3) Line by (auto simp: gn_step_def Let_def new_def [symmetric] simp del: length_drop)
  qed
next
  case (Shard i ev)
  show ?thesis
  proof (cases "i < length (gn_in g)")
    case False
    then show ?thesis using inv Shard by (auto simp: gn_step_def keyed_lines_def sum_list_triv)
  next
    case True
    have "\<exists>r. shard_step valid (gn_Cfg g) (gn_schemas g) ev (gn_in g ! i) = Ok r"
    proof -
      have "\<exists>r. bind_outcome (parseMetric valid buf (gn_schemas g) (OrgID (gn_Cfg g))) F = Ok r"
        if "\<And>r. \<exists>x. F r = Ok x" for buf and F :: "parse_metric_error + MetricData \<Rightarrow> (shard \<times> int \<times> nat \<times> nat) outcome"
        using ok [rule_format, of buf] that by auto
      then show ?thesis
        unfolding shard_step_def
        by (cases ev) (auto split: option.splits sum.splits prod.splits simp: Let_def simp del: bind_outcome_eq_Ok)
    qed
    then obtain s b out errs where s: "shard_step valid (gn_Cfg g) (gn_schemas g) ev (gn_in g ! i) = Ok (s, b, out, errs)"
      by (metis prod_cases4)
    let ?g = "g\<lparr>gn_in := (gn_in g)[i := s], gn_numBuffered := gn_numBuffered g + b,
                  gn_numOut := gn_numOut g + out, gn_numErrFlush := gn_numErrFlush g + errs\<rparr>"
    have "gn_step valid e g = Ok ?g" using True Shard s by (simp add: gn_step_def)
    moreover have "net_inv valid acc ?g"
      using inv shard_step_through [OF s] shard_step_batches [OF s] True
      unfolding net_inv_def by (auto simp: nth_list_update)
    ultimately show ?thesis using Shard by (auto simp: keyed_lines_def sum_list_triv)
  qed
qed


lemma keyed_lines_Cons: "keyed_lines (e # es) = keyed_lines [e] + keyed_lines es"
  unfolding keyed_lines_def by (simp del: not_None_eq)

lemma gn_run_ok:
  assumes "net_inv valid acc g" and "0 < Concurrency (gn_Cfg g)" "Concurrency (gn_Cfg g) < 2 ^ 32"
    and "\<forall>buf. \<exists>r. parseMetric valid buf (gn_schemas g) (OrgID (gn_Cfg g)) = Ok r"
  shows "\<exists>g' d. gn_run valid es g = Ok g' \<and> gn_Cfg g' = gn_Cfg g \<and> gn_schemas g' = gn_schemas g \<and> gn_wg g' = gn_wg g \<and>
    net_inv valid (\<lambda>i. acc i @ gn_accepted valid es g i) g' \<and> gn_numDropBuffFull g' = gn_numDropBuffFull g + d \<and>
    keyed_lines es = sum_list (map (\<lambda>i. length (gn_accepted valid es g i)) [0..<nat (Concurrency (gn_Cfg g))]) + d"
  using assms
proof (induction es arbitrary: g acc)
  case Nil
  then show ?case by (simp add: keyed_lines_def sum_list_triv)
next
  case (Cons e es)
  define new where "new g' i = (case e of Line buf \<Rightarrow> drop (length (queue (gn_in g ! i))) (queue (gn_in g' ! i)) | Shard _ _ \<Rightarrow> [])" for g' :: GrafanaNet and i
  obtain g1 d1 where g1: "gn_step valid e g = Ok g1" "gn_Cfg g1 = gn_Cfg g" "gn_schemas g1 = gn_schemas g"
    "gn_wg g1 = gn_wg g" "net_inv valid (\<lambda>i. acc i @ new g1 i) g1" "gn_numDropBuffFull g1 = gn_numDropBuffFull g + d1"
    "keyed_lines [e] = sum_list (map (\<lambda>i. length (new g1 i)) [0..<nat (Concurrency (gn_Cfg g))]) + d1"
    using gn_step_ok [OF Cons.prems, of e] unfolding Let_def new_def by blast
  obtain g' d2 where g': "gn_run valid es g1 = Ok g'" "gn_Cfg g' = gn_Cfg g" "gn_schemas g' = gn_schemas g"
    "gn_wg g' = gn_wg g" "net_inv valid (\<lambda>i. (acc i @ new g1 i) @ gn_accepted valid es g1 i) g'"
    "gn_numDropBuffFull g' = gn_numDropBuffFull g1 + d2"
    "keyed_lines es = sum_list (map (\<lambda>i. length (gn_accepted valid es g1 i)) [0..<nat (Concurrency (gn_Cfg g))]) + d2"
    using Cons.IH [OF g1(5)] Cons.prems g1(2-4) by auto
  have acc: "gn_accepted valid (e # es) g i = new g1 i @ gn_accepted valid es g1 i" for i
    using g1(1) by (simp add: new_def)
  have "keyed_lines (e # es) =
      sum_list (map (\<lambda>i. length (gn_accepted valid (e # es) g i)) [0..<nat (Concurrency (gn_Cfg g))]) + (d1 + d2)"
    unfolding keyed_lines_Cons [of e es] g1(7) g'(7) acc by (simp add: sum_list_addf)
  then show ?case
    using g1 g' unfolding acc by (intro exI [of _ g'] exI [of _ "d1 + d2"]) (simp add: append_assoc [symmetric] del: append_assoc)
qed

lemma NewGrafanaNet_ok:
  assumes "NewGrafanaNet env key m cfg = Ok (Inr g)"
  shows "gn_Cfg g = cfg \<and> net_inv valid (\<lambda>_. []) g \<and> gn_wg g = Concurrency cfg \<and> gn_numDropBuffFull g = 0 \<and>
    (\<exists>ss. getSchemas (dur_Parse env) (read_file env (SchemasFile cfg)) = Ok (Inr ss) \<and> gn_schemas g = ss)"
  using assms
  by (auto simp: NewGrafanaNet_def net_inv_def new_shard_def through_def queue_def batches_ok_def Let_def
      split: if_splits)


lemma parseMetric_returns:
  assumes "getSchemas dur file = Ok (Inr ss)"
  shows "\<exists>r. parseMetric valid buf ss orgId = Ok r"
  using parseMetric_ok [OF assms] by blast

lemma net_run:
  assumes "NewGrafanaNet env key m cfg = Ok (Inr g0)" and "0 < Concurrency cfg" "Concurrency cfg < 2 ^ 32"
  shows "\<exists>g. gn_run valid es g0 = Ok g \<and> gn_Cfg g = cfg \<and> gn_schemas g = gn_schemas g0 \<and> gn_wg g = Concurrency cfg \<and>
    net_inv valid (gn_accepted valid es g0) g \<and>
    keyed_lines es = sum_list (map (\<lambda>i. length (gn_accepted valid es g0 i)) [0..<nat (Concurrency cfg)]) + gn_numDropBuffFull g"
proof -
  note new = NewGrafanaNet_ok [OF assms(1), of valid]
  then have "getSchemas (dur_Parse env) (read_file env (SchemasFile cfg)) = Ok (Inr (gn_schemas g0))"
    by auto
  then have p: "\<forall>buf. \<exists>r. parseMetric valid buf (gn_schemas g0) (OrgID (gn_Cfg g0)) = Ok r"
    by (intro allI parseMetric_returns)
  from new have "net_inv valid (\<lambda>_. []) g0" by (auto simp: net_inv_def batches_ok_def through_def)
  from gn_run_ok [OF this _ _ p, of es] new assms(2,3) show ?thesis by auto
qed

subsection \<open>Properties\<close>


definition example_env :: files_env where
  "example_env = \<lparr>url_Parse = (\<lambda>_. Some (True, ''host'', ''/metrics'')), read_file = (\<lambda>_. Some example_file),
     dur_Parse = example_dur, agg_sections = (\<lambda>_. None)\<rparr>"

definition example_cfg :: GrafanaNetConfig where
  "example_cfg = \<lparr>gc_Addr = ''https://host/metrics'', ApiKey = ''k'', SchemasFile = ''f'', AggregationFile = [],
     BufSize = 4, FlushMaxNum = 2, FlushMaxWait = 1, Timeout = 1, Concurrency = 2, OrgID = 1, SSLVerify = True,
     Blocking = False, gc_Spool = False, ErrBackoffMin = 1, ErrBackoffFactor = 1\<rparr>"

lemma example_new_net:
  assumes "AggregationFile cfg = []" "gc_Addr cfg = ''https://host/metrics''" "0 \<le> Concurrency cfg" "0 \<le> BufSize cfg"
  shows "\<exists>g0. NewGrafanaNet example_env k m cfg = Ok (Inr g0)"
proof -
  have "case getSchemas (dur_Parse example_env) (read_file example_env (SchemasFile cfg)) of Ok (Inr _) \<Rightarrow> True | _ \<Rightarrow> False"
    unfolding example_env_def files_env.simps by code_simp
  then obtain ss where "getSchemas (dur_Parse example_env) (read_file example_env (SchemasFile cfg)) = Ok (Inr ss)"
    by (auto split: outcome.splits sum.splits)
  moreover obtain addrs where "getGrafanaNetAddr ''https://host/metrics'' = Ok addrs"
  proof -
    have "case getGrafanaNetAddr ''https://host/metrics'' of Ok _ \<Rightarrow> True | _ \<Rightarrow> False" by code_simp
    then show ?thesis using that by (auto split: outcome.splits)
  qed
  ultimately show ?thesis using assms by (simp add: NewGrafanaNet_def wrap_error_def aggregation_text_def)
qed

lemma example_net: "\<exists>g0. NewGrafanaNet example_env ''r'' (fst (matcher_New [] [] [] [] [] [])) example_cfg = Ok (Inr g0)"
  by (rule example_new_net) (simp_all add: example_cfg_def)

lemma example_cfg_simps: "Concurrency example_cfg = 2" "FlushMaxNum example_cfg = 2"
  by (simp_all add: example_cfg_def)


text \<open>With a positive \<open>FlushMaxNum\<close> no batch is empty or larger than it.\<close>

theorem batches_are_bounded:
  assumes "NewGrafanaNet env key m cfg = Ok (Inr g0)" and "0 < Concurrency cfg" and "Concurrency cfg < 2 ^ 32"
    and "0 < FlushMaxNum cfg"
  shows "\<exists>g. gn_run valid es g0 = Ok g \<and>
    (\<forall>s \<in> set (gn_in g). \<forall>b \<in> set (sh_posted s). b \<noteq> [] \<and> int (length b) \<le> FlushMaxNum cfg)"
proof -
  obtain g where g: "gn_run valid es g0 = Ok g" "gn_Cfg g = cfg" "net_inv valid (gn_accepted valid es g0) g"
    using net_run [OF assms(1-3)] by blast
  then have "\<forall>s \<in> set (gn_in g). batches_ok cfg s"
    using assms(4) by (auto simp: net_inv_def in_set_conv_nth)
  then show ?thesis using g(1) by (auto simp: batches_ok_def)
qed

theorem batches_are_bounded_witness:
  "\<exists>g0 g. NewGrafanaNet example_env ''r'' (fst (matcher_New [] [] [] [] [] [])) example_cfg = Ok (Inr g0) \<and>
    gn_run (\<lambda>_. True) [Line ''a 1 1'', Shard 0 (ShardMsg [])] g0 = Ok g \<and>
    (\<forall>s \<in> set (gn_in g). \<forall>b \<in> set (sh_posted s). length b \<le> 2)"
proof -
  obtain g0 where g0: "NewGrafanaNet example_env ''r'' (fst (matcher_New [] [] [] [] [] [])) example_cfg = Ok (Inr g0)"
    using example_net by blast
  from batches_are_bounded [OF g0, of "\<lambda>_. True" "[Line ''a 1 1'', Shard 0 (ShardMsg [])]"] g0
  show ?thesis by (fastforce simp: example_cfg_simps)
qed

text \<open>\<open>Shutdown\<close> never returns, whatever happens before or after it: no goroutine decreases the wait group.\<close>

theorem grafana_shutdown_never_returns:
  assumes "NewGrafanaNet env key m cfg = Ok (Inr g0)" and "0 < Concurrency cfg" and "Concurrency cfg < 2 ^ 32"
  shows "\<exists>g. gn_run valid es g0 = Ok g \<and> \<not> shutdown_returns g"
  using net_run [OF assms, of valid es] assms(2) by (auto simp: shutdown_returns_def)

theorem grafana_shutdown_never_returns_witness:
  "\<exists>g0 g. NewGrafanaNet example_env ''r'' (fst (matcher_New [] [] [] [] [] [])) example_cfg = Ok (Inr g0) \<and>
    gn_run (\<lambda>_. True) [Shard 0 (ShardShutdown [])] g0 = Ok g \<and> \<not> shutdown_returns g"
proof -
  obtain g0 where g0: "NewGrafanaNet example_env ''r'' (fst (matcher_New [] [] [] [] [] [])) example_cfg = Ok (Inr g0)"
    using example_net by blast
  from grafana_shutdown_never_returns [OF g0, of "\<lambda>_. True" "[Shard 0 (ShardShutdown [])]"] g0
  show ?thesis by (auto simp: example_cfg_simps)
qed

subsection \<open>Uploading the configuration\<close>

text \<open>\<open>postConfig\<close> posts a text until there is an answer, whatever its status; the pauses in between are left
  out. It gives the requests it makes, and whether it has returned. \<open>updateSchemas\<close> and \<open>updateAggregation\<close> do so
  at the start and every six hours.\<close>

datatype config_answer = NoResponse | ResponseStatus nat

fun postConfig :: "bytes \<Rightarrow> bytes \<Rightarrow> config_answer list \<Rightarrow> (bytes \<times> bytes) list \<times> bool" where
  "postConfig path cfg [] = ([], False)"
| "postConfig path cfg (a # as) =
     (case a of
        NoResponse \<Rightarrow> (case postConfig path cfg as of (reqs, returned) \<Rightarrow> ((path, cfg) # reqs, returned))
      | ResponseStatus st \<Rightarrow> ([(path, cfg)], True))"

definition updateSchemas :: "config_answer list list \<Rightarrow> GrafanaNet \<Rightarrow> (bytes \<times> bytes) list" where
  "updateSchemas answers g = concat (map (\<lambda>as. fst (postConfig (fst (snd (gn_addrs g))) (gn_schemasStr g) as)) answers)"

definition updateAggregation :: "config_answer list list \<Rightarrow> GrafanaNet \<Rightarrow> (bytes \<times> bytes) list" where
  "updateAggregation answers g =
     (if AggregationFile (gn_Cfg g) = [] then []
      else concat (map (\<lambda>as. fst (postConfig (snd (snd (gn_addrs g))) (gn_aggregationStr g) as)) answers))"

text \<open>An upload returns with the first answer, of whatever status, after one request for each transport error in front
  of it and one more.\<close>

theorem upload_ends_with_first_answer:
  "postConfig path cfg (replicate n NoResponse @ ResponseStatus st # as) = (replicate (Suc n) (path, cfg), True)"
  by (induction n) simp_all

text \<open>What a route uploads is what its files say, printed: to the two addresses of its configuration, the schemas
  always and the aggregation rules when there is a file.\<close>

theorem uploads_are_the_printed_files:
  assumes "NewGrafanaNet env key m cfg = Ok (Inr g)"
  shows "\<exists>schemas metrics schemasAddr aggAddr.
    getSchemas (dur_Parse env) (read_file env (SchemasFile cfg)) = Ok (Inr schemas) \<and>
    getGrafanaNetAddr (gc_Addr cfg) = Ok (metrics, schemasAddr, aggAddr) \<and>
    set (updateSchemas answers g) \<subseteq> {(schemasAddr, schemas_String schemas)} \<and>
    (AggregationFile cfg = [] \<longrightarrow> updateAggregation answers g = []) \<and>
    (AggregationFile cfg \<noteq> [] \<longrightarrow>
       (\<exists>rules out. ReadAggregations (agg_sections env (AggregationFile cfg)) = Inr rules \<and> agg_String rules = Ok out \<and>
          set (updateAggregation answers g) \<subseteq> {(aggAddr, out)}))"
proof -
  have reqs: "set (fst (postConfig path c as)) \<subseteq> {(path, c)}" for path c as
  proof (induction as)
    case (Cons a as)
    then show ?case by (cases a) (auto split: prod.splits)
  qed simp
  obtain schemas out metrics sa aa where g: "getSchemas (dur_Parse env) (read_file env (SchemasFile cfg)) = Ok (Inr schemas)"
    "aggregation_text env (AggregationFile cfg) = Ok out" "getGrafanaNetAddr (gc_Addr cfg) = Ok (metrics, sa, aa)"
    "gn_addrs g = (metrics, sa, aa)" "gn_schemasStr g = schemas_String schemas" "gn_aggregationStr g = out" "gn_Cfg g = cfg"
    "AggregationFile cfg \<noteq> [] \<longrightarrow> aggregations_ok env (AggregationFile cfg)"
    using assms by (auto simp: NewGrafanaNet_def split: if_splits)
  have all: "set (concat (map (\<lambda>as. fst (postConfig path c as)) answers)) \<subseteq> {(path, c)}" for path c
    unfolding set_concat set_map using reqs [of path c] by blast
  have "set (updateSchemas answers g) \<subseteq> {(sa, schemas_String schemas)}"
    using all [of sa "schemas_String schemas"] unfolding updateSchemas_def g fst_conv snd_conv .
  moreover have "set (updateAggregation answers g) \<subseteq> {(aa, out)}"
  proof (cases "AggregationFile cfg = []")
    case False
    then show ?thesis
      using all [of aa out] unfolding updateAggregation_def g fst_conv snd_conv by (simp only: if_False)
  qed (simp add: updateAggregation_def g)
  moreover have "AggregationFile cfg = [] \<longrightarrow> updateAggregation answers g = []" by (simp add: updateAggregation_def g)
  ultimately show ?thesis
    using g(1-3,8) by (auto simp: aggregation_text_def aggregations_ok_def split: sum.splits if_splits)
qed

theorem uploads_are_the_printed_files_witness:
  "\<exists>g schemas. NewGrafanaNet example_env ''r'' (fst (matcher_New [] [] [] [] [] [])) example_cfg = Ok (Inr g) \<and>
    getSchemas (dur_Parse example_env) (read_file example_env (SchemasFile example_cfg)) = Ok (Inr schemas) \<and>
    snd ` set (updateSchemas [[NoResponse, ResponseStatus 200]] g) \<subseteq> {schemas_String schemas}"
proof -
  obtain g where g: "NewGrafanaNet example_env ''r'' (fst (matcher_New [] [] [] [] [] [])) example_cfg = Ok (Inr g)"
    using example_net by blast
  from uploads_are_the_printed_files [OF g, of "[[NoResponse, ResponseStatus 200]]"] g show ?thesis by fastforce
qed

end
