(* ===== verification/Route_Kafka.thy ===== *)
theory Route_Kafka
  imports Persist_Schemas Relay_Matcher Route_Dispatch
begin

text \<open>
  \<^verbatim>\<open>route/kafkamdm.go\<close>: the route that publishes metric data to Kafka. Its goroutine connects, then takes
  lines from its channel, converts them and sends them in batches, again and again until the
  brokers take a batch.

  \<^item> The record \<open>kafka_env\<close> stands for the third-party sarama and metrictank: which partitioner names,
    TLS files and configurations they accept. A \<open>partition_fn\<close> gives the partition of a metric, or nothing
    when it cannot be partitioned or encoded. A message is its partition and the metric it carries.
  \<^item> \<open>log.Fatalf\<close> ends the process, and so does a panic in the goroutine: both are a \<open>Panic\<close>.
  \<^item> The answers to the attempts of a flush are an argument; when none of them is a success the
    goroutine goes on trying, and the route is \<open>k_stuck\<close>. Timers decide only when \<open>KTick\<close> may happen.
    What the goroutine does first, before it connects, belongs to the constructor.
\<close>

subsection \<open>Configuration\<close>

record KafkaArgs =
  ka_key :: bytes
  ka_matcher :: Matcher
  ka_topic :: bytes
  ka_codec :: bytes
  ka_schemasFile :: bytes
  ka_partitionBy :: bytes
  ka_brokers :: "bytes list"
  ka_bufSize :: int
  ka_orgId :: int
  ka_flushMaxNum :: int
  ka_flushMaxWait :: int
  ka_timeout :: int
  ka_blocking :: bool
  ka_tlsEnabled :: bool
  ka_tlsSkipVerify :: bool
  ka_tlsClientCert :: bytes
  ka_tlsClientKey :: bytes
  ka_saslEnabled :: bool
  ka_saslMechanism :: bytes
  ka_saslUsername :: bytes
  ka_saslPassword :: bytes

datatype compression = CompressionNone | CompressionGZIP | CompressionSnappy

datatype sasl_mechanism = DefaultMechanism | SCRAMSHA256 | SCRAMSHA512

record sarama_config =
  net_tls :: "(bytes \<times> bytes \<times> bool) option"
  net_sasl :: "(sasl_mechanism \<times> bytes \<times> bytes) option"
  producer_compression :: compression
  producer_timeout :: int

record kafka_env =
  ke_read_file :: "bytes \<Rightarrow> bytes option"
  ke_dur :: "bytes \<Rightarrow> uint32 option"
  partitioner_ok :: "bytes \<Rightarrow> bool"
  tls_ok :: "bytes \<Rightarrow> bytes \<Rightarrow> bool"
  sarama_ok :: "sarama_config \<Rightarrow> bool"

definition getCompression :: "bytes \<Rightarrow> compression option" where
  "getCompression codec =
     (if codec = ''none'' then Some CompressionNone
      else if codec = ''gzip'' then Some CompressionGZIP
      else if codec = ''snappy'' then Some CompressionSnappy
      else None)"

definition fatal :: "bytes \<Rightarrow> 'a outcome" where
  "fatal s = Panic (ExplicitPanic s)"

definition sasl_config :: "KafkaArgs \<Rightarrow> (sasl_mechanism \<times> bytes \<times> bytes) option outcome" where
  "sasl_config a =
     (if \<not> ka_saslEnabled a then Ok None
      else if ka_saslMechanism a = ''SCRAM-SHA-256'' then Ok (Some (SCRAMSHA256, ka_saslUsername a, ka_saslPassword a))
      else if ka_saslMechanism a = ''SCRAM-SHA-512'' then Ok (Some (SCRAMSHA512, ka_saslUsername a, ka_saslPassword a))
      else if ka_saslMechanism a \<noteq> [] then fatal ''Failed to recognize saslMechanism''
      else Ok (Some (DefaultMechanism, ka_saslUsername a, ka_saslPassword a)))"

definition sarama_of :: "kafka_env \<Rightarrow> KafkaArgs \<Rightarrow> sarama_config outcome" where
  "sarama_of env a =
     (if ka_tlsEnabled a \<and> \<not> tls_ok env (ka_tlsClientCert a) (ka_tlsClientKey a) then fatal ''Failed to create TLS config''
      else bind_outcome (sasl_config a) (\<lambda>sasl.
        case getCompression (ka_codec a) of
          None \<Rightarrow> fatal ''unknown compression codec''
        | Some compr \<Rightarrow>
            let cfg = \<lparr>net_tls = (if ka_tlsEnabled a then Some (ka_tlsClientCert a, ka_tlsClientKey a, ka_tlsSkipVerify a) else None),
                       net_sasl = sasl, producer_compression = compr, producer_timeout = millis (ka_timeout a)\<rparr>
            in if sarama_ok env cfg then Ok cfg else fatal ''failed to validate kafka config''))"

subsection \<open>State\<close>

record KafkaMdm = chan +
  k_key :: bytes
  k_Matcher :: Matcher
  saramaCfg :: sarama_config
  k_topic :: bytes
  k_numPartitions :: "int option"
  k_brokers :: "bytes list"
  k_partitionBy :: bytes
  k_schemas :: "Schema list"
  k_blocking :: bool
  k_orgId :: int
  k_bufSize :: int
  k_flushMaxNum :: int
  k_flushMaxWait :: int
  k_attempts :: nat
  k_metrics :: "MetricData list"
  k_sent :: "(int \<times> MetricData) list list"
  k_closed :: bool
  k_running :: bool
  k_stuck :: bool
  k_numErrFlush :: nat
  k_numOut :: nat
  k_numDropBuffFull :: nat
  k_numBuffered :: int

definition NewKafkaMdm :: "kafka_env \<Rightarrow> KafkaArgs \<Rightarrow> (schema_error + KafkaMdm) outcome" where
  "NewKafkaMdm env a =
     bind_try (getSchemas (ke_dur env) (ke_read_file env (ka_schemasFile a))) (\<lambda>schemas.
       if ka_brokers a = [] then Panic IndexOutOfRange
       else if ka_bufSize a < 0 then Panic IndexOutOfRange
       else if \<not> partitioner_ok env (ka_partitionBy a) then fatal ''failed to initialize partitioner''
       else bind_outcome (sarama_of env a) (\<lambda>cfg.
         if ka_flushMaxNum a < 0 then Panic IndexOutOfRange
         else if millis (ka_flushMaxWait a) \<le> 0 then Panic NonPositiveTicker
         else Ok (Inr \<lparr>ch_in = [], ch_waiting = [], k_key = ka_key a, k_Matcher = ka_matcher a, saramaCfg = cfg,
                k_topic = ka_topic a, k_numPartitions = None, k_brokers = ka_brokers a,
                k_partitionBy = ka_partitionBy a, k_schemas = schemas, k_blocking = ka_blocking a,
                k_orgId = ka_orgId a, k_bufSize = ka_bufSize a, k_flushMaxNum = ka_flushMaxNum a,
                k_flushMaxWait = millis (ka_flushMaxWait a), k_attempts = 0, k_metrics = [], k_sent = [],
                k_closed = False, k_running = True, k_stuck = False, k_numErrFlush = 0, k_numOut = 0,
                k_numDropBuffFull = 0, k_numBuffered = 0\<rparr>)))"

subsection \<open>The goroutine\<close>

text \<open>What a connection attempt meets: no brokers, another error, or a client, with the number of
  partitions of the topic unless that is an error, and whether the producer could be created.\<close>

datatype client_result = OutOfBrokers | ClientError | Client "int option" bool

definition kafka_connect :: "client_result \<Rightarrow> KafkaMdm \<Rightarrow> KafkaMdm outcome" where
  "kafka_connect r k =
     (case k_numPartitions k of
        Some _ \<Rightarrow> Ok k
      | None \<Rightarrow>
          (case r of
             OutOfBrokers \<Rightarrow>
               let k1 = k\<lparr>k_attempts := k_attempts k + 1\<rparr>
               in if k_attempts k1 > 300 then fatal ''no kafka brokers available.'' else Ok k1
           | ClientError \<Rightarrow> fatal ''failed to initialize kafka producer''
           | Client None _ \<Rightarrow> fatal ''failed to get partitions''
           | Client (Some n) ok \<Rightarrow>
               if n < 1 then fatal ''retrieved 0 partitions''
               else if \<not> ok then fatal ''failed to initialize kafka producer''
               else Ok (k\<lparr>k_numPartitions := Some n\<rparr>)))"

type_synonym partition_fn = "bytes \<Rightarrow> MetricData \<Rightarrow> int \<Rightarrow> int option"

fun kafka_payload :: "(MetricData \<Rightarrow> int option) \<Rightarrow> MetricData list \<Rightarrow> (int \<times> MetricData) list outcome" where
  "kafka_payload part [] = Ok []"
| "kafka_payload part (m # ms) =
     (case part m of
        None \<Rightarrow> Panic (ExplicitPanic ''partition'')
      | Some p \<Rightarrow> bind_outcome (kafka_payload part ms) (\<lambda>rest. Ok ((p, m) # rest)))"

definition kafka_flush :: "partition_fn \<Rightarrow> bool list \<Rightarrow> KafkaMdm \<Rightarrow> KafkaMdm outcome" where
  "kafka_flush part oks k =
     bind_outcome (kafka_payload (\<lambda>m. part (k_partitionBy k) m (the (k_numPartitions k))) (k_metrics k)) (\<lambda>payload.
       case failures oks of
         None \<Rightarrow> Ok (k\<lparr>k_stuck := True, k_numErrFlush := k_numErrFlush k + length oks\<rparr>)
       | Some n \<Rightarrow>
           Ok (k\<lparr>k_sent := k_sent k @ [payload], k_numOut := k_numOut k + length (k_metrics k),
                 k_numErrFlush := k_numErrFlush k + n, k_metrics := []\<rparr>))"

datatype kafka_event = KLine bytes | KConnect client_result | KTurn "bool list" | KTick "bool list" | KClose

definition km_Dispatch :: "bytes \<Rightarrow> KafkaMdm \<Rightarrow> KafkaMdm outcome" where
  "km_Dispatch buf k =
     (if k_closed k then Panic SendOnClosedChannel
      else case dispatch (k_blocking k) (nat (k_bufSize k)) buf k of
             (k1, buffered, dropped) \<Rightarrow>
               Ok (k1\<lparr>k_numBuffered := k_numBuffered k1 + buffered, k_numDropBuffFull := k_numDropBuffFull k1 + dropped\<rparr>))"

definition km_Shutdown :: "KafkaMdm \<Rightarrow> KafkaMdm outcome" where
  "km_Shutdown k =
     (if k_closed k then Panic (ExplicitPanic ''close of closed channel'')
      else if ch_waiting k \<noteq> [] then Panic SendOnClosedChannel
      else Ok (k\<lparr>k_closed := True\<rparr>))"

definition kafka_turn :: "(MetricData \<Rightarrow> bool) \<Rightarrow> partition_fn \<Rightarrow> bool list \<Rightarrow> KafkaMdm \<Rightarrow> KafkaMdm outcome" where
  "kafka_turn valid part oks k =
     (case take_msg k of
        None \<Rightarrow>
          if \<not> k_closed k then Ok k
          else bind_outcome (if length (k_metrics k) \<noteq> 0 then kafka_flush part oks k else Ok k) (\<lambda>k1.
                 Ok (if k_stuck k1 then k1 else k1\<lparr>k_running := False\<rparr>))
      | Some (buf, k0) \<Rightarrow>
          let k1 = k0\<lparr>k_numBuffered := k_numBuffered k0 - 1\<rparr>
          in bind_outcome (parseMetric valid buf (k_schemas k1) (k_orgId k1)) (\<lambda>r.
               case r of
                 Inl _ \<Rightarrow> Ok k1
               | Inr md \<Rightarrow>
                   let k2 = k1\<lparr>k_metrics := k_metrics k1 @ [md]\<rparr>
                   in if int (length (k_metrics k2)) = k_flushMaxNum k2 then kafka_flush part oks k2 else Ok k2))"

definition kafka_step :: "(MetricData \<Rightarrow> bool) \<Rightarrow> partition_fn \<Rightarrow> kafka_event \<Rightarrow> KafkaMdm \<Rightarrow> KafkaMdm outcome" where
  "kafka_step valid part e k =
     (case e of
        KLine buf \<Rightarrow> km_Dispatch buf k
      | KClose \<Rightarrow> km_Shutdown k
      | KConnect r \<Rightarrow> kafka_connect r k
      | KTurn oks \<Rightarrow> (if k_numPartitions k = None \<or> \<not> k_running k \<or> k_stuck k then Ok k else kafka_turn valid part oks k)
      | KTick oks \<Rightarrow>
          (if k_numPartitions k = None \<or> \<not> k_running k \<or> k_stuck k \<or> length (k_metrics k) = 0 then Ok k
           else kafka_flush part oks k))"

subsection \<open>Nothing is lost or reordered\<close>

definition kafka_contents :: "(MetricData \<Rightarrow> bool) \<Rightarrow> KafkaMdm \<Rightarrow> MetricData list" where
  "kafka_contents valid k =
     map snd (concat (k_sent k)) @ k_metrics k @ parsed valid (k_schemas k) (k_orgId k) (queue k)"

definition kafka_new :: "(MetricData \<Rightarrow> bool) \<Rightarrow> kafka_event \<Rightarrow> KafkaMdm \<Rightarrow> MetricData list" where
  "kafka_new valid e k =
     (case e of
        KLine buf \<Rightarrow> if accepts (k_blocking k) (nat (k_bufSize k)) k then parsed valid (k_schemas k) (k_orgId k) [buf] else []
      | _ \<Rightarrow> [])"

text \<open>The events before the shutdown, with connection attempts that succeed.\<close>

definition kafka_allowed :: "kafka_event \<Rightarrow> bool" where
  "kafka_allowed e =
     (case e of
        KConnect r \<Rightarrow> (case r of Client (Some n) ok \<Rightarrow> 1 \<le> n \<and> ok | _ \<Rightarrow> False)
      | KClose \<Rightarrow> False
      | _ \<Rightarrow> True)"

definition kafka_batches :: "partition_fn \<Rightarrow> KafkaMdm \<Rightarrow> bool" where
  "kafka_batches part k \<longleftrightarrow>
     (\<forall>b \<in> set (k_sent k). \<forall>(p, m) \<in> set b. \<exists>n. k_numPartitions k = Some n \<and> part (k_partitionBy k) m n = Some p) \<and>
     (0 < k_flushMaxNum k \<longrightarrow>
        (\<forall>b \<in> set (k_sent k). b \<noteq> [] \<and> int (length b) \<le> k_flushMaxNum k) \<and>
        int (length (k_metrics k)) \<le> k_flushMaxNum k \<and> (\<not> k_stuck k \<longrightarrow> int (length (k_metrics k)) < k_flushMaxNum k))"

definition kafka_ready :: "(MetricData \<Rightarrow> bool) \<Rightarrow> partition_fn \<Rightarrow> KafkaMdm \<Rightarrow> bool" where
  "kafka_ready valid part k \<longleftrightarrow>
     (\<forall>buf. \<exists>r. parseMetric valid buf (k_schemas k) (k_orgId k) = Ok r) \<and>
     (\<forall>m n. 1 \<le> n \<longrightarrow> part (k_partitionBy k) m n \<noteq> None) \<and>
     (\<forall>n. k_numPartitions k = Some n \<longrightarrow> 1 \<le> n) \<and> k_running k \<and> kafka_batches part k"

definition kafka_inv :: "(MetricData \<Rightarrow> bool) \<Rightarrow> partition_fn \<Rightarrow> KafkaMdm \<Rightarrow> bool" where
  "kafka_inv valid part k \<longleftrightarrow> kafka_ready valid part k \<and> \<not> k_closed k"

lemma queue_kafka [simp]:
  "queue (k\<lparr>k_numBuffered := x\<rparr>) = queue k" "queue (k\<lparr>k_numDropBuffFull := y\<rparr>) = queue k"
  by (simp_all add: queue_def)

lemma kafka_payload_ok:
  "\<forall>m. part m \<noteq> None \<Longrightarrow> kafka_payload part ms = Ok (map (\<lambda>m. (the (part m), m)) ms)"
  by (induction ms) (auto split: option.splits)

text \<open>A flush of a batch that is not empty keeps the contents.\<close>

lemma kafka_flush_ok:
  assumes "k_numPartitions k = Some n" "\<forall>m. part (k_partitionBy k) m n \<noteq> None" "k_metrics k \<noteq> []"
    "\<forall>b \<in> set (k_sent k). \<forall>(p, m) \<in> set b. part (k_partitionBy k) m n = Some p"
    "0 < k_flushMaxNum k \<longrightarrow> (\<forall>b \<in> set (k_sent k). b \<noteq> [] \<and> int (length b) \<le> k_flushMaxNum k) \<and>
        int (length (k_metrics k)) \<le> k_flushMaxNum k"
  shows "\<exists>k'. kafka_flush part oks k = Ok k' \<and> kafka_batches part k' \<and> kafka_contents valid k' = kafka_contents valid k \<and>
    k_schemas k' = k_schemas k \<and> k_orgId k' = k_orgId k \<and> k_partitionBy k' = k_partitionBy k \<and>
    k_numPartitions k' = k_numPartitions k \<and> k_running k' = k_running k \<and> k_closed k' = k_closed k \<and>
    queue k' = queue k \<and> (failures oks \<noteq> None \<longrightarrow> k_stuck k' = k_stuck k \<and> k_metrics k' = []) \<and>
    ch_waiting k' = ch_waiting k"
proof (cases "failures oks")
  case None
  then show ?thesis
    using assms by (auto simp: kafka_flush_def kafka_payload_ok kafka_batches_def kafka_contents_def queue_def)
next
  case (Some x)
  then show ?thesis
    using assms
    by (auto simp: kafka_flush_def kafka_payload_ok kafka_batches_def kafka_contents_def queue_def comp_def)
qed

text \<open>Turns and ticks after the connection, before and after the channel has been closed.\<close>

lemma kafka_turn_ok:
  assumes "kafka_ready valid part k" "\<not> k_stuck k" "k_numPartitions k = Some n" "take_msg k = Some (buf, k0)"
  shows "\<exists>k'. kafka_turn valid part oks k = Ok k' \<and> kafka_ready valid part k' \<and>
    kafka_contents valid k' = kafka_contents valid k \<and> k_closed k' = k_closed k \<and>
    k_numPartitions k' = k_numPartitions k \<and> queue k = buf # queue k' \<and>
    (failures oks \<noteq> None \<longrightarrow> \<not> k_stuck k') \<and> (ch_waiting k = [] \<longrightarrow> ch_waiting k' = [])"
proof -
  obtain q w where k0: "k0 = k\<lparr>ch_in := q, ch_waiting := w\<rparr>" "queue k = buf # q @ w" "ch_waiting k = [] \<longrightarrow> w = []"
    using take_msg_other [OF assms(4)] by blast
  obtain r where r: "parseMetric valid buf (k_schemas k) (k_orgId k) = Ok r"
    using assms(1) unfolding kafka_ready_def by blast
  let ?k1 = "k0\<lparr>k_numBuffered := k_numBuffered k0 - 1\<rparr>"
  have n: "1 \<le> n" "\<forall>m. part (k_partitionBy k) m n \<noteq> None"
    using assms(1,3) by (auto simp: kafka_ready_def)
  have batches: "\<forall>b \<in> set (k_sent k). \<forall>(p, m) \<in> set b. part (k_partitionBy k) m n = Some p"
    "0 < k_flushMaxNum k \<longrightarrow> (\<forall>b \<in> set (k_sent k). b \<noteq> [] \<and> int (length b) \<le> k_flushMaxNum k) \<and>
       int (length (k_metrics k)) < k_flushMaxNum k"
    using assms(1-3) by (auto simp: kafka_ready_def kafka_batches_def)
  show ?thesis
  proof (cases r)
    case (Inl e)
    then have "kafka_turn valid part oks k = Ok ?k1"
      using assms(4) r k0(1) by (simp add: kafka_turn_def)
    moreover have "kafka_contents valid ?k1 = kafka_contents valid k"
      using k0 r Inl by (simp add: kafka_contents_def queue_def parsed_Cons)
    moreover have "kafka_ready valid part ?k1"
      using assms(1) k0(1) by (simp add: kafka_ready_def kafka_batches_def)
    ultimately show ?thesis using k0 assms(2) by (simp add: queue_def)
  next
    case (Inr md)
    let ?k2 = "?k1\<lparr>k_metrics := k_metrics ?k1 @ [md]\<rparr>"
    have c: "kafka_contents valid ?k2 = kafka_contents valid k"
      using k0 r Inr by (simp add: kafka_contents_def queue_def parsed_Cons)
    have turn: "kafka_turn valid part oks k =
        (if int (length (k_metrics ?k2)) = k_flushMaxNum ?k2 then kafka_flush part oks ?k2 else Ok ?k2)"
      using assms(4) r Inr k0(1) by (simp add: kafka_turn_def Let_def)
    show ?thesis
    proof (cases "int (length (k_metrics ?k2)) = k_flushMaxNum ?k2")
      case True
      have "\<exists>k'. kafka_flush part oks ?k2 = Ok k' \<and> kafka_batches part k' \<and> kafka_contents valid k' = kafka_contents valid ?k2 \<and>
        k_schemas k' = k_schemas ?k2 \<and> k_orgId k' = k_orgId ?k2 \<and> k_partitionBy k' = k_partitionBy ?k2 \<and>
        k_numPartitions k' = k_numPartitions ?k2 \<and> k_running k' = k_running ?k2 \<and> k_closed k' = k_closed ?k2 \<and>
        queue k' = queue ?k2 \<and> (failures oks \<noteq> None \<longrightarrow> k_stuck k' = k_stuck ?k2 \<and> k_metrics k' = []) \<and>
        ch_waiting k' = ch_waiting ?k2"
        by (rule kafka_flush_ok [where n = n]) (use assms(3) n batches k0(1) True in auto)
      then show ?thesis using turn True c k0 assms(1,2) by (auto simp: kafka_ready_def queue_def)
    next
      case False
      moreover have "kafka_ready valid part ?k2"
        using assms(1,2) k0(1) batches(2) False by (auto simp: kafka_ready_def kafka_batches_def)
      ultimately show ?thesis using turn c k0 assms(2) by (simp add: queue_def)
    qed
  qed
qed

interpretation kafka: lossless "kafka_step valid part" "kafka_inv valid part" kafka_allowed
    "kafka_contents valid" "kafka_new valid" for valid part
proof
  fix k e
  assume inv: "kafka_inv valid part k" and e: "kafka_allowed e"
  show "\<exists>k'. kafka_step valid part e k = Ok k' \<and> kafka_inv valid part k' \<and>
    kafka_contents valid k' = kafka_contents valid k @ kafka_new valid e k"
  proof (cases e)
    case (KLine buf)
    obtain k1 b d where d: "dispatch (k_blocking k) (nat (k_bufSize k)) buf k = (k1, b, d)"
      by (cases "dispatch (k_blocking k) (nat (k_bufSize k)) buf k")
    note D = dispatch_accepts [OF d]
    from same_more [OF D(1)] obtain q w where k1: "k1 = k\<lparr>ch_in := q, ch_waiting := w\<rparr>" by blast
    then show ?thesis
      using inv D(2) d KLine
      by (auto simp: kafka_step_def km_Dispatch_def kafka_inv_def kafka_ready_def kafka_batches_def
          kafka_contents_def kafka_new_def)
  next
    case (KConnect r)
    then obtain n where r: "r = Client (Some n) True" "1 \<le> n"
      using e by (auto simp: kafka_allowed_def split: client_result.splits option.splits)
    show ?thesis
    proof (cases "k_numPartitions k")
      case None
      then have "kafka_step valid part e k = Ok (k\<lparr>k_numPartitions := Some n\<rparr>)"
        using KConnect r by (simp add: kafka_step_def kafka_connect_def)
      moreover have "x \<notin> set b" if "b \<in> set (k_sent k)" for b x
      proof
        assume "x \<in> set b"
        then show False
          using inv None that unfolding kafka_inv_def kafka_ready_def kafka_batches_def by fastforce
      qed
      ultimately show ?thesis
        using inv KConnect r(2)
        by (auto simp: kafka_inv_def kafka_ready_def kafka_batches_def kafka_contents_def kafka_new_def queue_def)
    next
      case (Some m)
      then show ?thesis using inv KConnect by (simp add: kafka_step_def kafka_connect_def kafka_new_def)
    qed
  next
    case (KTurn oks)
    show ?thesis
    proof (cases "k_numPartitions k = None \<or> \<not> k_running k \<or> k_stuck k \<or> take_msg k = None")
      case True
      then show ?thesis using inv KTurn by (auto simp: kafka_step_def kafka_turn_def kafka_inv_def kafka_new_def)
    next
      case False
      then obtain n buf k0 where "k_numPartitions k = Some n" "take_msg k = Some (buf, k0)" by auto
      from kafka_turn_ok [OF _ _ this, of valid part oks] show ?thesis
        using inv False KTurn by (auto simp: kafka_step_def kafka_inv_def kafka_new_def)
    qed
  next
    case (KTick oks)
    show ?thesis
    proof (cases "k_numPartitions k = None \<or> \<not> k_running k \<or> k_stuck k \<or> length (k_metrics k) = 0")
      case True
      then show ?thesis using inv KTick by (auto simp: kafka_step_def kafka_new_def)
    next
      case False
      then obtain n where n: "k_numPartitions k = Some n" by auto
      have "\<forall>m. part (k_partitionBy k) m n \<noteq> None"
        "\<forall>b \<in> set (k_sent k). \<forall>(p, m) \<in> set b. part (k_partitionBy k) m n = Some p"
        "0 < k_flushMaxNum k \<longrightarrow> (\<forall>b \<in> set (k_sent k). b \<noteq> [] \<and> int (length b) \<le> k_flushMaxNum k) \<and>
          int (length (k_metrics k)) \<le> k_flushMaxNum k"
        using inv n by (auto simp: kafka_inv_def kafka_ready_def kafka_batches_def)
      from kafka_flush_ok [where valid = valid and part = part and k = k and n = n and oks = oks, OF n this(1) _ this(2,3)] show ?thesis
        using inv False KTick by (auto simp: kafka_step_def kafka_inv_def kafka_ready_def kafka_new_def)
    qed
  next
    case KClose
    then show ?thesis using e by (simp add: kafka_allowed_def)
  qed
qed

lemma NewKafkaMdm_inv:
  assumes "NewKafkaMdm env a = Ok (Inr k)" and "\<forall>m n. 1 \<le> n \<longrightarrow> part (ka_partitionBy a) m n \<noteq> None"
  shows "kafka_inv valid part k \<and> kafka_contents valid k = [] \<and> k_numPartitions k = None \<and> k_attempts k = 0 \<and>
    k_flushMaxNum k = ka_flushMaxNum a \<and> k_partitionBy k = ka_partitionBy a"
proof -
  from assms(1) have g: "getSchemas (ke_dur env) (ke_read_file env (ka_schemasFile a)) = Ok (Inr (k_schemas k))"
    by (auto simp: NewKafkaMdm_def fatal_def split: if_splits)
  from assms(1) show ?thesis
    using parseMetric_ok [OF g] assms(2)
    by (auto simp: NewKafkaMdm_def fatal_def kafka_inv_def kafka_ready_def kafka_batches_def kafka_contents_def
        queue_def split: if_splits) blast+
qed

lemma connect_attempts:
  assumes "k_numPartitions k = None" and "k_attempts k + n \<le> 300"
  shows "run_events (kafka_step valid part) (replicate n (KConnect OutOfBrokers)) k = Ok (k\<lparr>k_attempts := k_attempts k + n\<rparr>)"
  using assms
proof (induction n arbitrary: k)
  case 0
  then show ?case by simp
next
  case (Suc n)
  have "kafka_step valid part (KConnect OutOfBrokers) k = Ok (k\<lparr>k_attempts := k_attempts k + 1\<rparr>)"
    using Suc.prems by (simp add: kafka_step_def kafka_connect_def)
  with Suc.IH [of "k\<lparr>k_attempts := k_attempts k + 1\<rparr>"] Suc.prems show ?case by simp
qed

lemma attempts_inv [simp]:
  "kafka_inv valid part (k\<lparr>k_attempts := n\<rparr>) = kafka_inv valid part k"
  "kafka_contents valid (k\<lparr>k_attempts := n\<rparr>) = kafka_contents valid k"
  by (simp_all add: kafka_inv_def kafka_ready_def kafka_batches_def kafka_contents_def queue_def)

subsection \<open>Properties\<close>

text \<open>C25: What has been sent, is in the batch or waits in the channel is, in order, the metric data of the lines
  the channel took in; every message carries the partition of its metric, and with a positive
  \<open>flushMaxNum\<close> no batch is empty or larger than it. This holds for any interleaving of lines,
  turns, ticks and failing sends after up to 300 failed attempts to connect.\<close>

theorem kafka_delivers_in_order:
  assumes "NewKafkaMdm env a = Ok (Inr k0)" and "\<forall>m n. 1 \<le> n \<longrightarrow> part (ka_partitionBy a) m n \<noteq> None"
    and "n \<le> 300" and "\<forall>e \<in> set es. kafka_allowed e"
  shows "\<exists>k1 k. run_events (kafka_step valid part) (replicate n (KConnect OutOfBrokers)) k0 = Ok k1 \<and>
    run_events (kafka_step valid part) es k1 = Ok k \<and>
    map snd (concat (k_sent k)) @ k_metrics k @ parsed valid (k_schemas k) (k_orgId k) (queue k) =
      taken_in (kafka_step valid part) (kafka_new valid) es k1 \<and>
    kafka_batches part k"
proof -
  note new = NewKafkaMdm_inv [where valid = valid and part = part, OF assms(1,2)]
  let ?k1 = "k0\<lparr>k_attempts := n\<rparr>"
  have "run_events (kafka_step valid part) (replicate n (KConnect OutOfBrokers)) k0 = Ok ?k1"
    using connect_attempts [of k0 n valid part] new assms(3) by simp
  moreover have "kafka_inv valid part ?k1" "kafka_contents valid ?k1 = []"
    using new by simp_all
  ultimately show ?thesis
    using kafka.run_keeps [of valid part ?k1 es] assms(4)
    by (auto simp: kafka_contents_def kafka_inv_def kafka_ready_def)
qed

definition example_kafka_env :: kafka_env where
  "example_kafka_env = \<lparr>ke_read_file = (\<lambda>_. Some example_file), ke_dur = example_dur, partitioner_ok = (\<lambda>_. True),
     tls_ok = (\<lambda>_ _. True), sarama_ok = (\<lambda>_. True)\<rparr>"

definition example_kafka_args :: KafkaArgs where
  "example_kafka_args = \<lparr>ka_key = ''k'', ka_matcher = fst (matcher_New [] [] [] [] [] []), ka_topic = ''t'',
     ka_codec = ''none'', ka_schemasFile = ''f'', ka_partitionBy = ''byOrg'', ka_brokers = [''b''], ka_bufSize = 4,
     ka_orgId = 1, ka_flushMaxNum = 2, ka_flushMaxWait = 500, ka_timeout = 2000, ka_blocking = False,
     ka_tlsEnabled = False, ka_tlsSkipVerify = False, ka_tlsClientCert = [], ka_tlsClientKey = [],
     ka_saslEnabled = False, ka_saslMechanism = [], ka_saslUsername = [], ka_saslPassword = []\<rparr>"

lemma example_kafka: "\<exists>k0. NewKafkaMdm example_kafka_env example_kafka_args = Ok (Inr k0)"
proof -
  have "case NewKafkaMdm example_kafka_env example_kafka_args of Ok (Inr _) \<Rightarrow> True | _ \<Rightarrow> False"
    by code_simp
  then show ?thesis by (auto split: outcome.splits sum.splits)
qed

theorem kafka_delivers_in_order_witness:
  "\<exists>k0 k1 k. NewKafkaMdm example_kafka_env example_kafka_args = Ok (Inr k0) \<and>
    run_events (kafka_step (\<lambda>_. True) (\<lambda>_ _ _. Some 0)) [KLine ''a 1 1'', KConnect (Client (Some 1) True), KTurn [], KTick [False, True]] k1 = Ok k \<and>
    kafka_batches (\<lambda>_ _ _. Some 0) k"
proof -
  obtain k0 where k0: "NewKafkaMdm example_kafka_env example_kafka_args = Ok (Inr k0)"
    using example_kafka by blast
  obtain k1 k where "run_events (kafka_step (\<lambda>_. True) (\<lambda>_ _ _. Some 0))
      [KLine ''a 1 1'', KConnect (Client (Some 1) True), KTurn [], KTick [False, True]] k1 = Ok k"
    "kafka_batches (\<lambda>_ _ _. Some 0) k"
    using kafka_delivers_in_order [OF k0, of "\<lambda>_ _ _. Some 0" 3
        "[KLine ''a 1 1'', KConnect (Client (Some 1) True), KTurn [], KTick [False, True]]" "\<lambda>_. True"]
    by (auto simp: kafka_allowed_def simp del: run_events.simps)
  with k0 show ?thesis by blast
qed

text \<open>\<open>Shutdown\<close> makes the goroutine empty its channel, flush and return, when no sender is blocked and the
  sends succeed; a dispatch after it panics.\<close>

lemma kafka_drain:
  assumes "kafka_ready valid part k" "\<not> k_stuck k" "k_numPartitions k = Some n" "k_closed k" "length (queue k) = l"
  shows "\<exists>k'. run_events (kafka_step valid part) (replicate (Suc l) (KTurn [True])) k = Ok k' \<and> \<not> k_running k' \<and>
    k_closed k' \<and> map snd (concat (k_sent k')) = kafka_contents valid k"
  using assms
proof (induction l arbitrary: k)
  case 0
  then have t: "take_msg k = None" "k_running k" by (simp_all add: take_msg_None kafka_ready_def)
  show ?case
  proof (cases "k_metrics k = []")
    case True
    then have "kafka_step valid part (KTurn [True]) k = Ok (k\<lparr>k_running := False\<rparr>)"
      using 0 t by (simp add: kafka_step_def kafka_turn_def)
    then show ?thesis using 0 True by (simp add: kafka_contents_def)
  next
    case False
    have "\<forall>m. part (k_partitionBy k) m n \<noteq> None"
        "\<forall>b \<in> set (k_sent k). \<forall>(p, m) \<in> set b. part (k_partitionBy k) m n = Some p"
        "0 < k_flushMaxNum k \<longrightarrow> (\<forall>b \<in> set (k_sent k). b \<noteq> [] \<and> int (length b) \<le> k_flushMaxNum k) \<and>
          int (length (k_metrics k)) \<le> k_flushMaxNum k"
      using 0 by (auto simp: kafka_ready_def kafka_batches_def)
    from kafka_flush_ok [where valid = valid and part = part and k = k and n = n and oks = "[True]", OF 0(3) this(1) False this(2,3)]
    obtain k' where k': "kafka_flush part [True] k = Ok k'" "kafka_contents valid k' = kafka_contents valid k"
      "k_closed k'" "queue k' = queue k" "\<not> k_stuck k'" "k_metrics k' = []"
      using 0 by auto
    then have "kafka_step valid part (KTurn [True]) k = Ok (k'\<lparr>k_running := False\<rparr>)"
      using 0 t False by (simp add: kafka_step_def kafka_turn_def)
    then show ?thesis using k' 0(5) by (simp add: kafka_contents_def)
  qed
next
  case (Suc l)
  then obtain buf k0 where "take_msg k = Some (buf, k0)"
    using take_msg_None [of k] by fastforce
  from kafka_turn_ok [OF Suc.prems(1-3) this, of "[True]"]
  obtain k1 where k1: "kafka_turn valid part [True] k = Ok k1" "kafka_ready valid part k1"
    "kafka_contents valid k1 = kafka_contents valid k" "k_closed k1 = k_closed k"
    "k_numPartitions k1 = k_numPartitions k" "queue k = buf # queue k1" "\<not> k_stuck k1"
    by auto
  have "kafka_step valid part (KTurn [True]) k = Ok k1"
    using k1 Suc.prems by (simp add: kafka_step_def kafka_ready_def)
  moreover from Suc.IH [of k1] k1 Suc.prems
  obtain k' where "run_events (kafka_step valid part) (replicate (Suc l) (KTurn [True])) k1 = Ok k'" "\<not> k_running k'"
    "k_closed k'" "map snd (concat (k_sent k')) = kafka_contents valid k"
    by auto
  ultimately show ?case
    unfolding replicate_Suc [of "Suc l"] by (simp del: replicate_Suc)
qed



end
