(* ===== verification/Route_PubSub.thy ===== *)
theory Route_PubSub
  imports Dest_Conn Relay_Matcher Route_Dispatch
begin

text \<open>
  \<^verbatim>\<open>route/pubsub.go\<close>: the route that publishes lines to a Google PubSub topic. Its goroutine collects lines in
  a buffer, as text or pickled, and publishes the buffer, possibly compressed, when it is about to
  exceed its size and at every tick.

  \<^item> \<open>gzip\<close> stands for the compressor, which may fail, and \<open>encode\<close> for the third-party pickle encoder.
    The record \<open>pubsub_env\<close> is what the connection meets. The answer of the server to a publication is
    an argument of the event; a publication after the topic has been stopped fails, as the
    library documents.
  \<^item> \<open>p_log\<close> records every buffer that a publication was attempted for, with its number of metrics
    and its success;
    \<open>p_published\<close> are the messages the server took, payload and content type.
  \<^item> \<open>log.Fatalf\<close> ends the process, and so does a panic in the goroutine: both are a \<open>Panic\<close>. What the
    goroutine does first belongs to the constructor.
\<close>

record PubSubArgs =
  pa_key :: bytes
  pa_matcher :: Matcher
  pa_project :: bytes
  pa_topic :: bytes
  pa_format :: bytes
  pa_codec :: bytes
  pa_bufSize :: int
  pa_flushMaxSize :: int
  pa_flushMaxWait :: int
  pa_blocking :: bool

record pubsub_env =
  client_ok :: bool
  topic_exists :: "bool option"

record PubSub = chan +
  p_key :: bytes
  p_Matcher :: Matcher
  p_project :: bytes
  p_topic :: bytes
  p_format :: bytes
  p_codec :: bytes
  p_blocking :: bool
  p_bufSize :: int
  p_flushMaxSize :: int
  p_flushMaxWait :: int
  p_msgbuf :: bytes
  p_cnt :: nat
  p_log :: "(bytes \<times> nat \<times> bool) list"
  p_published :: "(bytes \<times> bytes \<times> bytes) list"
  p_closed :: bool
  p_stopped :: bool
  p_running :: bool
  p_numOut :: nat
  p_numPubSubMessages :: nat
  p_numErrFlush :: nat
  p_numDropBuffFull :: nat
  p_numParseError :: nat
  p_numBuffered :: int

definition NewPubSub :: "pubsub_env \<Rightarrow> PubSubArgs \<Rightarrow> PubSub outcome" where
  "NewPubSub env a =
     (if pa_bufSize a < 0 then Panic IndexOutOfRange
      else if \<not> client_ok env then Panic (ExplicitPanic ''failed to create google pubsub client'')
      else case topic_exists env of
             None \<Rightarrow> Panic (ExplicitPanic ''failed to connect to pubsub topic'')
           | Some ex \<Rightarrow>
               if \<not> ex then Panic (ExplicitPanic ''topic does not exist'')
               else if millis (pa_flushMaxWait a) \<le> 0 then Panic NonPositiveTicker
               else if pa_flushMaxSize a < 0 then Panic (ExplicitPanic ''bytes.Buffer.Grow: negative count'')
               else Ok \<lparr>ch_in = [], ch_waiting = [], p_key = pa_key a, p_Matcher = pa_matcher a,
                      p_project = pa_project a, p_topic = pa_topic a, p_format = pa_format a, p_codec = pa_codec a,
                      p_blocking = pa_blocking a, p_bufSize = pa_bufSize a, p_flushMaxSize = pa_flushMaxSize a,
                      p_flushMaxWait = millis (pa_flushMaxWait a), p_msgbuf = [], p_cnt = 0, p_log = [],
                      p_published = [], p_closed = False, p_stopped = False, p_running = True, p_numOut = 0,
                      p_numPubSubMessages = 0, p_numErrFlush = 0, p_numDropBuffFull = 0, p_numParseError = 0,
                      p_numBuffered = 0\<rparr>)"

definition compressWrite :: "(bytes \<Rightarrow> bytes option) \<Rightarrow> bytes \<Rightarrow> bytes \<Rightarrow> bytes option" where
  "compressWrite gzip src codec = (if codec = ''gzip'' then gzip src else Some src)"

definition content_type :: "bytes \<Rightarrow> bytes" where
  "content_type format =
     (if format = ''plain'' then ''application/text''
      else if format = ''pickle'' then ''application/python-pickle''
      else [])"

definition publish :: "(bytes \<Rightarrow> bytes option) \<Rightarrow> bool \<Rightarrow> PubSub \<Rightarrow> PubSub" where
  "publish gzip ok p =
     (if p_cnt p = 0 then p
      else case compressWrite gzip (p_msgbuf p) (p_codec p) of
             None \<Rightarrow> p\<lparr>p_log := p_log p @ [(p_msgbuf p, p_cnt p, False)], p_numErrFlush := p_numErrFlush p + 1\<rparr>
           | Some payload \<Rightarrow>
               if p_stopped p \<or> \<not> ok
               then p\<lparr>p_log := p_log p @ [(p_msgbuf p, p_cnt p, False)], p_numErrFlush := p_numErrFlush p + 1\<rparr>
               else p\<lparr>p_log := p_log p @ [(p_msgbuf p, p_cnt p, True)],
                      p_published := p_published p @ [(payload, content_type (p_format p), p_codec p)],
                      p_numOut := p_numOut p + p_cnt p, p_numPubSubMessages := p_numPubSubMessages p + 1\<rparr>)"

definition pubsub_flush :: "(bytes \<Rightarrow> bytes option) \<Rightarrow> bool \<Rightarrow> PubSub \<Rightarrow> PubSub" where
  "pubsub_flush gzip ok p = (publish gzip ok p)\<lparr>p_msgbuf := [], p_cnt := 0\<rparr>"

definition pubsub_write :: "(Datapoint \<Rightarrow> bytes) \<Rightarrow> bytes \<Rightarrow> PubSub \<Rightarrow> PubSub" where
  "pubsub_write encode buf p =
     (if p_format p = ''plain'' then p\<lparr>p_msgbuf := p_msgbuf p @ buf @ [CHR 0x0A], p_cnt := p_cnt p + 1\<rparr>
      else if p_format p = ''pickle''
      then (case ParseDataPoint buf of
              Inl _ \<Rightarrow> p\<lparr>p_numParseError := p_numParseError p + 1\<rparr>
            | Inr dp \<Rightarrow> p\<lparr>p_msgbuf := p_msgbuf p @ pickle_dp encode dp, p_cnt := p_cnt p + 1\<rparr>)
      else p\<lparr>p_cnt := p_cnt p + 1\<rparr>)"

datatype pubsub_event = PLine bytes | PTurn bool | PTick bool | PClose | PStop

definition ps_Dispatch :: "bytes \<Rightarrow> PubSub \<Rightarrow> PubSub outcome" where
  "ps_Dispatch buf p =
     (if p_closed p then Panic SendOnClosedChannel
      else case dispatch (p_blocking p) (nat (p_bufSize p)) buf p of
             (p1, buffered, dropped) \<Rightarrow>
               Ok (p1\<lparr>p_numBuffered := p_numBuffered p1 + buffered, p_numDropBuffFull := p_numDropBuffFull p1 + dropped\<rparr>))"

text \<open>\<open>Shutdown\<close> closes the channel and then stops the topic; it waits for nothing in between.\<close>

definition ps_close :: "PubSub \<Rightarrow> PubSub outcome" where
  "ps_close p =
     (if p_closed p then Panic (ExplicitPanic ''close of closed channel'')
      else if ch_waiting p \<noteq> [] then Panic SendOnClosedChannel
      else Ok (p\<lparr>p_closed := True\<rparr>))"

definition pubsub_turn :: "(bytes \<Rightarrow> bytes option) \<Rightarrow> (Datapoint \<Rightarrow> bytes) \<Rightarrow> bool \<Rightarrow> PubSub \<Rightarrow> PubSub" where
  "pubsub_turn gzip encode ok p =
     (case take_msg p of
        None \<Rightarrow> if \<not> p_closed p then p else (pubsub_flush gzip ok p)\<lparr>p_running := False\<rparr>
      | Some (buf, p0) \<Rightarrow>
          let p1 = p0\<lparr>p_numBuffered := p_numBuffered p0 - 1\<rparr>;
              p2 = (if int (length (p_msgbuf p1) + length buf + 1) \<ge> p_flushMaxSize p1 then pubsub_flush gzip ok p1 else p1)
          in pubsub_write encode buf p2)"

definition pubsub_step ::
  "(bytes \<Rightarrow> bytes option) \<Rightarrow> (Datapoint \<Rightarrow> bytes) \<Rightarrow> pubsub_event \<Rightarrow> PubSub \<Rightarrow> PubSub outcome" where
  "pubsub_step gzip encode e p =
     (case e of
        PLine buf \<Rightarrow> ps_Dispatch buf p
      | PClose \<Rightarrow> ps_close p
      | PStop \<Rightarrow> Ok (p\<lparr>p_stopped := True\<rparr>)
      | PTurn ok \<Rightarrow> Ok (if p_running p then pubsub_turn gzip encode ok p else p)
      | PTick ok \<Rightarrow> Ok (if p_running p then pubsub_flush gzip ok p else p))"

subsection \<open>Nothing is lost before it is published\<close>

text \<open>What a line adds to the buffer.\<close>

definition written :: "(Datapoint \<Rightarrow> bytes) \<Rightarrow> bytes \<Rightarrow> bytes \<Rightarrow> bytes" where
  "written encode format buf =
     (if format = ''plain'' then buf @ [CHR 0x0A]
      else if format = ''pickle'' then (case ParseDataPoint buf of Inl _ \<Rightarrow> [] | Inr dp \<Rightarrow> pickle_dp encode dp)
      else [])"

definition pubsub_contents :: "(Datapoint \<Rightarrow> bytes) \<Rightarrow> PubSub \<Rightarrow> bytes" where
  "pubsub_contents encode p =
     concat (map fst (p_log p)) @ p_msgbuf p @ concat (map (written encode (p_format p)) (queue p))"

definition pubsub_new :: "(Datapoint \<Rightarrow> bytes) \<Rightarrow> pubsub_event \<Rightarrow> PubSub \<Rightarrow> bytes" where
  "pubsub_new encode e p =
     (case e of
        PLine buf \<Rightarrow> if accepts (p_blocking p) (nat (p_bufSize p)) p then written encode (p_format p) buf else []
      | _ \<Rightarrow> [])"

text \<open>The messages that the server took are the buffers whose publication succeeded, and the counters tell
  how many they are and how many metrics they hold.\<close>

definition taken :: "(bytes \<times> nat \<times> bool) list \<Rightarrow> (bytes \<times> nat \<times> bool) list" where
  "taken l = filter (\<lambda>(b, cnt, ok). ok) l"

definition pubsub_log_ok :: "(bytes \<Rightarrow> bytes option) \<Rightarrow> PubSub \<Rightarrow> bool" where
  "pubsub_log_ok gzip p \<longleftrightarrow>
     map (\<lambda>(payload, ct, codec). Some payload) (p_published p) =
       map (\<lambda>(b, _). compressWrite gzip b (p_codec p)) (taken (p_log p)) \<and>
     p_numOut p = sum_list (map (\<lambda>(b, cnt, _). cnt) (taken (p_log p))) \<and>
     p_numPubSubMessages p = length (taken (p_log p)) \<and>
     p_numErrFlush p + length (taken (p_log p)) = length (p_log p)"

text \<open>A buffer of text lines is a single line or shorter than \<open>flushMaxSize\<close>.\<close>

definition pubsub_small :: "PubSub \<Rightarrow> bool" where
  "pubsub_small p \<longleftrightarrow>
     (p_cnt p = 0 \<longrightarrow> p_msgbuf p = []) \<and>
     (p_format p = ''plain'' \<longrightarrow>
        (\<forall>(b, cnt, ok) \<in> set (p_log p). cnt = 1 \<or> int (length b) < p_flushMaxSize p) \<and>
        (p_cnt p \<le> 1 \<or> int (length (p_msgbuf p)) < p_flushMaxSize p))"

definition pubsub_inv :: "(bytes \<Rightarrow> bytes option) \<Rightarrow> PubSubArgs \<Rightarrow> PubSub \<Rightarrow> bool" where
  "pubsub_inv gzip a p \<longleftrightarrow> pubsub_log_ok gzip p \<and> pubsub_small p \<and> \<not> p_closed p \<and> p_running p \<and>
     p_format p = pa_format a \<and> p_flushMaxSize p = pa_flushMaxSize a"

definition pubsub_allowed :: "pubsub_event \<Rightarrow> bool" where
  "pubsub_allowed e \<longleftrightarrow> e \<noteq> PClose \<and> e \<noteq> PStop"

lemma queue_pubsub [simp]:
  "queue (p\<lparr>p_numBuffered := i\<rparr>) = queue p" "queue (p\<lparr>p_numDropBuffFull := n\<rparr>) = queue p"
  "queue (p\<lparr>p_cnt := n\<rparr>) = queue p" "queue (p\<lparr>p_msgbuf := b\<rparr>) = queue p"
  "queue (p\<lparr>p_numParseError := n\<rparr>) = queue p" "queue (p\<lparr>p_log := l\<rparr>) = queue p"
  "queue (p\<lparr>p_published := q\<rparr>) = queue p" "queue (p\<lparr>p_numErrFlush := n\<rparr>) = queue p"
  "queue (p\<lparr>p_numOut := n\<rparr>) = queue p" "queue (p\<lparr>p_numPubSubMessages := n\<rparr>) = queue p"
  by (simp_all add: queue_def)

lemma taken_append [simp]: "taken (xs @ ys) = taken xs @ taken ys"
  "taken [(b, n, ok)] = (if ok then [(b, n, ok)] else [])"
  by (simp_all add: taken_def)

lemma pubsub_flush_ok:
  assumes "pubsub_log_ok gzip p" "pubsub_small p"
  shows "pubsub_log_ok gzip (pubsub_flush gzip ok p)" "pubsub_small (pubsub_flush gzip ok p)"
    "pubsub_contents encode (pubsub_flush gzip ok p) = pubsub_contents encode p"
    "queue (pubsub_flush gzip ok p) = queue p" "p_format (pubsub_flush gzip ok p) = p_format p"
    "p_closed (pubsub_flush gzip ok p) = p_closed p" "p_running (pubsub_flush gzip ok p) = p_running p"
    "p_msgbuf (pubsub_flush gzip ok p) = []" "p_cnt (pubsub_flush gzip ok p) = 0"
    "p_flushMaxSize (pubsub_flush gzip ok p) = p_flushMaxSize p" 
  using assms
  by (auto simp: pubsub_flush_def publish_def pubsub_log_ok_def pubsub_small_def pubsub_contents_def
      split: option.splits)

lemma pubsub_write_ok:
  assumes "pubsub_log_ok gzip p" "pubsub_small p"
    "p_cnt p = 0 \<or> int (length (p_msgbuf p) + length buf + 1) < p_flushMaxSize p"
  shows "pubsub_log_ok gzip (pubsub_write encode buf p) \<and> pubsub_small (pubsub_write encode buf p) \<and>
    p_closed (pubsub_write encode buf p) = p_closed p \<and> p_running (pubsub_write encode buf p) = p_running p \<and>
    queue (pubsub_write encode buf p) = queue p \<and>
    concat (map fst (p_log (pubsub_write encode buf p))) @ p_msgbuf (pubsub_write encode buf p) =
      concat (map fst (p_log p)) @ p_msgbuf p @ written encode (p_format p) buf \<and>
    p_format (pubsub_write encode buf p) = p_format p \<and> p_flushMaxSize (pubsub_write encode buf p) = p_flushMaxSize p"
  using assms
  by (auto simp: pubsub_write_def pubsub_log_ok_def pubsub_small_def written_def split: sum.splits)

lemma pubsub_turn_ok:
  assumes "pubsub_log_ok gzip p" "pubsub_small p" "take_msg p = Some (buf, p0)"
  shows "pubsub_log_ok gzip (pubsub_turn gzip encode ok p) \<and> pubsub_small (pubsub_turn gzip encode ok p) \<and>
    pubsub_contents encode (pubsub_turn gzip encode ok p) = pubsub_contents encode p \<and>
    p_closed (pubsub_turn gzip encode ok p) = p_closed p \<and> p_running (pubsub_turn gzip encode ok p) = p_running p \<and>
    p_format (pubsub_turn gzip encode ok p) = p_format p \<and> p_flushMaxSize (pubsub_turn gzip encode ok p) = p_flushMaxSize p"
proof -
  obtain q w where p0: "p0 = p\<lparr>ch_in := q, ch_waiting := w\<rparr>" "queue p = buf # q @ w"
    using take_msg_other [OF assms(3)] by blast
  let ?p1 = "p0\<lparr>p_numBuffered := p_numBuffered p0 - 1\<rparr>"
  let ?p2 = "if int (length (p_msgbuf ?p1) + length buf + 1) \<ge> p_flushMaxSize ?p1 then pubsub_flush gzip ok ?p1 else ?p1"
  have turn: "pubsub_turn gzip encode ok p = pubsub_write encode buf ?p2"
    using assms(3) by (simp add: pubsub_turn_def Let_def)
  have q1: "queue ?p1 = q @ w" using p0(1) by (simp add: queue_def)
  have "pubsub_log_ok gzip ?p1" "pubsub_small ?p1"
    using assms(1,2) p0(1) by (simp_all add: pubsub_log_ok_def pubsub_small_def)
  note f = pubsub_flush_ok [OF this] this
  have c2: "pubsub_contents encode ?p2 = pubsub_contents encode ?p1" "queue ?p2 = q @ w" "p_format ?p2 = p_format p"
    "p_closed ?p2 = p_closed p" "p_running ?p2 = p_running p" "p_flushMaxSize ?p2 = p_flushMaxSize p"
    using f q1 p0(1) by auto
  have "pubsub_log_ok gzip ?p2" "pubsub_small ?p2"
    "p_cnt ?p2 = 0 \<or> int (length (p_msgbuf ?p2) + length buf + 1) < p_flushMaxSize ?p2"
    using f by auto
  note w = pubsub_write_ok [OF this, of encode]
  have "pubsub_contents encode (pubsub_write encode buf ?p2) = pubsub_contents encode p"
    using w c2 p0 q1 by (simp add: pubsub_contents_def)
  then show ?thesis unfolding turn using w c2 by simp
qed

interpretation pubsub: lossless "pubsub_step gzip encode" "pubsub_inv gzip a" pubsub_allowed
    "pubsub_contents encode" "pubsub_new encode" for gzip encode a
proof
  fix p e
  assume inv: "pubsub_inv gzip a p" and e: "pubsub_allowed e"
  show "\<exists>p'. pubsub_step gzip encode e p = Ok p' \<and> pubsub_inv gzip a p' \<and>
    pubsub_contents encode p' = pubsub_contents encode p @ pubsub_new encode e p"
  proof (cases e)
    case (PLine buf)
    obtain p1 b d where d: "dispatch (p_blocking p) (nat (p_bufSize p)) buf p = (p1, b, d)"
      by (cases "dispatch (p_blocking p) (nat (p_bufSize p)) buf p")
    note D = dispatch_accepts [OF d]
    from same_more [OF D(1)] obtain q w where p1: "p1 = p\<lparr>ch_in := q, ch_waiting := w\<rparr>" by blast
    then show ?thesis
      using inv D(2) d PLine
      by (auto simp: pubsub_step_def ps_Dispatch_def pubsub_inv_def pubsub_log_ok_def pubsub_small_def
          pubsub_contents_def pubsub_new_def)
  next
    case (PTurn ok)
    show ?thesis
    proof (cases "take_msg p")
      case None
      then show ?thesis using inv PTurn by (simp add: pubsub_step_def pubsub_turn_def pubsub_inv_def pubsub_new_def)
    next
      case (Some x)
      then show ?thesis
        using inv PTurn pubsub_turn_ok [of gzip p "fst x" "snd x" encode ok]
        by (simp add: pubsub_step_def pubsub_inv_def pubsub_new_def)
    qed
  next
    case (PTick ok)
    then show ?thesis
      using inv pubsub_flush_ok [of gzip p] by (simp add: pubsub_step_def pubsub_inv_def pubsub_new_def)
  next
  qed (use e in \<open>simp_all add: pubsub_allowed_def\<close>)
qed

subsection \<open>Properties\<close>

text \<open>C27: For any interleaving of lines, turns, ticks and failing publications, the buffers handed to the server,
  the buffer being filled and the lines in the channel are, in order, the encodings of the lines
  the channel took in; the messages the server took and the counters agree with the log; a message
  of text lines is a single line or shorter than \<open>flushMaxSize\<close>.\<close>

theorem pubsub_publishes_in_order:
  assumes "NewPubSub env a = Ok p0" and "\<forall>e \<in> set es. pubsub_allowed e"
  shows "\<exists>p. run_events (pubsub_step gzip encode) es p0 = Ok p \<and>
    concat (map fst (p_log p)) @ p_msgbuf p @ concat (map (written encode (pa_format a)) (queue p)) =
      taken_in (pubsub_step gzip encode) (pubsub_new encode) es p0 \<and>
    pubsub_log_ok gzip p \<and>
    (pa_format a = ''plain'' \<longrightarrow> (\<forall>(b, cnt, ok) \<in> set (p_log p). cnt = 1 \<or> int (length b) < pa_flushMaxSize a))"
proof -
  have "pubsub_inv gzip a p0" "pubsub_contents encode p0 = []"
    using assms(1)
    by (auto simp: NewPubSub_def pubsub_inv_def pubsub_log_ok_def pubsub_small_def pubsub_contents_def queue_def
        taken_def split: if_splits option.splits)
  then obtain p where "run_events (pubsub_step gzip encode) es p0 = Ok p" "pubsub_inv gzip a p"
    "pubsub_contents encode p = taken_in (pubsub_step gzip encode) (pubsub_new encode) es p0"
    using pubsub.run_keeps [of gzip a p0 es encode] assms(2) by auto
  then show ?thesis by (auto simp: pubsub_inv_def pubsub_contents_def pubsub_small_def)
qed

definition example_pubsub_args :: PubSubArgs where
  "example_pubsub_args = \<lparr>pa_key = ''k'', pa_matcher = fst (matcher_New [] [] [] [] [] []), pa_project = ''p'', pa_topic = ''t'',
     pa_format = ''plain'', pa_codec = ''none'', pa_bufSize = 4, pa_flushMaxSize = 100, pa_flushMaxWait = 1000,
     pa_blocking = False\<rparr>"

lemma example_pubsub: "\<exists>p0. NewPubSub \<lparr>client_ok = True, topic_exists = Some True\<rparr> example_pubsub_args = Ok p0"
proof -
  have "case NewPubSub \<lparr>client_ok = True, topic_exists = Some True\<rparr> example_pubsub_args of Ok _ \<Rightarrow> True | _ \<Rightarrow> False"
    by code_simp
  then show ?thesis by (auto split: outcome.splits)
qed

theorem pubsub_publishes_in_order_witness:
  "\<exists>p0 p. NewPubSub \<lparr>client_ok = True, topic_exists = Some True\<rparr> example_pubsub_args = Ok p0 \<and>
    run_events (pubsub_step Some (\<lambda>_. [])) [PLine ''a 1 1'', PTurn True, PTick True] p0 = Ok p \<and>
    pubsub_log_ok Some p"
proof -
  obtain p0 where p0: "NewPubSub \<lparr>client_ok = True, topic_exists = Some True\<rparr> example_pubsub_args = Ok p0"
    using example_pubsub by blast
  have "\<forall>e \<in> set [PLine ''a 1 1'', PTurn True, PTick True]. pubsub_allowed e"
    by (simp add: pubsub_allowed_def)
  from pubsub_publishes_in_order [OF p0 this, of Some "\<lambda>_. []"] p0 show ?thesis by blast
qed

text \<open>\<open>Shutdown\<close> does not wait for the goroutine: when the topic is stopped before the last flush, the
  buffered metrics are lost; when it is stopped after it, they are published.\<close>

theorem pubsub_shutdown_races:
  assumes "pubsub_inv gzip a p" and "queue p = []" and "0 < p_cnt p" and "\<not> p_stopped p"
    and "compressWrite gzip (p_msgbuf p) (p_codec p) = Some payload"
  shows "\<exists>lost sent.
    run_events (pubsub_step gzip encode) [PClose, PStop, PTurn True] p = Ok lost \<and> \<not> p_running lost \<and>
    p_published lost = p_published p \<and> p_numErrFlush lost = p_numErrFlush p + 1 \<and>
    run_events (pubsub_step gzip encode) [PClose, PTurn True, PStop] p = Ok sent \<and> \<not> p_running sent \<and>
    p_published sent = p_published p @ [(payload, content_type (p_format p), p_codec p)]"
proof -
  have "ch_in p = []" "ch_waiting p = []" using assms(2) by (simp_all add: queue_def)
  then show ?thesis
    using assms
    by (simp add: pubsub_step_def ps_close_def pubsub_turn_def take_msg_def pubsub_flush_def publish_def pubsub_inv_def)
qed

theorem pubsub_shutdown_races_witness:
  "\<exists>p lost. pubsub_inv Some example_pubsub_args p \<and>
    run_events (pubsub_step Some (\<lambda>_. [])) [PClose, PStop, PTurn True] p = Ok lost \<and> p_published lost = []"
proof -
  obtain p0 where p0: "NewPubSub \<lparr>client_ok = True, topic_exists = Some True\<rparr> example_pubsub_args = Ok p0"
    using example_pubsub by blast
  let ?p = "p0\<lparr>p_msgbuf := ''a 1 1'' @ [CHR 0x0A], p_cnt := 1\<rparr>"
  have new: "pubsub_inv Some example_pubsub_args p0" "queue p0 = []" "\<not> p_stopped p0" "p_codec p0 = ''none''" "p_published p0 = []"
    using p0
    by (auto simp: NewPubSub_def pubsub_inv_def pubsub_log_ok_def pubsub_small_def queue_def taken_def
        example_pubsub_args_def split: if_splits)
  then have "pubsub_inv Some example_pubsub_args ?p" "queue ?p = []" "0 < p_cnt ?p" "\<not> p_stopped ?p"
    "compressWrite Some (p_msgbuf ?p) (p_codec ?p) = Some (p_msgbuf ?p)"
    by (auto simp: pubsub_inv_def pubsub_log_ok_def pubsub_small_def compressWrite_def)
  note inv = this
  have "p_published ?p = []" using new(5) by simp
  with pubsub_shutdown_races [OF inv, of "\<lambda>_. []"] inv(1) show ?thesis by metis
qed

end
