(* ===== verification/Route_CloudWatch.thy ===== *)
theory Route_CloudWatch
  imports Go_Strconv Go_Strings Relay_Matcher Route_Dispatch
begin

text \<open>
  \<^verbatim>\<open>route/cloudwatch.go\<close>: the route that publishes data points to AWS CloudWatch. Its goroutine turns each
  line into a datum and publishes the collected data when there are enough of them and at every tick.

  \<^item> Whether the SDK configuration can be loaded is an argument of the constructor, and the answer to a
    publication an argument of the event. What the goroutine does first belongs to the constructor.
  \<^item> \<open>w_log\<close> records the data of every publication attempted, with the count it was given and its
    success. \<open>flush\<close> forgets the data also when \<open>publish\<close> returns at once because the count is
    zero; such data is \<open>w_forgotten\<close>.
\<close>

record Datum =
  MetricName :: bytes
  Timestamp :: int
  Value :: real
  StorageResolution :: int
  Dimensions :: "(bytes \<times> bytes) list"

record CloudWatchArgs =
  wa_key :: bytes
  wa_matcher :: Matcher
  wa_namespace :: bytes
  wa_dimensions :: "bytes list list"
  wa_bufSize :: int
  wa_flushMaxSize :: int
  wa_flushMaxWait :: int
  wa_storageResolution :: int
  wa_blocking :: bool

record CloudWatch = chan +
  w_key :: bytes
  w_Matcher :: Matcher
  w_namespace :: bytes
  w_dimensions :: "(bytes \<times> bytes) list"
  w_storageResolution :: int
  w_blocking :: bool
  w_bufSize :: int
  w_flushMaxSize :: int
  w_flushMaxWait :: int
  MetricDatas :: "Datum list"
  w_cnt :: nat
  w_log :: "(Datum list \<times> nat \<times> bool) list"
  w_forgotten :: "Datum list"
  w_closed :: bool
  w_running :: bool
  w_numOut :: nat
  w_numCloudWatchMessages :: nat
  w_numErrFlush :: nat
  w_numDropBuffFull :: nat
  w_numBuffered :: int

definition aws_dimensions :: "bytes list list \<Rightarrow> (bytes \<times> bytes) list" where
  "aws_dimensions dims = List.map_filter (\<lambda>dim. if length dim < 2 then None else Some (dim ! 0, dim ! 1)) dims"

definition NewCloudWatch :: "bool \<Rightarrow> CloudWatchArgs \<Rightarrow> (bytes + CloudWatch) outcome" where
  "NewCloudWatch config_ok a =
     (if wa_bufSize a < 0 then Panic IndexOutOfRange
      else if \<not> config_ok then Ok (Inl ''config'')
      else if millis (wa_flushMaxWait a) \<le> 0 then Panic NonPositiveTicker
      else Ok (Inr \<lparr>ch_in = [], ch_waiting = [], w_key = wa_key a, w_Matcher = wa_matcher a,
             w_namespace = wa_namespace a, w_dimensions = aws_dimensions (wa_dimensions a),
             w_storageResolution = sint (word_of_int (wa_storageResolution a) :: 32 word),
             w_blocking = wa_blocking a, w_bufSize = wa_bufSize a, w_flushMaxSize = wa_flushMaxSize a,
             w_flushMaxWait = millis (wa_flushMaxWait a), MetricDatas = [], w_cnt = 0, w_log = [], w_forgotten = [],
             w_closed = False, w_running = True, w_numOut = 0, w_numCloudWatchMessages = 0, w_numErrFlush = 0,
             w_numDropBuffFull = 0, w_numBuffered = 0\<rparr>))"

definition cw_publish :: "bool \<Rightarrow> CloudWatch \<Rightarrow> CloudWatch" where
  "cw_publish ok w =
     (if w_cnt w = 0 then w\<lparr>w_forgotten := w_forgotten w @ MetricDatas w\<rparr>
      else if \<not> ok
      then w\<lparr>w_log := w_log w @ [(MetricDatas w, w_cnt w, False)], w_numErrFlush := w_numErrFlush w + 1\<rparr>
      else w\<lparr>w_log := w_log w @ [(MetricDatas w, w_cnt w, True)], w_numOut := w_numOut w + w_cnt w,
             w_numCloudWatchMessages := w_numCloudWatchMessages w + 1\<rparr>)"

definition cw_flush :: "bool \<Rightarrow> CloudWatch \<Rightarrow> CloudWatch" where
  "cw_flush ok w = (cw_publish ok w)\<lparr>MetricDatas := [], w_cnt := 0\<rparr>"

definition cw_parse :: "(bytes \<times> bytes) list \<Rightarrow> int \<Rightarrow> bytes \<Rightarrow> Datum option" where
  "cw_parse dims resolution buf =
     (let elements = Go_Strings.fields (trim_space buf)
      in if length elements \<noteq> 3 then None
         else case parse_float (elements ! 1) of
                Inl _ \<Rightarrow> None
              | Inr val \<Rightarrow>
                  (case parse_int (elements ! 2) 32 of
                     Inl _ \<Rightarrow> None
                   | Inr timestamp \<Rightarrow>
                       Some \<lparr>MetricName = elements ! 0, Timestamp = timestamp, Value = val,
                             StorageResolution = resolution, Dimensions = dims\<rparr>))"

text \<open>The flush of a full batch comes before the count of the datum that filled it.\<close>

definition cw_turn :: "bool \<Rightarrow> CloudWatch \<Rightarrow> CloudWatch" where
  "cw_turn ok w =
     (case take_msg w of
        None \<Rightarrow> if \<not> w_closed w then w else (cw_flush ok w)\<lparr>w_running := False\<rparr>
      | Some (buf, w0) \<Rightarrow>
          let w1 = w0\<lparr>w_numBuffered := w_numBuffered w0 - 1\<rparr>
          in case cw_parse (w_dimensions w1) (w_storageResolution w1) buf of
               None \<Rightarrow> w1
             | Some datum \<Rightarrow>
                 let w2 = w1\<lparr>MetricDatas := MetricDatas w1 @ [datum]\<rparr>;
                     w3 = (if int (length (MetricDatas w2)) \<ge> w_flushMaxSize w2 then cw_flush ok w2 else w2)
                 in w3\<lparr>w_cnt := w_cnt w3 + 1\<rparr>)"

datatype cw_event = WLine bytes | WTurn bool | WTick bool | WClose

definition cw_Dispatch :: "bytes \<Rightarrow> CloudWatch \<Rightarrow> CloudWatch outcome" where
  "cw_Dispatch buf w =
     (if w_closed w then Panic SendOnClosedChannel
      else case dispatch (w_blocking w) (nat (w_bufSize w)) buf w of
             (w1, buffered, dropped) \<Rightarrow>
               Ok (w1\<lparr>w_numBuffered := w_numBuffered w1 + buffered, w_numDropBuffFull := w_numDropBuffFull w1 + dropped\<rparr>))"

definition cw_Shutdown :: "CloudWatch \<Rightarrow> CloudWatch outcome" where
  "cw_Shutdown w =
     (if w_closed w then Panic (ExplicitPanic ''close of closed channel'')
      else if ch_waiting w \<noteq> [] then Panic SendOnClosedChannel
      else Ok (w\<lparr>w_closed := True\<rparr>))"

definition cw_step :: "cw_event \<Rightarrow> CloudWatch \<Rightarrow> CloudWatch outcome" where
  "cw_step e w =
     (case e of
        WLine buf \<Rightarrow> cw_Dispatch buf w
      | WClose \<Rightarrow> cw_Shutdown w
      | WTurn ok \<Rightarrow> Ok (if w_running w then cw_turn ok w else w)
      | WTick ok \<Rightarrow> Ok (if w_running w \<and> 0 < length (MetricDatas w) then cw_flush ok w else w))"

subsection \<open>Nothing is lost in batches of at least two\<close>

definition cw_data :: "(bytes \<times> bytes) list \<Rightarrow> int \<Rightarrow> bytes list \<Rightarrow> Datum list" where
  "cw_data dims res bufs = List.map_filter (cw_parse dims res) bufs"

definition cw_contents :: "CloudWatch \<Rightarrow> Datum list" where
  "cw_contents w =
     concat (map fst (w_log w)) @ MetricDatas w @ cw_data (w_dimensions w) (w_storageResolution w) (queue w)"

definition cw_new :: "cw_event \<Rightarrow> CloudWatch \<Rightarrow> Datum list" where
  "cw_new e w =
     (case e of
        WLine buf \<Rightarrow> if accepts (w_blocking w) (nat (w_bufSize w)) w
                     then cw_data (w_dimensions w) (w_storageResolution w) [buf] else []
      | _ \<Rightarrow> [])"

definition cw_inv :: "CloudWatchArgs \<Rightarrow> CloudWatch \<Rightarrow> bool" where
  "cw_inv a w \<longleftrightarrow> w_flushMaxSize w = wa_flushMaxSize a \<and> 2 \<le> w_flushMaxSize w \<and>
     w_dimensions w = aws_dimensions (wa_dimensions a) \<and>
     w_storageResolution w = sint (word_of_int (wa_storageResolution a) :: 32 word) \<and>
     length (MetricDatas w) \<le> w_cnt w \<and> int (length (MetricDatas w)) < w_flushMaxSize w \<and>
     (\<forall>(b, cnt, ok) \<in> set (w_log w). b \<noteq> [] \<and> int (length b) \<le> wa_flushMaxSize a) \<and>
     w_forgotten w = [] \<and> \<not> w_closed w \<and> w_running w"

lemma cw_data_simps [simp]:
  "cw_data dims res [] = []"
  "cw_data dims res (buf # bufs) = (case cw_parse dims res buf of None \<Rightarrow> [] | Some d \<Rightarrow> [d]) @ cw_data dims res bufs"
  "cw_data dims res (bufs @ bufs') = cw_data dims res bufs @ cw_data dims res bufs'"
  by (simp_all add: cw_data_def List.map_filter_def split: option.splits)

lemma queue_cw [simp]:
  "queue (w\<lparr>w_numBuffered := i\<rparr>) = queue w" "queue (w\<lparr>w_numDropBuffFull := n\<rparr>) = queue w"
  "queue (w\<lparr>w_cnt := n\<rparr>) = queue w" "queue (w\<lparr>MetricDatas := ds\<rparr>) = queue w"
  "queue (w\<lparr>w_log := l\<rparr>) = queue w" "queue (w\<lparr>w_numErrFlush := n\<rparr>) = queue w"
  "queue (w\<lparr>w_numOut := n\<rparr>) = queue w" "queue (w\<lparr>w_numCloudWatchMessages := n\<rparr>) = queue w"
  by (simp_all add: queue_def)

lemma cw_turn_ok:
  assumes "cw_inv a w"
  shows "cw_inv a (cw_turn ok w) \<and> cw_contents (cw_turn ok w) = cw_contents w"
proof (cases "take_msg w")
  case None
  then show ?thesis using assms by (simp add: cw_turn_def cw_inv_def)
next
  case (Some x)
  then obtain buf w0 where t: "take_msg w = Some (buf, w0)" by (cases x) auto
  obtain q v where w0: "w0 = w\<lparr>ch_in := q, ch_waiting := v\<rparr>" "queue w = buf # q @ v"
    using take_msg_other [OF t] by blast
  have q: "queue (w\<lparr>ch_in := q, ch_waiting := v\<rparr>) = q @ v" by (simp add: queue_def)
  show ?thesis
  proof (cases "cw_parse (w_dimensions w) (w_storageResolution w) buf")
    case None
    then show ?thesis using assms t w0 q by (simp add: cw_turn_def cw_inv_def cw_contents_def)
  next
    case (Some datum)
    then show ?thesis
      using assms t w0 q
      by (auto simp: cw_turn_def cw_inv_def cw_contents_def cw_flush_def cw_publish_def Let_def)
  qed
qed

interpretation cloudwatch: lossless cw_step "cw_inv a" "\<lambda>e. e \<noteq> WClose" cw_contents cw_new for a
proof
  fix w e
  assume inv: "cw_inv a w" and e: "e \<noteq> WClose"
  show "\<exists>w'. cw_step e w = Ok w' \<and> cw_inv a w' \<and> cw_contents w' = cw_contents w @ cw_new e w"
  proof (cases e)
    case (WLine buf)
    obtain w1 b d where d: "dispatch (w_blocking w) (nat (w_bufSize w)) buf w = (w1, b, d)"
      by (cases "dispatch (w_blocking w) (nat (w_bufSize w)) buf w")
    note D = dispatch_accepts [OF d]
    from same_more [OF D(1)] obtain q v where "w1 = w\<lparr>ch_in := q, ch_waiting := v\<rparr>" by blast
    then show ?thesis
      using inv D(2) d WLine by (auto simp: cw_step_def cw_Dispatch_def cw_inv_def cw_contents_def cw_new_def)
  next
    case (WTurn ok)
    moreover have "w_running w" using inv by (simp add: cw_inv_def)
    ultimately show ?thesis using cw_turn_ok [OF inv, of ok] by (simp add: cw_step_def cw_new_def)
  next
    case (WTick ok)
    then show ?thesis
      using inv by (auto simp: cw_step_def cw_inv_def cw_new_def cw_contents_def cw_flush_def cw_publish_def)
  qed (use e in simp)
qed

subsection \<open>Properties\<close>

text \<open>C28: With a \<open>flushMaxSize\<close> of at least two, every datum of the lines that the channel took in is, in order, in
  a publication that was attempted, in the batch or still in the channel; no batch is empty or
  larger than \<open>flushMaxSize\<close>.\<close>

theorem cloudwatch_publishes_in_order:
  assumes "NewCloudWatch True a = Ok (Inr w0)" and "2 \<le> wa_flushMaxSize a" and "WClose \<notin> set es"
  shows "\<exists>w. run_events cw_step es w0 = Ok w \<and>
    concat (map fst (w_log w)) @ MetricDatas w @ cw_data (w_dimensions w) (w_storageResolution w) (queue w) =
      taken_in cw_step cw_new es w0 \<and>
    (\<forall>(b, cnt, ok) \<in> set (w_log w). b \<noteq> [] \<and> int (length b) \<le> wa_flushMaxSize a)"
proof -
  have "cw_inv a w0" "cw_contents w0 = []"
    using assms(1,2) by (auto simp: NewCloudWatch_def cw_inv_def cw_contents_def queue_def split: if_splits)
  then obtain w where "run_events cw_step es w0 = Ok w" "cw_inv a w" "cw_contents w = taken_in cw_step cw_new es w0"
    using cloudwatch.run_keeps [of a w0 es] assms(3) by auto
  then show ?thesis by (auto simp: cw_inv_def cw_contents_def)
qed

definition example_cw_args :: "int \<Rightarrow> CloudWatchArgs" where
  "example_cw_args n = \<lparr>wa_key = ''k'', wa_matcher = fst (matcher_New [] [] [] [] [] []), wa_namespace = ''n'',
     wa_dimensions = [[''host'', ''a''], [''odd'']], wa_bufSize = 4, wa_flushMaxSize = n, wa_flushMaxWait = 1000,
     wa_storageResolution = 1, wa_blocking = False\<rparr>"

theorem cloudwatch_publishes_in_order_witness:
  "\<exists>w0 w. NewCloudWatch True (example_cw_args 2) = Ok (Inr w0) \<and>
    run_events cw_step [WLine ''a 1 1'', WTurn True, WTick True] w0 = Ok w \<and> (\<forall>(b, cnt, ok) \<in> set (w_log w). int (length b) \<le> 2)"
proof -
  have "millis 1000 > 0" by (code_simp)
  then obtain w0 where w0: "NewCloudWatch True (example_cw_args 2) = Ok (Inr w0)"
    by (simp add: NewCloudWatch_def example_cw_args_def)
  have n: "wa_flushMaxSize (example_cw_args 2) = 2" by (simp add: example_cw_args_def)
  have "2 \<le> wa_flushMaxSize (example_cw_args 2)" "WClose \<notin> set [WLine ''a 1 1'', WTurn True, WTick True]"
    unfolding n by simp_all
  from cloudwatch_publishes_in_order [OF w0 this] w0 show ?thesis unfolding n by fast
qed

text \<open>With a \<open>flushMaxSize\<close> of one the first datum is never published: it is flushed before it is counted, so
  that \<open>publish\<close> finds nothing to do and the datum is forgotten.\<close>

theorem cloudwatch_forgets_first_datum:
  assumes "NewCloudWatch True a = Ok (Inr w0)" and "wa_flushMaxSize a = 1" and "0 < wa_bufSize a"
    and "cw_parse (w_dimensions w0) (w_storageResolution w0) buf = Some datum"
  shows "\<exists>w. run_events cw_step [WLine buf, WTurn True] w0 = Ok w \<and> w_log w = [] \<and> MetricDatas w = [] \<and>
    queue w = [] \<and> w_forgotten w = [datum] \<and> w_cnt w = 1"
proof -
  have "ch_in w0 = []" "ch_waiting w0 = []" "\<not> w_closed w0" "w_running w0" "w_flushMaxSize w0 = 1" "w_cnt w0 = 0"
    "w_bufSize w0 > 0" "w_log w0 = []" "MetricDatas w0 = []" "w_forgotten w0 = []"
    using assms(1-3) by (auto simp: NewCloudWatch_def split: if_splits)
  then show ?thesis
    using assms(4)
    by (simp add: cw_step_def cw_Dispatch_def dispatch_def dispatchBlocking_def dispatchNonBlocking_def
        cw_turn_def take_msg_def Let_def cw_flush_def cw_publish_def queue_def)
qed

theorem cloudwatch_forgets_first_datum_witness:
  "\<exists>w0 w. NewCloudWatch True (example_cw_args 1) = Ok (Inr w0) \<and>
    run_events cw_step [WLine ''a 1 1'', WTurn True] w0 = Ok w \<and> w_log w = [] \<and> w_forgotten w \<noteq> []"
proof -
  have "millis 1000 > 0" by (code_simp)
  then obtain w0 where w0: "NewCloudWatch True (example_cw_args 1) = Ok (Inr w0)"
    by (simp add: NewCloudWatch_def example_cw_args_def)
  have "cw_parse dims res ''a 1 1'' \<noteq> None" for dims res
  proof -
    have "Go_Strings.fields (trim_space ''a 1 1'') = [''a'', ''1'', ''1'']" by code_simp
    moreover have "case parse_float ''1'' of Inr _ \<Rightarrow> True | _ \<Rightarrow> False" by code_simp
    moreover have "parse_int ''1'' 32 = Inr 1" by code_simp
    ultimately show ?thesis by (auto simp: cw_parse_def split: sum.splits)
  qed
  then obtain datum where "cw_parse (w_dimensions w0) (w_storageResolution w0) ''a 1 1'' = Some datum" by blast
  from cloudwatch_forgets_first_datum [OF w0 _ _ this] w0 show ?thesis
    by (auto simp: example_cw_args_def simp del: run_events.simps)
qed

end
