(* ===== verification/Table_Routes.thy ===== *)
theory Table_Routes
  imports Table_Correct Route_GrafanaNet Route_Kafka Route_PubSub Route_CloudWatch
begin

text \<open>
  The table with routes of every kind. The interface \<open>Route\<close> of \<^verbatim>\<open>route/route.go\<close> is implemented by the carbon
  routes, and by the GrafanaNet, kafkaMdm, pubsub and CloudWatch routes, which inherit the
  operations on destinations from \<open>baseRoute\<close> with no destinations. \<open>relay_methods\<close> is that
  implementation; \<open>relay\<close> interprets the contract \<open>route_interface\<close> on it, which gives the main
  properties of the table for every configuration.
\<close>

datatype relay_route = Carbon carbon | Grafana GrafanaNet | Kafka KafkaMdm | Pubsub PubSub | Cloudwatch CloudWatch

subsection \<open>What the other routes inherit from the base route\<close>

definition base_Update :: "(bytes \<times> bytes) list \<Rightarrow> Matcher \<Rightarrow> Matcher \<times> dest_error option" where
  "base_Update opts m =
     (case scan_route_opts opts (m, False) of
        Inl err \<Rightarrow> (m, Some err)
      | Inr (m', updateM) \<Rightarrow>
          if updateM
          then (case rebuild_matcher m' of
                  (_, Some err) \<Rightarrow> (m, Some (BadMatcher err))
                | (m'', None) \<Rightarrow> (m'', None))
          else (m, None))"

definition no_destination :: "int \<Rightarrow> 'r \<Rightarrow> ('r \<times> dest_error option) option outcome" where
  "no_destination index r =
     (if index \<ge> 0 then Ok (Some (r, Some (InvalidIndex index))) else Panic IndexOutOfRange)"

subsection \<open>The interface\<close>

fun relay_Key :: "relay_route \<Rightarrow> bytes" where
  "relay_Key (Carbon c) = rt_key (fst c)"
| "relay_Key (Grafana g) = gn_key g"
| "relay_Key (Kafka k) = k_key k"
| "relay_Key (Pubsub p) = p_key p"
| "relay_Key (Cloudwatch w) = w_key w"

fun relay_Match :: "bytes \<Rightarrow> relay_route \<Rightarrow> bool" where
  "relay_Match s (Carbon c) = rt_Match s (fst c)"
| "relay_Match s (Grafana g) = Match (gn_Matcher g) s"
| "relay_Match s (Kafka k) = Match (k_Matcher k) s"
| "relay_Match s (Pubsub p) = Match (p_Matcher p) s"
| "relay_Match s (Cloudwatch w) = Match (w_Matcher w) s"

primrec map_outcome :: "('a \<Rightarrow> 'b) \<Rightarrow> 'a outcome \<Rightarrow> 'b outcome" where
  "map_outcome f (Panic p) = Panic p"
| "map_outcome f (Ok x) = Ok (f x)"

fun relay_Dispatch :: "bytes \<Rightarrow> relay_route \<Rightarrow> relay_route outcome" where
  "relay_Dispatch buf (Carbon c) = map_outcome Carbon (carbon_Dispatch buf c)"
| "relay_Dispatch buf (Grafana g) = map_outcome Grafana (gn_Dispatch buf g)"
| "relay_Dispatch buf (Kafka k) = map_outcome Kafka (km_Dispatch buf k)"
| "relay_Dispatch buf (Pubsub p) = map_outcome Pubsub (ps_Dispatch buf p)"
| "relay_Dispatch buf (Cloudwatch w) = map_outcome Cloudwatch (cw_Dispatch buf w)"

text \<open>The pubsub route closes its channel and stops its topic.\<close>

fun relay_Shutdown :: "relay_route \<Rightarrow> (relay_route \<times> dest_error list) option outcome" where
  "relay_Shutdown (Carbon c) = Ok (Some (Carbon c, rt_Shutdown (fst c)))"
| "relay_Shutdown (Grafana g) = (if shutdown_returns g then Ok (Some (Grafana g, [])) else Ok None)"
| "relay_Shutdown (Kafka k) = map_outcome (\<lambda>k'. Some (Kafka k', [])) (km_Shutdown k)"
| "relay_Shutdown (Pubsub p) = map_outcome (\<lambda>p'. Some (Pubsub (p'\<lparr>p_stopped := True\<rparr>), [])) (ps_close p)"
| "relay_Shutdown (Cloudwatch w) = map_outcome (\<lambda>w'. Some (Cloudwatch w', [])) (cw_Shutdown w)"

fun relay_Update :: "(bytes \<times> bytes) list \<Rightarrow> relay_route \<Rightarrow> (relay_route \<times> dest_error option) option" where
  "relay_Update opts (Carbon c) = map_option (\<lambda>(r, e). (Carbon (r, snd c), e)) (rt_Update opts (fst c))"
| "relay_Update opts (Grafana g) = (case base_Update opts (gn_Matcher g) of (m, e) \<Rightarrow> Some (Grafana (g\<lparr>gn_Matcher := m\<rparr>), e))"
| "relay_Update opts (Kafka k) = (case base_Update opts (k_Matcher k) of (m, e) \<Rightarrow> Some (Kafka (k\<lparr>k_Matcher := m\<rparr>), e))"
| "relay_Update opts (Pubsub p) = (case base_Update opts (p_Matcher p) of (m, e) \<Rightarrow> Some (Pubsub (p\<lparr>p_Matcher := m\<rparr>), e))"
| "relay_Update opts (Cloudwatch w) = (case base_Update opts (w_Matcher w) of (m, e) \<Rightarrow> Some (Cloudwatch (w\<lparr>w_Matcher := m\<rparr>), e))"

definition on_carbon ::
  "(carbon \<Rightarrow> (carbon \<times> dest_error option) option outcome) \<Rightarrow> int \<Rightarrow> relay_route \<Rightarrow>
   (relay_route \<times> dest_error option) option outcome" where
  "on_carbon f index r =
     (case r of
        Carbon c \<Rightarrow> map_outcome (map_option (\<lambda>(c', e). (Carbon c', e))) (f c)
      | _ \<Rightarrow> no_destination index r)"

fun relay_Flush :: "(Destination \<Rightarrow> dest_error option) \<Rightarrow> relay_route \<Rightarrow> dest_error option" where
  "relay_Flush flush (Carbon c) = rt_Flush (map flush (rt_Dests (fst c)))"
| "relay_Flush flush _ = None"

definition relay_methods ::
  "(bytes \<Rightarrow> Sock option) \<Rightarrow> (Destination \<Rightarrow> dest_error option) \<Rightarrow> relay_route route_methods" where
  "relay_methods dial flush =
     \<lparr>m_Key = relay_Key, m_Match = relay_Match, m_Dispatch = relay_Dispatch, m_Flush = relay_Flush flush,
      m_Shutdown = relay_Shutdown,
      m_DelDestination = (\<lambda>index. on_carbon (m_DelDestination (carbon_methods dial flush) index) index),
      m_UpdateDestination = (\<lambda>index opts. on_carbon (m_UpdateDestination (carbon_methods dial flush) index opts) index),
      m_Update = relay_Update\<rparr>"

text \<open>A route that may be given lines: a sound carbon route, a GrafanaNet route with its shards, a route
  whose channel is not closed.\<close>

fun relay_ready :: "relay_route \<Rightarrow> bool" where
  "relay_ready (Carbon c) = carbon_ready c"
| "relay_ready (Grafana g) = (0 < Concurrency (gn_Cfg g) \<and> Concurrency (gn_Cfg g) < 2 ^ 32 \<and>
     length (gn_in g) = nat (Concurrency (gn_Cfg g)))"
| "relay_ready (Kafka k) = (\<not> k_closed k)"
| "relay_ready (Pubsub p) = (\<not> p_closed p)"
| "relay_ready (Cloudwatch w) = (\<not> w_closed w)"

lemma map_outcome_eq_Ok [simp]: "map_outcome f m = Ok y \<longleftrightarrow> (\<exists>x. m = Ok x \<and> f x = y)"
  by (cases m) auto

lemma dispatch_closed:
  "dispatch b cap buf (k :: KafkaMdm) = (k', x) \<Longrightarrow> k_closed k' = k_closed k"
  "dispatch b cap buf (p :: PubSub) = (p', x) \<Longrightarrow> p_closed p' = p_closed p"
  "dispatch b cap buf (w :: CloudWatch) = (w', x) \<Longrightarrow> w_closed w' = w_closed w"
  by (auto simp: dispatch_def dispatchBlocking_def dispatchNonBlocking_def split: if_splits)

lemma relay_Dispatch_returns: "relay_ready r \<Longrightarrow> \<exists>r'. relay_Dispatch line r = Ok r' \<and> relay_ready r'"
proof (cases r)
  case (Carbon c)
  assume "relay_ready r"
  then show ?thesis
    using Carbon carbon.Dispatch_returns [where r = c and line = line] by (auto simp: carbon_methods_def)
next
  case (Grafana g)
  assume "relay_ready r"
  with Grafana obtain g' where "gn_Dispatch line g = Ok g'" "gn_Cfg g' = gn_Cfg g" "length (gn_in g') = length (gn_in g)"
    using gn_Dispatch_ok [of g line] by auto
  then show ?thesis using Grafana \<open>relay_ready r\<close> by simp
qed (auto simp: km_Dispatch_def ps_Dispatch_def cw_Dispatch_def dispatch_closed split: prod.splits)

interpretation relay: route_interface "relay_methods dial flush" relay_ready for dial flush
proof
  fix r :: relay_route and line
  assume "relay_ready r"
  then show "\<exists>r'. m_Dispatch (relay_methods dial flush) line r = Ok r' \<and> relay_ready r'"
    using relay_Dispatch_returns by (simp add: relay_methods_def)
next
  fix i and r r' :: relay_route and e
  assume a: "m_DelDestination (relay_methods dial flush) i r = Ok (Some (r', e))"
  show "m_Key (relay_methods dial flush) r' = m_Key (relay_methods dial flush) r"
  proof (cases r)
    case (Carbon c)
    with a obtain c' where "r' = Carbon c'" "m_DelDestination (carbon_methods dial flush) i c = Ok (Some (c', e))"
      by (auto simp: relay_methods_def on_carbon_def)
    then show ?thesis using carbon.DelDestination_key Carbon by (fastforce simp: relay_methods_def carbon_methods_def)
  qed (use a in \<open>auto simp: relay_methods_def on_carbon_def no_destination_def split: if_splits\<close>)
next
  fix i opts and r r' :: relay_route and e
  assume a: "m_UpdateDestination (relay_methods dial flush) i opts r = Ok (Some (r', e))"
  show "m_Key (relay_methods dial flush) r' = m_Key (relay_methods dial flush) r"
  proof (cases r)
    case (Carbon c)
    with a obtain c' where "r' = Carbon c'" "m_UpdateDestination (carbon_methods dial flush) i opts c = Ok (Some (c', e))"
      by (auto simp: relay_methods_def on_carbon_def)
    then show ?thesis using carbon.UpdateDestination_key Carbon by (fastforce simp: relay_methods_def carbon_methods_def)
  qed (use a in \<open>auto simp: relay_methods_def on_carbon_def no_destination_def split: if_splits\<close>)
next
  fix opts and r r' :: relay_route and e
  assume a: "m_Update (relay_methods dial flush) opts r = Some (r', e)"
  show "m_Key (relay_methods dial flush) r' = m_Key (relay_methods dial flush) r"
  proof (cases r)
    case (Carbon c)
    with a obtain r1 where "r' = Carbon (r1, snd c)" "rt_Update opts (fst c) = Some (r1, e)"
      by (auto simp: relay_methods_def)
    then show ?thesis
      using carbon.Update_key [of dial flush opts c "(r1, snd c)" e] Carbon by (simp add: relay_methods_def carbon_methods_def)
  qed (use a in \<open>auto simp: relay_methods_def split: prod.splits\<close>)
qed

subsection \<open>Properties\<close>

fun carbon_lines :: "relay_route \<Rightarrow> (nat \<times> bytes) list" where
  "carbon_lines (Carbon c) = snd c"
| "carbon_lines _ = []"

definition relay_table :: "Matcher list \<Rightarrow> (bytes \<times> Matcher) list \<Rightarrow> relay_route Table" where
  "relay_table bl rs =
     table_New \<lparr>tc_SpoolDir = [], BadMetricsMaxAge = 0, Validation_level_legacy = NoneLegacy,
       Validation_level_m20 = NoneM20, Validate_order = False, rewriters = [], aggregators = [],
       blocklist = bl, routes = map (\<lambda>(k, m). Carbon (example_route k m)) rs\<rparr> (\<lambda>_. None)"

lemma relay_table_ready: "table_ready relay_ready (relay_table bl rs)"
  by (auto simp: table_ready_def relay_table_def table_New_def example_route_def carbon_ready_def
      route_ready_def route_wf_def)

text \<open>C1: the table never panics on a line while its aggregators and routes are sound, and every line has
  exactly one fate: after any sequence of lines the number received is their number, and the
  counters of invalid, out-of-order, blocklisted and unroutable lines have grown by the number of
  lines with that fate; the others were consumed by an aggregator or sent to a route.\<close>

theorem every_line_has_one_fate:
  assumes "table_ready relay_ready t" and "accepts_lines vp"
  shows "\<exists>t' fs. dispatch_all (relay_methods dial flush) vp lines t = Ok (t', fs) \<and> table_ready relay_ready t' \<and>
    length fs = length lines \<and>
    t_numIn t' = t_numIn t + length lines \<and>
    numInvalid t' = numInvalid t + count_list fs Invalid \<and>
    numOutOfOrder t' = numOutOfOrder t + count_list fs OutOfOrder \<and>
    numBlocklist t' = numBlocklist t + count_list fs Blocklisted \<and>
    numUnroutable t' = numUnroutable t + count_list fs Unroutable"
  by (rule relay.dispatch_all_ok [OF assms])

theorem every_line_has_one_fate_witness:
  "\<exists>t'. dispatch_all (relay_methods (\<lambda>_. None) (\<lambda>_. None)) example_validator [(5, ''bad.x 1 10'')]
      (relay_table [prefix_matcher ''bad''] [(''r'', prefix_matcher [])]) = Ok (t', [Blocklisted]) \<and>
    t_numIn t' = 1 \<and> numBlocklist t' = 1 \<and> numUnroutable t' = 0"
proof -
  let ?t = "relay_table [prefix_matcher ''bad''] [(''r'', prefix_matcher [])]"
  have ready: "table_ready relay_ready ?t" by (rule relay_table_ready)
  have f: "fate_of (relay_methods (\<lambda>_. None) (\<lambda>_. None)) example_validator ''bad.x 1 10'' ?t = Blocklisted"
    by code_simp
  from every_line_has_one_fate [OF ready example_validator_accepts, of "\<lambda>_. None" "\<lambda>_. None" "[(5, ''bad.x 1 10'')]"]
  show ?thesis
    using f by (auto split: outcome.splits) (auto simp: relay_table_def table_New_def)
qed


text \<open>C2: a line goes through the stages in order: it is blocklisted by its original key; its key is then
  rewritten by all rewriters in turn; the aggregators up to the first that keeps it for itself are
  offered the rewritten point, and take it according to their matchers; if none keeps it, each route
  whose matcher accepts the rewritten key gets the rejoined line, every other route stays as it was.\<close>

theorem dispatch_follows_the_pipeline:
  assumes "table_ready relay_ready t" and "accepts_lines vp"
    and "vp buf (Validation_level_legacy (t_config t)) (Validation_level_m20 (t_config t)) = (key, val, ts, err)"
  shows "\<exists>t'. Dispatch (relay_methods dial flush) vp now buf t = Ok t' \<and>
    (let ms = relay_methods dial flush; f = fate_of ms vp buf t; conf = t_config t; name = new_name conf buf
     in map a_in (aggregators (t_config t')) =
          (if passed f
           then offered name \<lparr>msg_buf = name # tl (Go_Strings.fields buf), msg_val = val, msg_ts = ts\<rparr> (aggregators conf)
           else map a_in (aggregators conf)) \<and>
        routes (t_config t') =
          (if f = Routed
           then map (\<lambda>r. if m_Match ms name r then delivered ms (new_line conf buf) r else r) (routes conf)
           else routes conf))"
  unfolding Let_def using relay.Dispatch_ok [OF assms, of dial flush now] by blast

theorem dispatch_follows_the_pipeline_witness:
  "\<exists>t'. Dispatch (relay_methods (\<lambda>_. None) (\<lambda>_. None)) example_validator 5 ''foo.x 1 10''
      (relay_table [prefix_matcher ''bad''] [(''r'', prefix_matcher ''foo''), (''s'', prefix_matcher ''bar'')]) = Ok t' \<and>
    map carbon_lines (routes (t_config t')) = [[(0, ''foo.x 1 10'')], []]"
proof -
  let ?t = "relay_table [prefix_matcher ''bad''] [(''r'', prefix_matcher ''foo''), (''s'', prefix_matcher ''bar'')]"
  let ?ms = "relay_methods (\<lambda>_. None) (\<lambda>_. None)"
  have ready: "table_ready relay_ready ?t" by (rule relay_table_ready)
  have v: "example_validator ''foo.x 1 10'' l m = (''foo.x'', 1, 10, None)" for l m
    by (simp add: example_validator_def) code_simp
  have f: "fate_of ?ms example_validator ''foo.x 1 10'' ?t = Routed" by code_simp
  have d: "map carbon_lines (map (\<lambda>r. if m_Match ?ms (new_name (t_config ?t) ''foo.x 1 10'') r
      then delivered ?ms (new_line (t_config ?t) ''foo.x 1 10'') r else r) (routes (t_config ?t))) = [[(0, ''foo.x 1 10'')], []]"
    by code_simp
  from dispatch_follows_the_pipeline [OF ready example_validator_accepts v, of "\<lambda>_. None" "\<lambda>_. None" 5]
  show ?thesis using f d unfolding Let_def by (metis (no_types, lifting))
qed

text \<open>A route with a channel of its own that has been deleted is closed: a dispatcher that still holds the old
  configuration, as lock-free readers may, panics when it gives it a line, and with it the process.\<close>

fun has_channel :: "relay_route \<Rightarrow> bool" where
  "has_channel (Kafka k) = (\<not> k_closed k \<and> ch_waiting k = [])"
| "has_channel (Pubsub p) = (\<not> p_closed p \<and> ch_waiting p = [])"
| "has_channel (Cloudwatch w) = (\<not> w_closed w \<and> ch_waiting w = [])"
| "has_channel _ = False"

text \<open>A dispatcher that still holds the old configuration panics when it gives a line to a deleted kafkaMdm, pubsub or CloudWatch route.\<close>

theorem deleted_route_panics_dispatcher:
  assumes "GetRoute (relay_methods dial flush) key t = Some r" and "has_channel r"
    and "tbl_DelRoute (relay_methods dial flush) key t = (t', res)"
  shows "\<exists>r'. res = Some (Ok (Some (r', []))) \<and> relay_Dispatch line r' = Panic SendOnClosedChannel"
proof -
  have "res = map_option relay_Shutdown (Some r)"
    using assms(1,3)
    by (auto simp: tbl_DelRoute_def Let_def GetRoute_def find_find_index relay_methods_def split: option.splits)
  then show ?thesis
    using assms(2)
    by (cases r) (auto simp: km_Shutdown_def ps_close_def cw_Shutdown_def km_Dispatch_def ps_Dispatch_def cw_Dispatch_def)
qed

theorem deleted_route_panics_dispatcher_witness:
  "\<exists>k r'. snd (tbl_DelRoute (relay_methods (\<lambda>_. None) (\<lambda>_. None)) ''k'' (tbl_AddRoute (Kafka k) (relay_table [] []))) =
      Some (Ok (Some (r', []))) \<and> relay_Dispatch ''a 1 1'' r' = Panic SendOnClosedChannel"
proof -
  obtain k where k: "NewKafkaMdm example_kafka_env example_kafka_args = Ok (Inr k)" using example_kafka by blast
  let ?t = "tbl_AddRoute (Kafka k) (relay_table [] [])"
  have c: "k_key k = ''k''" "\<not> k_closed k" "ch_waiting k = []"
    using k by (auto simp: NewKafkaMdm_def fatal_def example_kafka_args_def split: if_splits)
  have "GetRoute (relay_methods (\<lambda>_. None) (\<lambda>_. None)) ''k'' ?t = Some (Kafka k)"
    using c by (simp add: GetRoute_def tbl_AddRoute_def relay_table_def table_New_def relay_methods_def)
  moreover have "has_channel (Kafka k)" using c by simp
  moreover obtain t' res where d: "tbl_DelRoute (relay_methods (\<lambda>_. None) (\<lambda>_. None)) ''k'' ?t = (t', res)" by fastforce
  ultimately show ?thesis using deleted_route_panics_dispatcher d by (metis snd_conv)
qed

end
