(* ===== verification/Cmd_Imperatives.thy ===== *)
theory Cmd_Imperatives
  imports Table_Routes
begin

text \<open>
  \<^verbatim>\<open>imperatives/imperatives.go\<close>: the commands of the configuration and of the admin interface.

  \<^item> The scanner is the third-party toki: \<open>scan\<close> gives the tokens of an input, with their texts, for
    the table of definitions \<open>tokens\<close>; past the last token \<open>Next\<close> gives \<open>TEOF\<close>. A scanner is the list
    of the tokens left.
  \<^item> Each option of a command is a token followed by its value; \<open>opt_loop\<close> is the loop over the
    options, and each \<open>..._opt\<close> is the body of a switch, given the option and the token after it.
  \<^item> \<open>time.Duration\<close> products are 64-bit and wrap (\<open>wrap64\<close>); durations are nanoseconds.
  \<^item> The record \<open>cmd_env\<close> holds what lies outside: the scanner, the clock, the order in which Go goes
    through a map, what the constructors of the routes check, and how destinations are dialled and
    flushed.
  \<^item> A command gives the table after it and its error, if any; it may panic, as the constructors and
    operations it calls may, and a command that waits for ever gives \<open>Ok None\<close>.
\<close>

subsection \<open>Tokens\<close>

datatype cmd_token = AddBlack | AddBlock | AddAgg | AddRouteSendAllMatch
  | AddRouteSendFirstMatch | AddRouteConsistentHashing | AddRouteConsistentHashingV2 | AddRouteGrafanaNet
  | AddRouteKafkaMdm | AddRoutePubSub | AddDest | AddRewriter
  | DelRoute | ModDest | ModRoute

datatype fn_token = AvgFn | CountFn | DeltaFn | DeriveFn | LastFn | MaxFn | MinFn | StdevFn | SumFn

datatype opt_token = OptPrefix | OptNotPrefix | OptAddr | OptCache | OptDropRaw | OptBlocking
  | OptSub | OptNotSub | OptRegex | OptNotRegex | OptFlush | OptReconn
  | OptConnBufSize | OptIoBufSize | OptSpoolBufSize | OptSpoolMaxBytesPerFile | OptSpoolSyncEvery | OptSpoolSyncPeriod
  | OptSpoolSleep | OptTLSEnabled | OptTLSSkipVerify | OptTLSClientCert | OptTLSClientKey | OptSASLEnabled
  | OptSASLMechanism | OptSASLUsername | OptSASLPassword | OptUnspoolSleep | OptPickle | OptSpool
  | OptBufSize | OptFlushMaxNum | OptFlushMaxWait | OptTimeout | OptSSLVerify | OptErrBackoffMin
  | OptErrBackoffFactor | OptConcurrency | OptOrgId | OptPubSubProject | OptPubSubTopic | OptPubSubFormat
  | OptPubSubCodec | OptPubSubFlushMaxSize | OptAggregationFile

datatype token = TCmd cmd_token | TFn fn_token | TOpt opt_token | TStr | TSep | TNum | TWord | TTrue | TFalse
  | TError | TEOF

definition tokens :: "(token \<times> bytes) list" where
  "tokens =
    [(TCmd AddBlack, ''addBlack''),
     (TCmd AddBlock, ''addBlock''),
     (TCmd AddAgg, ''addAgg''),
     (TCmd AddRouteSendAllMatch, ''addRoute sendAllMatch''),
     (TCmd AddRouteSendFirstMatch, ''addRoute sendFirstMatch''),
     (TCmd AddRouteConsistentHashing, ''addRoute consistentHashing''),
     (TCmd AddRouteConsistentHashingV2, ''addRoute consistentHashing-v2''),
     (TCmd AddRouteGrafanaNet, ''addRoute grafanaNet''),
     (TCmd AddRouteKafkaMdm, ''addRoute kafkaMdm''),
     (TCmd AddRoutePubSub, ''addRoute pubsub''),
     (TCmd AddDest, ''addDest''),
     (TCmd AddRewriter, ''addRewriter''),
     (TCmd DelRoute, ''delRoute''),
     (TCmd ModDest, ''modDest''),
     (TCmd ModRoute, ''modRoute''),
     (TOpt OptPrefix, ''prefix=''),
     (TOpt OptNotPrefix, ''notPrefix=''),
     (TOpt OptAddr, ''addr=''),
     (TOpt OptCache, ''cache=''),
     (TOpt OptDropRaw, ''dropRaw=''),
     (TOpt OptBlocking, ''blocking=''),
     (TOpt OptSub, ''sub=''),
     (TOpt OptNotSub, ''notSub=''),
     (TOpt OptRegex, ''regex=''),
     (TOpt OptNotRegex, ''notRegex=''),
     (TOpt OptFlush, ''flush=''),
     (TOpt OptReconn, ''reconn=''),
     (TOpt OptConnBufSize, ''connbuf=''),
     (TOpt OptIoBufSize, ''iobuf=''),
     (TOpt OptSpoolBufSize, ''spoolbuf=''),
     (TOpt OptSpoolMaxBytesPerFile, ''spoolmaxbytesperfile=''),
     (TOpt OptSpoolSyncEvery, ''spoolsyncevery=''),
     (TOpt OptSpoolSyncPeriod, ''spoolsyncperiod=''),
     (TOpt OptSpoolSleep, ''spoolsleep=''),
     (TOpt OptTLSEnabled, ''tlsEnabled=''),
     (TOpt OptTLSSkipVerify, ''tlsSkipVerify=''),
     (TOpt OptTLSClientCert, ''tlsClientCert=''),
     (TOpt OptTLSClientKey, ''tlsClientKey=''),
     (TOpt OptSASLEnabled, ''saslEnabled=''),
     (TOpt OptSASLMechanism, ''saslMechanism=''),
     (TOpt OptSASLUsername, ''saslUsername=''),
     (TOpt OptSASLPassword, ''saslPassword=''),
     (TOpt OptUnspoolSleep, ''unspoolsleep=''),
     (TOpt OptPickle, ''pickle=''),
     (TOpt OptSpool, ''spool=''),
     (TTrue, ''true''),
     (TFalse, ''false''),
     (TOpt OptBufSize, ''bufSize=''),
     (TOpt OptFlushMaxNum, ''flushMaxNum=''),
     (TOpt OptFlushMaxWait, ''flushMaxWait=''),
     (TOpt OptTimeout, ''timeout=''),
     (TOpt OptSSLVerify, ''sslverify=''),
     (TOpt OptErrBackoffMin, ''errBackoffMin=''),
     (TOpt OptErrBackoffFactor, ''errBackoffFactor=''),
     (TOpt OptConcurrency, ''concurrency=''),
     (TOpt OptOrgId, ''orgId=''),
     (TOpt OptPubSubProject, ''project=''),
     (TOpt OptPubSubTopic, ''topic=''),
     (TOpt OptPubSubFormat, ''format=''),
     (TOpt OptPubSubCodec, ''codec=''),
     (TOpt OptPubSubFlushMaxSize, ''flushMaxSize=''),
     (TOpt OptAggregationFile, ''aggregationFile=''),
     (TStr, [CHR 0x22, CHR ''.'', CHR ''*'', CHR 0x22]),
     (TSep, ''##''),
     (TFn AvgFn, ''avg ''),
     (TFn MaxFn, ''max ''),
     (TFn MinFn, ''min ''),
     (TFn SumFn, ''sum ''),
     (TFn LastFn, ''last ''),
     (TFn CountFn, ''count ''),
     (TFn DeltaFn, ''delta ''),
     (TFn DeriveFn, ''derive ''),
     (TFn StdevFn, ''stdev ''),
     (TNum, ''[0-9]+( |$)''),
     (TWord, ''[^ ]+'')]"


type_synonym toks = "(token \<times> bytes) list"

fun Next :: "toks \<Rightarrow> token \<times> bytes" where
  "Next [] = (TEOF, [])"
| "Next (t # ts) = t"

datatype cmd_error =
    ErrFmtAddAgg | ErrFmtAddBlock | ErrFmtAddRoute | ErrFmtAddRouteGrafanaNet | ErrFmtAddRouteKafkaMdm
  | ErrFmtAddRoutePubSub | ErrFmtAddRewriter | ErrFmtModDest | ErrOrgId0
  | ErrMsg bytes | ErrUnexpected token bytes | ErrNum num_error | ErrMatcher regexp_error
  | ErrAgg agg_error | ErrRewriter rewriter_error | ErrTable table_error | ErrShutdown "dest_error list"
  | ErrGrafana gn_config_error | ErrSchemas schema_error | ErrReadAggregations

definition wrap64 :: "int \<Rightarrow> int" where
  "wrap64 i = sint (word_of_int i :: 64 word)"

subsection \<open>Option values\<close>

definition word_arg :: "cmd_error \<Rightarrow> token \<times> bytes \<Rightarrow> cmd_error + bytes" where
  "word_arg err t = (if fst t \<noteq> TWord then Inl err else Inr (snd t))"

definition num_arg :: "cmd_error \<Rightarrow> token \<times> bytes \<Rightarrow> cmd_error + int" where
  "num_arg err t =
     (if fst t \<noteq> TNum then Inl err
      else case atoi (trim_space (snd t)) of Inl e \<Rightarrow> Inl (ErrNum e) | Inr i \<Rightarrow> Inr i)"

definition bool_arg :: "cmd_error \<Rightarrow> token \<times> bytes \<Rightarrow> cmd_error + bool" where
  "bool_arg err t =
     (if fst t = TTrue \<or> fst t = TFalse
      then (case parse_bool (snd t) of Inl e \<Rightarrow> Inl (ErrNum e) | Inr b \<Rightarrow> Inr b)
      else Inl err)"

primrec set_opt :: "cmd_error + 'a \<Rightarrow> ('a \<Rightarrow> 's) \<Rightarrow> cmd_error + 's" where
  "set_opt (Inl e) f = Inl e"
| "set_opt (Inr v) f = Inr (f v)"

text \<open>The loop over options up to a stopping token, which is left.\<close>

fun opt_loop ::
  "(token \<Rightarrow> bool) \<Rightarrow> (token \<times> bytes \<Rightarrow> token \<times> bytes \<Rightarrow> 's \<Rightarrow> cmd_error + 's) \<Rightarrow> toks \<Rightarrow> 's \<Rightarrow> cmd_error + ('s \<times> toks)" where
  "opt_loop stop step [] st = Inr (st, [])"
| "opt_loop stop step [t] st =
     (if stop (fst t) then Inr (st, [t])
      else case step t (TEOF, []) st of Inl e \<Rightarrow> Inl e | Inr st' \<Rightarrow> Inr (st', []))"
| "opt_loop stop step (t # u # ts) st =
     (if stop (fst t) then Inr (st, t # u # ts)
      else case step t u st of Inl e \<Rightarrow> Inl e | Inr st' \<Rightarrow> opt_loop stop step ts st')"

subsection \<open>Matcher options\<close>

record match_opts =
  mo_prefix :: bytes
  mo_notPrefix :: bytes
  mo_sub :: bytes
  mo_notSub :: bytes
  mo_regex :: bytes
  mo_notRegex :: bytes

definition no_match_opts :: match_opts where
  "no_match_opts = \<lparr>mo_prefix = [], mo_notPrefix = [], mo_sub = [], mo_notSub = [], mo_regex = [], mo_notRegex = []\<rparr>"

definition new_matcher :: "match_opts \<Rightarrow> Matcher \<times> regexp_error option" where
  "new_matcher o' = matcher_New (mo_prefix o') (mo_notPrefix o') (mo_sub o') (mo_notSub o') (mo_regex o') (mo_notRegex o')"

definition match_opt :: "(bytes \<Rightarrow> cmd_error) \<Rightarrow> opt_token \<Rightarrow> token \<times> bytes \<Rightarrow> match_opts \<Rightarrow> (cmd_error + match_opts) option" where
  "match_opt err op u m =
     (if op = OptPrefix then Some (set_opt (word_arg (err ''prefix'') u) (\<lambda>v. m\<lparr>mo_prefix := v\<rparr>))
      else if op = OptNotPrefix then Some (set_opt (word_arg (err ''notPrefix'') u) (\<lambda>v. m\<lparr>mo_notPrefix := v\<rparr>))
      else if op = OptSub then Some (set_opt (word_arg (err ''sub'') u) (\<lambda>v. m\<lparr>mo_sub := v\<rparr>))
      else if op = OptNotSub then Some (set_opt (word_arg (err ''notSub'') u) (\<lambda>v. m\<lparr>mo_notSub := v\<rparr>))
      else if op = OptRegex then Some (set_opt (word_arg (err ''regex'') u) (\<lambda>v. m\<lparr>mo_regex := v\<rparr>))
      else if op = OptNotRegex then Some (set_opt (word_arg (err ''notRegex'') u) (\<lambda>v. m\<lparr>mo_notRegex := v\<rparr>))
      else None)"

definition opt_of :: "token \<Rightarrow> opt_token option" where
  "opt_of t = (case t of TOpt op \<Rightarrow> Some op | _ \<Rightarrow> None)"

text \<open>\<open>readRouteOpts\<close>: up to the separator, which is consumed.\<close>

definition route_opt :: "token \<times> bytes \<Rightarrow> token \<times> bytes \<Rightarrow> match_opts \<Rightarrow> cmd_error + match_opts" where
  "route_opt t u m =
     (if fst t = TError then Inl (ErrMsg ''read the error token instead of one i recognize'')
      else case opt_of (fst t) of
             None \<Rightarrow> Inl (ErrUnexpected (fst t) (snd t))
           | Some op \<Rightarrow>
               (case match_opt (\<lambda>name. ErrMsg (''bad '' @ name @ '' option'')) op u m of
                  None \<Rightarrow> Inl (ErrUnexpected (fst t) (snd t))
                | Some r \<Rightarrow> r))"

definition readRouteOpts :: "toks \<Rightarrow> cmd_error + (match_opts \<times> toks)" where
  "readRouteOpts ts =
     (case opt_loop (\<lambda>k. k = TSep \<or> k = TEOF) route_opt ts no_match_opts of
        Inl e \<Rightarrow> Inl e
      | Inr (m, rest) \<Rightarrow> Inr (m, tl rest))"

subsection \<open>Destinations\<close>

record dest_opts =
  do_match :: match_opts
  do_spool :: bool
  do_pickle :: bool
  do_flush :: int
  do_reconn :: int
  do_connBufSize :: int
  do_ioBufSize :: int
  do_spoolBufSize :: int
  do_spoolMaxBytesPerFile :: int
  do_spoolSyncEvery :: int
  do_spoolSyncPeriod :: int
  do_spoolSleep :: int
  do_unspoolSleep :: int

definition default_dest_opts :: dest_opts where
  "default_dest_opts =
     \<lparr>do_match = no_match_opts, do_spool = False, do_pickle = False, do_flush = 1000, do_reconn = 10000,
      do_connBufSize = 30000, do_ioBufSize = 2000000, do_spoolBufSize = 10000,
      do_spoolMaxBytesPerFile = 200 * 1024 * 1024, do_spoolSyncEvery = 10000, do_spoolSyncPeriod = 1000000000,
      do_spoolSleep = 500 * 1000, do_unspoolSleep = 10 * 1000\<rparr>"

definition dest_opt :: "token \<times> bytes \<Rightarrow> token \<times> bytes \<Rightarrow> dest_opts \<Rightarrow> cmd_error + dest_opts" where
  "dest_opt t u d =
     (case opt_of (fst t) of
        None \<Rightarrow> Inl (ErrUnexpected (fst t) (snd t))
      | Some op \<Rightarrow>
          (case match_opt (\<lambda>_. ErrFmtAddRoute) op u (do_match d) of
             Some r \<Rightarrow> set_opt r (\<lambda>m. d\<lparr>do_match := m\<rparr>)
           | None \<Rightarrow>
               if op = OptFlush then set_opt (num_arg ErrFmtAddRoute u) (\<lambda>i. d\<lparr>do_flush := i\<rparr>)
               else if op = OptReconn then set_opt (num_arg ErrFmtAddRoute u) (\<lambda>i. d\<lparr>do_reconn := i\<rparr>)
               else if op = OptPickle then set_opt (bool_arg ErrFmtAddRoute u) (\<lambda>b. d\<lparr>do_pickle := b\<rparr>)
               else if op = OptSpool then set_opt (bool_arg ErrFmtAddRoute u) (\<lambda>b. d\<lparr>do_spool := b\<rparr>)
               else if op = OptConnBufSize then set_opt (num_arg ErrFmtAddRoute u) (\<lambda>i. d\<lparr>do_connBufSize := i\<rparr>)
               else if op = OptIoBufSize then set_opt (num_arg ErrFmtAddRoute u) (\<lambda>i. d\<lparr>do_ioBufSize := i\<rparr>)
               else if op = OptSpoolBufSize then set_opt (num_arg ErrFmtAddRoute u) (\<lambda>i. d\<lparr>do_spoolBufSize := i\<rparr>)
               else if op = OptSpoolMaxBytesPerFile then set_opt (num_arg ErrFmtAddRoute u) (\<lambda>i. d\<lparr>do_spoolMaxBytesPerFile := i\<rparr>)
               else if op = OptSpoolSyncEvery then set_opt (num_arg ErrFmtAddRoute u) (\<lambda>i. d\<lparr>do_spoolSyncEvery := i\<rparr>)
               else if op = OptSpoolSyncPeriod then set_opt (num_arg ErrFmtAddRoute u) (\<lambda>i. d\<lparr>do_spoolSyncPeriod := wrap64 (i * 1000000)\<rparr>)
               else if op = OptSpoolSleep then set_opt (num_arg ErrFmtAddRoute u) (\<lambda>i. d\<lparr>do_spoolSleep := wrap64 (i * 1000)\<rparr>)
               else if op = OptUnspoolSleep then set_opt (num_arg ErrFmtAddRoute u) (\<lambda>i. d\<lparr>do_unspoolSleep := wrap64 (i * 1000)\<rparr>)
               else Inl (ErrUnexpected (fst t) (snd t))))"

definition readDestination :: "bytes \<Rightarrow> bool \<Rightarrow> bytes \<Rightarrow> toks \<Rightarrow> cmd_error + (Destination \<times> toks)" where
  "readDestination spoolDir allowMatcher routeKey ts =
     (if fst (Next ts) \<noteq> TWord then Inl (ErrMsg ''addr not set for endpoint'')
      else
        (case opt_loop (\<lambda>k. k = TSep \<or> k = TEOF) dest_opt (tl ts) default_dest_opts of
           Inl e \<Rightarrow> Inl e
         | Inr (d, rest) \<Rightarrow>
             if \<not> allowMatcher \<and> do_match d \<noteq> no_match_opts
             then Inl (ErrMsg ''matching options not allowed for this route type'')
             else (case new_matcher (do_match d) of
                     (m, Some e) \<Rightarrow> Inl (ErrMatcher e)
                   | (m, None) \<Rightarrow>
                       Inr (dest_New routeKey m (snd (Next ts)) spoolDir (do_spool d) (do_pickle d)
                              (wrap64 (do_flush d * 1000000)) (wrap64 (do_reconn d * 1000000)) (nat (do_connBufSize d))
                              (do_ioBufSize d) (do_spoolBufSize d) (do_spoolMaxBytesPerFile d) (do_spoolSyncEvery d)
                              (do_spoolSyncPeriod d) (do_spoolSleep d) (do_unspoolSleep d), tl rest))))"

lemma opt_loop_length: "opt_loop stop step ts st = Inr (st', rest) \<Longrightarrow> length rest \<le> length ts"
  by (induction stop step ts st rule: opt_loop.induct) (auto split: if_splits sum.splits)

lemma readDestination_length:
  "readDestination spoolDir allowMatcher routeKey ts = Inr (d, rest) \<Longrightarrow> length rest < length ts"
  by (cases ts) (auto simp: readDestination_def dest: opt_loop_length split: if_splits sum.splits prod.splits option.splits)

function readDestinations :: "bytes \<Rightarrow> bool \<Rightarrow> bytes \<Rightarrow> toks \<Rightarrow> cmd_error + Destination list" where
  "readDestinations spoolDir allowMatcher routeKey ts =
     (let ts1 = dropWhile (\<lambda>t. fst t = TSep) ts
      in if fst (Next ts1) = TEOF then Inr []
         else case readDestination spoolDir allowMatcher routeKey ts1 of
                Inl e \<Rightarrow> Inl e
              | Inr (d, rest) \<Rightarrow>
                  (case readDestinations spoolDir allowMatcher routeKey rest of
                     Inl e \<Rightarrow> Inl e
                   | Inr ds \<Rightarrow> Inr (d # ds)))"
  by pat_completeness auto
termination
  by (relation "measure (\<lambda>(_, _, _, ts). length ts)")
    (auto dest!: readDestination_length intro: le_trans less_le_trans [OF _ length_dropWhile_le])

declare readDestinations.simps [simp del]

fun ParseDestinations :: "(bytes \<Rightarrow> toks) \<Rightarrow> bytes \<Rightarrow> bool \<Rightarrow> bytes \<Rightarrow> bytes list \<Rightarrow> cmd_error + Destination list" where
  "ParseDestinations scan spoolDir allowMatcher routeKey [] = Inr []"
| "ParseDestinations scan spoolDir allowMatcher routeKey (c # cs) =
     (case readDestination spoolDir allowMatcher routeKey (scan c) of
        Inl e \<Rightarrow> Inl e
      | Inr (d, _) \<Rightarrow>
          (case ParseDestinations scan spoolDir allowMatcher routeKey cs of
             Inl e \<Rightarrow> Inl e
           | Inr ds \<Rightarrow> Inr (d # ds)))"

subsection \<open>Commands\<close>

record cmd_env =
  ce_scan :: "bytes \<Rightarrow> toks"
  ce_now :: int
  ce_map_order :: "(bytes \<times> bytes) list \<Rightarrow> (bytes \<times> bytes) list"
  ce_files :: files_env
  ce_kafka :: kafka_env
  ce_pubsub :: pubsub_env
  ce_dial :: "bytes \<Rightarrow> Sock option"
  ce_flush :: "Destination \<Rightarrow> dest_error option"

type_synonym tbl = "relay_route Table"
type_synonym 'e result_of = "(tbl \<times> 'e option) option outcome"
type_synonym cmd_result = "cmd_error result_of"

definition cmd_fail :: "'e \<Rightarrow> tbl \<Rightarrow> 'e result_of" where
  "cmd_fail e t = Ok (Some (t, Some e))"

definition cmd_done :: "tbl \<Rightarrow> 'e result_of" where
  "cmd_done t = Ok (Some (t, None))"

text \<open>A call that returns an error ends the command; the table is the one it had.\<close>

primrec with_arg :: "'e + 'a \<Rightarrow> tbl \<Rightarrow> ('a \<Rightarrow> 'e result_of) \<Rightarrow> 'e result_of" where
  "with_arg (Inl e) t f = cmd_fail e t"
| "with_arg (Inr x) t f = f x"

primrec with_call :: "('f + 'a) outcome \<Rightarrow> ('f \<Rightarrow> 'e) \<Rightarrow> tbl \<Rightarrow> ('a \<Rightarrow> 'e result_of) \<Rightarrow> 'e result_of" where
  "with_call (Panic p) err t f = Panic p"
| "with_call (Ok r) err t f = (case r of Inl e \<Rightarrow> cmd_fail (err e) t | Inr x \<Rightarrow> f x)"

definition matcher_of :: "match_opts \<Rightarrow> cmd_error + Matcher" where
  "matcher_of m = (case new_matcher m of (_, Some e) \<Rightarrow> Inl (ErrMatcher e) | (mt, None) \<Rightarrow> Inr mt)"

text \<open>\<open>addAgg\<close>\<close>

definition agg_opt :: "token \<times> bytes \<Rightarrow> token \<times> bytes \<Rightarrow> match_opts \<Rightarrow> cmd_error + match_opts" where
  "agg_opt t u m =
     (case opt_of (fst t) of
        None \<Rightarrow> Inl (ErrUnexpected (fst t) (snd t))
      | Some op \<Rightarrow>
          (case match_opt (\<lambda>_. ErrFmtAddAgg) op u m of
             None \<Rightarrow> Inl (ErrUnexpected (fst t) (snd t))
           | Some r \<Rightarrow> r))"

definition agg_flag :: "token \<times> bytes \<Rightarrow> token \<times> bytes \<Rightarrow> bool \<times> bool \<Rightarrow> cmd_error + bool \<times> bool" where
  "agg_flag t u st =
     (case st of
        (cache, dropRaw) \<Rightarrow>
          if fst t = TOpt OptCache then set_opt (bool_arg ErrFmtAddAgg u) (\<lambda>b. (b, dropRaw))
          else if fst t = TOpt OptDropRaw then set_opt (bool_arg ErrFmtAddAgg u) (\<lambda>b. (cache, b))
          else Inl (ErrUnexpected (fst t) (snd t)))"

definition readAddAgg :: "cmd_env \<Rightarrow> toks \<Rightarrow> tbl \<Rightarrow> cmd_result" where
  "readAddAgg env ts t =
     (case Next ts of
        (TFn _, name) \<Rightarrow>
          let ts1 = tl ts;
              regex = (if fst (Next ts1) = TWord then snd (Next ts1) else []);
              ts2 = (if fst (Next ts1) = TWord then tl ts1 else ts1)
          in with_arg (opt_loop (\<lambda>k. k = TEOF \<or> k = TWord) agg_opt ts2 (no_match_opts\<lparr>mo_regex := regex\<rparr>)) t (\<lambda>(m, ts3).
               if mo_regex m = [] then cmd_fail (ErrMsg ''need a regex string'') t
               else if fst (Next ts3) \<noteq> TWord then cmd_fail (ErrMsg ''need a format string'') t
               else
                 with_arg (num_arg (ErrMsg ''need an interval number'') (Next (tl ts3))) t (\<lambda>interval.
                 with_arg (num_arg (ErrMsg ''need a wait number'') (Next (tl (tl ts3)))) t (\<lambda>wait.
                 with_arg (opt_loop (\<lambda>k. k = TEOF) agg_flag (tl (tl (tl ts3))) (True, False)) t (\<lambda>((cache, dropRaw), _).
                 with_arg (matcher_of m) t (\<lambda>mt.
                 with_call (agg_New (butlast name) mt (snd (Next ts3)) cache (word_of_int interval) (word_of_int wait)
                              dropRaw (ce_now env)) ErrAgg t (\<lambda>agg.
                 cmd_done (tbl_AddAggregator agg t)))))))
      | _ \<Rightarrow> cmd_fail (ErrMsg ''invalid function. need avg/max/min/sum/last/count/delta/derive/stdev'') t)"

text \<open>\<open>addBlock\<close>\<close>

definition block_opts :: "bytes \<Rightarrow> bytes \<Rightarrow> match_opts option" where
  "block_opts meth v =
     (if meth = ''prefix'' then Some (no_match_opts\<lparr>mo_prefix := v\<rparr>)
      else if meth = ''notPrefix'' then Some (no_match_opts\<lparr>mo_notPrefix := v\<rparr>)
      else if meth = ''sub'' then Some (no_match_opts\<lparr>mo_sub := v\<rparr>)
      else if meth = ''notSub'' then Some (no_match_opts\<lparr>mo_notSub := v\<rparr>)
      else if meth = ''regex'' then Some (no_match_opts\<lparr>mo_regex := v\<rparr>)
      else if meth = ''notRegex'' then Some (no_match_opts\<lparr>mo_notRegex := v\<rparr>)
      else None)"

definition readAddBlock :: "toks \<Rightarrow> tbl \<Rightarrow> cmd_result" where
  "readAddBlock ts t =
     with_arg (word_arg ErrFmtAddBlock (Next ts)) t (\<lambda>meth.
       case block_opts meth (snd (Next (tl ts))) of
         None \<Rightarrow> cmd_fail ErrFmtAddBlock t
       | Some m \<Rightarrow>
           with_arg (word_arg ErrFmtAddBlock (Next (tl ts))) t (\<lambda>_.
           with_arg (matcher_of m) t (\<lambda>mt. cmd_done (tbl_AddBlocklist mt t))))"

subsection \<open>Commands that add routes\<close>

text \<open>The key and the matcher that every \<open>addRoute\<close> begins with.\<close>

definition route_head :: "cmd_error \<Rightarrow> toks \<Rightarrow> cmd_error + (bytes \<times> Matcher \<times> toks)" where
  "route_head err ts =
     bind_result (word_arg err (Next ts)) (\<lambda>key.
     bind_result (readRouteOpts (tl ts)) (\<lambda>(m, ts1).
     bind_result (matcher_of m) (\<lambda>mt. Inr (key, mt, ts1))))"

text \<open>A constructor of a carbon route may not return: the repaired ring may have no free position.\<close>

definition add_carbon :: "Route option outcome \<Rightarrow> tbl \<Rightarrow> 'e result_of" where
  "add_carbon r t =
     (case r of
        Panic p \<Rightarrow> Panic p
      | Ok None \<Rightarrow> Ok None
      | Ok (Some r) \<Rightarrow> cmd_done (tbl_AddRoute (Carbon (r, [])) t))"

definition readAddRoute :: "(bytes \<Rightarrow> Matcher \<Rightarrow> Destination list \<Rightarrow> Route outcome) \<Rightarrow> toks \<Rightarrow> tbl \<Rightarrow> cmd_result" where
  "readAddRoute constructor ts t =
     with_arg (route_head ErrFmtAddRoute ts) t (\<lambda>(key, mt, ts1).
     with_arg (readDestinations (t_SpoolDir t) True key ts1) t (\<lambda>destinations.
       if length destinations = 0 then cmd_fail (ErrMsg (''must get at least 1 destination for route '' @ key)) t
       else add_carbon (map_outcome Some (constructor key mt destinations)) t))"

definition readAddRouteConsistentHashing :: "bool \<Rightarrow> toks \<Rightarrow> tbl \<Rightarrow> cmd_result" where
  "readAddRouteConsistentHashing fixd ts t =
     with_arg (route_head ErrFmtAddRoute ts) t (\<lambda>(key, mt, ts1).
     with_arg (readDestinations (t_SpoolDir t) False key ts1) t (\<lambda>destinations.
       if length destinations < 2 then cmd_fail (ErrMsg (''must get at least 2 destination for route '' @ key)) t
       else add_carbon (NewConsistentHashing key mt destinations fixd) t))"

definition grafana_opt :: "files_env \<Rightarrow> token \<times> bytes \<Rightarrow> token \<times> bytes \<Rightarrow> GrafanaNetConfig \<Rightarrow> cmd_error + GrafanaNetConfig" where
  "grafana_opt fenv t u c =
     (let err = ErrFmtAddRouteGrafanaNet
      in if fst t = TOpt OptAggregationFile then
           bind_result (word_arg err u) (\<lambda>f.
             if aggregations_ok fenv f then Inr (c\<lparr>AggregationFile := f\<rparr>) else Inl ErrReadAggregations)
         else if fst t = TOpt OptBlocking then set_opt (bool_arg err u) (\<lambda>b. c\<lparr>Blocking := b\<rparr>)
         else if fst t = TOpt OptSpool then set_opt (bool_arg err u) (\<lambda>b. c\<lparr>gc_Spool := b\<rparr>)
         else if fst t = TOpt OptSSLVerify then set_opt (bool_arg err u) (\<lambda>b. c\<lparr>SSLVerify := b\<rparr>)
         else if fst t = TOpt OptConcurrency then set_opt (num_arg err u) (\<lambda>i. c\<lparr>Concurrency := i\<rparr>)
         else if fst t = TOpt OptBufSize then set_opt (num_arg err u) (\<lambda>i. c\<lparr>BufSize := i\<rparr>)
         else if fst t = TOpt OptFlushMaxNum then set_opt (num_arg err u) (\<lambda>i. c\<lparr>FlushMaxNum := i\<rparr>)
         else if fst t = TOpt OptFlushMaxWait then set_opt (num_arg err u) (\<lambda>i. c\<lparr>FlushMaxWait := wrap64 (i * 1000000)\<rparr>)
         else if fst t = TOpt OptTimeout then set_opt (num_arg err u) (\<lambda>i. c\<lparr>Timeout := wrap64 (i * 1000000)\<rparr>)
         else if fst t = TOpt OptErrBackoffMin then set_opt (num_arg err u) (\<lambda>i. c\<lparr>ErrBackoffMin := wrap64 (i * 1000000)\<rparr>)
         else if fst t = TOpt OptErrBackoffFactor then
           bind_result (word_arg err u) (\<lambda>v.
             case parse_float (trim_space v) of Inl e \<Rightarrow> Inl (ErrNum e) | Inr x \<Rightarrow> Inr (c\<lparr>ErrBackoffFactor := x\<rparr>))
         else if fst t = TOpt OptOrgId then
           bind_result (num_arg err u) (\<lambda>i. if i < 1 then Inl ErrOrgId0 else Inr (c\<lparr>OrgID := i\<rparr>))
         else Inl (ErrUnexpected (fst t) (snd t)))"

definition readAddRouteGrafanaNet :: "cmd_env \<Rightarrow> toks \<Rightarrow> tbl \<Rightarrow> cmd_result" where
  "readAddRouteGrafanaNet env ts t =
     with_arg (route_head ErrFmtAddRouteGrafanaNet ts) t (\<lambda>(key, mt, ts1).
     with_arg (word_arg ErrFmtAddRouteGrafanaNet (Next ts1)) t (\<lambda>addr.
     with_arg (word_arg ErrFmtAddRouteGrafanaNet (Next (tl ts1))) t (\<lambda>apiKey.
     with_arg (word_arg ErrFmtAddRouteGrafanaNet (Next (tl (tl ts1)))) t (\<lambda>schemasFile.
     with_call (NewGrafanaNetConfig (ce_files env) addr apiKey schemasFile []) (\<lambda>_. ErrFmtAddRouteGrafanaNet) t (\<lambda>cfg0.
     with_arg (opt_loop (\<lambda>k. k = TEOF) (grafana_opt (ce_files env)) (tl (tl (tl ts1))) cfg0) t (\<lambda>(cfg, _).
     with_call (NewGrafanaNet (ce_files env) key mt cfg) ErrGrafana t (\<lambda>g.
     cmd_done (tbl_AddRoute (Grafana g) t))))))))"

definition kafka_opt :: "token \<times> bytes \<Rightarrow> token \<times> bytes \<Rightarrow> KafkaArgs \<Rightarrow> cmd_error + KafkaArgs" where
  "kafka_opt t u a =
     (let err = ErrFmtAddRouteKafkaMdm
      in if fst t = TOpt OptBlocking then set_opt (bool_arg err u) (\<lambda>b. a\<lparr>ka_blocking := b\<rparr>)
         else if fst t = TOpt OptBufSize then set_opt (num_arg err u) (\<lambda>i. a\<lparr>ka_bufSize := i\<rparr>)
         else if fst t = TOpt OptFlushMaxNum then set_opt (num_arg err u) (\<lambda>i. a\<lparr>ka_flushMaxNum := i\<rparr>)
         else if fst t = TOpt OptFlushMaxWait then set_opt (num_arg err u) (\<lambda>i. a\<lparr>ka_flushMaxWait := i\<rparr>)
         else if fst t = TOpt OptTimeout then set_opt (num_arg err u) (\<lambda>i. a\<lparr>ka_timeout := i\<rparr>)
         else if fst t = TOpt OptTLSEnabled then set_opt (bool_arg err u) (\<lambda>b. a\<lparr>ka_tlsEnabled := b\<rparr>)
         else if fst t = TOpt OptTLSSkipVerify then set_opt (bool_arg err u) (\<lambda>b. a\<lparr>ka_tlsSkipVerify := b\<rparr>)
         else if fst t = TOpt OptTLSClientCert then set_opt (word_arg err u) (\<lambda>v. a\<lparr>ka_tlsClientCert := v\<rparr>)
         else if fst t = TOpt OptTLSClientKey then set_opt (word_arg err u) (\<lambda>v. a\<lparr>ka_tlsClientKey := v\<rparr>)
         else if fst t = TOpt OptSASLEnabled then set_opt (bool_arg err u) (\<lambda>b. a\<lparr>ka_saslEnabled := b\<rparr>)
         else if fst t = TOpt OptSASLMechanism then set_opt (word_arg err u) (\<lambda>v. a\<lparr>ka_saslMechanism := v\<rparr>)
         else if fst t = TOpt OptSASLUsername then set_opt (word_arg err u) (\<lambda>v. a\<lparr>ka_saslUsername := v\<rparr>)
         else if fst t = TOpt OptSASLPassword then set_opt (word_arg err u) (\<lambda>v. a\<lparr>ka_saslPassword := v\<rparr>)
         else Inl (ErrUnexpected (fst t) (snd t)))"

text \<open>The arguments of \<open>addRoute kafkaMdm\<close> up to the options.\<close>

definition kafka_args :: "cmd_env \<Rightarrow> bytes \<Rightarrow> Matcher \<Rightarrow> toks \<Rightarrow> cmd_error + (KafkaArgs \<times> toks)" where
  "kafka_args env key mt ts =
     (let err = ErrFmtAddRouteKafkaMdm
      in bind_result (word_arg err (Next ts)) (\<lambda>brokers.
         bind_result (word_arg err (Next (tl ts))) (\<lambda>topic.
         bind_result (word_arg err (Next (tl (tl ts)))) (\<lambda>codec.
         if codec \<noteq> ''none'' \<and> codec \<noteq> ''gzip'' \<and> codec \<noteq> ''snappy'' then Inl err
         else
         bind_result (word_arg err (Next (tl (tl (tl ts))))) (\<lambda>schemasFile.
         bind_result (word_arg err (Next (tl (tl (tl (tl ts)))))) (\<lambda>partitionBy.
         if \<not> partitioner_ok (ce_kafka env) partitionBy then Inl err
         else
         let ts5 = tl (tl (tl (tl (tl ts)))); u = Next ts5
         in if fst u \<noteq> TWord \<and> fst u \<noteq> TNum then Inl err
            else (case atoi (trim_space (snd u)) of
                    Inl _ \<Rightarrow> Inl err
                  | Inr orgId \<Rightarrow>
                      if orgId < 1 then Inl ErrOrgId0
                      else Inr (\<lparr>ka_key = key, ka_matcher = mt, ka_topic = topic, ka_codec = codec,
                             ka_schemasFile = schemasFile, ka_partitionBy = partitionBy,
                             ka_brokers = go_split brokers '','', ka_bufSize = 10000000, ka_orgId = orgId,
                             ka_flushMaxNum = 10000, ka_flushMaxWait = 500, ka_timeout = 2000, ka_blocking = False,
                             ka_tlsEnabled = False, ka_tlsSkipVerify = False, ka_tlsClientCert = [],
                             ka_tlsClientKey = [], ka_saslEnabled = False, ka_saslMechanism = [],
                             ka_saslUsername = [], ka_saslPassword = []\<rparr>, tl ts5))))))))"

definition readAddRouteKafkaMdm :: "cmd_env \<Rightarrow> toks \<Rightarrow> tbl \<Rightarrow> cmd_result" where
  "readAddRouteKafkaMdm env ts t =
     with_arg (route_head ErrFmtAddRouteKafkaMdm ts) t (\<lambda>(key, mt, ts1).
     with_arg (kafka_args env key mt ts1) t (\<lambda>(args, ts2).
     with_arg (opt_loop (\<lambda>k. k = TEOF) kafka_opt ts2 args) t (\<lambda>(args', _).
     with_call (NewKafkaMdm (ce_kafka env) args') ErrSchemas t (\<lambda>k.
     cmd_done (tbl_AddRoute (Kafka k) t)))))"

definition pubsub_opt :: "token \<times> bytes \<Rightarrow> token \<times> bytes \<Rightarrow> PubSubArgs \<Rightarrow> cmd_error + PubSubArgs" where
  "pubsub_opt t u a =
     (let err = ErrFmtAddRoutePubSub
      in if fst t = TOpt OptPubSubCodec then
           bind_result (word_arg err u) (\<lambda>v. if v \<noteq> ''none'' \<and> v \<noteq> ''gzip'' then Inl err else Inr (a\<lparr>pa_codec := v\<rparr>))
         else if fst t = TOpt OptPubSubFormat then
           bind_result (word_arg err u) (\<lambda>v. if v \<noteq> ''plain'' \<and> v \<noteq> ''pickle'' then Inl err else Inr (a\<lparr>pa_format := v\<rparr>))
         else if fst t = TOpt OptBlocking then set_opt (bool_arg err u) (\<lambda>b. a\<lparr>pa_blocking := b\<rparr>)
         else if fst t = TOpt OptBufSize then set_opt (num_arg err u) (\<lambda>i. a\<lparr>pa_bufSize := i\<rparr>)
         else if fst t = TOpt OptPubSubFlushMaxSize then set_opt (num_arg err u) (\<lambda>i. a\<lparr>pa_flushMaxSize := i\<rparr>)
         else if fst t = TOpt OptFlushMaxWait then set_opt (num_arg err u) (\<lambda>i. a\<lparr>pa_flushMaxWait := i\<rparr>)
         else Inl (ErrUnexpected (fst t) (snd t)))"

definition readAddRoutePubSub :: "cmd_env \<Rightarrow> toks \<Rightarrow> tbl \<Rightarrow> cmd_result" where
  "readAddRoutePubSub env ts t =
     with_arg (route_head ErrFmtAddRoutePubSub ts) t (\<lambda>(key, mt, ts1).
     with_arg (word_arg ErrFmtAddRoutePubSub (Next ts1)) t (\<lambda>project.
     with_arg (word_arg ErrFmtAddRoutePubSub (Next (tl ts1))) t (\<lambda>topic.
     with_arg (opt_loop (\<lambda>k. k = TEOF) pubsub_opt (tl (tl ts1))
         \<lparr>pa_key = key, pa_matcher = mt, pa_project = project, pa_topic = topic, pa_format = ''plain'', pa_codec = ''gzip'',
          pa_bufSize = 10000000, pa_flushMaxSize = 10000000 - 4096, pa_flushMaxWait = 1000, pa_blocking = False\<rparr>) t (\<lambda>(args, _).
     case NewPubSub (ce_pubsub env) args of
       Panic p \<Rightarrow> Panic p
     | Ok p \<Rightarrow> cmd_done (tbl_AddRoute (Pubsub p) t)))))"

subsection \<open>Other commands\<close>

definition readAddRewriter :: "toks \<Rightarrow> tbl \<Rightarrow> cmd_result" where
  "readAddRewriter ts t =
     with_arg (word_arg ErrFmtAddRewriter (Next ts)) t (\<lambda>old.
     with_arg (word_arg ErrFmtAddRewriter (Next (tl ts))) t (\<lambda>new.
     let u = Next (tl (tl ts))
     in if fst u \<noteq> TNum \<and> fst u \<noteq> TWord then cmd_fail ErrFmtAddRewriter t
        else (case atoi (trim_space (snd u)) of
                Inl _ \<Rightarrow> cmd_fail ErrFmtAddRewriter t
              | Inr mx \<Rightarrow>
                  (case rewriter_New old new [] mx of
                     Inl e \<Rightarrow> cmd_fail (ErrRewriter e) t
                   | Inr rw \<Rightarrow> cmd_done (tbl_AddRewriter rw t)))))"

definition cmd_methods :: "cmd_env \<Rightarrow> relay_route route_methods" where
  "cmd_methods env = relay_methods (ce_dial env) (ce_flush env)"

definition readDelRoute :: "cmd_env \<Rightarrow> toks \<Rightarrow> tbl \<Rightarrow> cmd_result" where
  "readDelRoute env ts t =
     with_arg (word_arg (ErrMsg ''need route key'') (Next ts)) t (\<lambda>key.
       case tbl_DelRoute (cmd_methods env) key t of
         (t', None) \<Rightarrow> cmd_done t'
       | (t', Some (Panic p)) \<Rightarrow> Panic p
       | (t', Some (Ok None)) \<Rightarrow> Ok None
       | (t', Some (Ok (Some (_, es)))) \<Rightarrow> if es = [] then cmd_done t' else cmd_fail (ErrShutdown es) t')"

text \<open>The options of \<open>modDest\<close> and \<open>modRoute\<close>: a map from names, the last value of a name counts.\<close>

definition opt_name :: "bool \<Rightarrow> opt_token \<Rightarrow> bytes option" where
  "opt_name addr op =
     (if op = OptAddr \<and> addr then Some ''addr''
      else if op = OptPrefix then Some ''prefix''
      else if op = OptNotPrefix then Some ''notPrefix''
      else if op = OptSub then Some ''sub''
      else if op = OptNotSub then Some ''notSub''
      else if op = OptRegex then Some ''regex''
      else if op = OptNotRegex then Some ''notRegex''
      else None)"

definition mod_opt :: "bool \<Rightarrow> token \<times> bytes \<Rightarrow> token \<times> bytes \<Rightarrow> (bytes \<times> bytes) list \<Rightarrow> cmd_error + (bytes \<times> bytes) list" where
  "mod_opt addr t u opts =
     (case (case opt_of (fst t) of None \<Rightarrow> None | Some op \<Rightarrow> opt_name addr op) of
        None \<Rightarrow> Inl ErrFmtModDest
      | Some name \<Rightarrow> set_opt (word_arg ErrFmtModDest u) (\<lambda>v. AList.update name v opts))"

definition table_result :: "(tbl \<times> table_error option) option outcome \<Rightarrow> cmd_result" where
  "table_result = map_outcome (map_option (\<lambda>(t', e). (t', map_option ErrTable e)))"

definition readModDest :: "cmd_env \<Rightarrow> toks \<Rightarrow> tbl \<Rightarrow> cmd_result" where
  "readModDest env ts t =
     with_arg (word_arg ErrFmtAddRoute (Next ts)) t (\<lambda>key.
     with_arg (num_arg ErrFmtAddRoute (Next (tl ts))) t (\<lambda>index.
     with_arg (opt_loop (\<lambda>k. k = TEOF) (mod_opt True) (tl (tl ts)) []) t (\<lambda>(opts, _).
       if length opts = 0 then cmd_fail (ErrMsg ''modDest needs at least 1 option'') t
       else table_result (tbl_UpdateDestination (cmd_methods env) key index (ce_map_order env opts) t))))"

definition readModRoute :: "cmd_env \<Rightarrow> toks \<Rightarrow> tbl \<Rightarrow> cmd_result" where
  "readModRoute env ts t =
     with_arg (word_arg ErrFmtAddRoute (Next ts)) t (\<lambda>key.
     with_arg (opt_loop (\<lambda>k. k = TEOF) (mod_opt False) (tl ts) []) t (\<lambda>(opts, _).
       if length opts = 0 then cmd_fail (ErrMsg ''modRoute needs at least 1 option'') t
       else table_result (UpdateRoute (cmd_methods env) key (ce_map_order env opts) t)))"

definition run_cmd :: "cmd_env \<Rightarrow> cmd_token \<Rightarrow> toks \<Rightarrow> tbl \<Rightarrow> cmd_result" where
  "run_cmd env c ts t =
     (case c of
        AddAgg \<Rightarrow> readAddAgg env ts t
      | AddBlack \<Rightarrow> readAddBlock ts t
      | AddBlock \<Rightarrow> readAddBlock ts t
      | AddDest \<Rightarrow> cmd_fail (ErrMsg ''sorry, addDest is not implemented yet'') t
      | AddRouteSendAllMatch \<Rightarrow> readAddRoute NewSendAllMatch ts t
      | AddRouteSendFirstMatch \<Rightarrow> readAddRoute NewSendFirstMatch ts t
      | AddRouteConsistentHashing \<Rightarrow> readAddRouteConsistentHashing False ts t
      | AddRouteConsistentHashingV2 \<Rightarrow> readAddRouteConsistentHashing True ts t
      | AddRouteGrafanaNet \<Rightarrow> readAddRouteGrafanaNet env ts t
      | AddRouteKafkaMdm \<Rightarrow> readAddRouteKafkaMdm env ts t
      | AddRoutePubSub \<Rightarrow> readAddRoutePubSub env ts t
      | AddRewriter \<Rightarrow> readAddRewriter ts t
      | DelRoute \<Rightarrow> readDelRoute env ts t
      | ModDest \<Rightarrow> readModDest env ts t
      | ModRoute \<Rightarrow> readModRoute env ts t)"

definition Apply :: "cmd_env \<Rightarrow> bytes \<Rightarrow> tbl \<Rightarrow> cmd_result" where
  "Apply env cmd t =
     (let ts = ce_scan env (go_replace cmd ''  '' '' ## '' (- 1))
      in case fst (Next ts) of
           TCmd c \<Rightarrow> run_cmd env c (tl ts) t
         | _ \<Rightarrow> cmd_fail (ErrMsg (''unrecognized command '' @ snd (Next ts))) t)"

end
