(* ===== verification/Cmd_Correct.thy ===== *)
theory Cmd_Correct
  imports Cmd_Imperatives
begin

text \<open>
  Correctness of the commands: what each of them may do to the table, that a failing command changes
  nothing (with its exceptions), and that commands keep the table able to take every line. \<open>post\<close> is
  partial correctness of a command, and \<open>cmd_rules\<close> are its rules, one for each construct of the
  commands.
\<close>

definition post :: "(tbl \<Rightarrow> 'e option \<Rightarrow> bool) \<Rightarrow> 'e result_of \<Rightarrow> bool" where
  "post P r \<longleftrightarrow> (\<forall>t' e. r = Ok (Some (t', e)) \<longrightarrow> P t' e)"

named_theorems cmd_rules "rules for the postconditions of commands"

lemma post_fail [cmd_rules]: "P t (Some e) \<Longrightarrow> post P (cmd_fail e t)"
  by (simp add: post_def cmd_fail_def)

lemma post_done [cmd_rules]: "P t None \<Longrightarrow> post P (cmd_done t)"
  by (simp add: post_def cmd_done_def)

lemma post_panic [cmd_rules]: "post P (Panic p)" "post P (Ok None)"
  by (simp_all add: post_def)

lemma post_arg [cmd_rules]:
  "(\<And>e. P t (Some e)) \<Longrightarrow> (\<And>x. r = Inr x \<Longrightarrow> post P (f x)) \<Longrightarrow> post P (with_arg r t f)"
  by (cases r) (simp_all add: post_fail)

lemma post_call [cmd_rules]:
  "(\<And>e. P t (Some e)) \<Longrightarrow> (\<And>x. r = Ok (Inr x) \<Longrightarrow> post P (f x)) \<Longrightarrow> post P (with_call r err t f)"
  by (cases r) (auto simp: post_fail post_panic split: sum.splits)

text \<open>The effect of a successful addition; without success the table is as it was.\<close>

definition adds :: "(tbl \<Rightarrow> 'a \<Rightarrow> tbl) \<Rightarrow> ('a \<Rightarrow> bool) \<Rightarrow> tbl \<Rightarrow> tbl \<Rightarrow> 'e option \<Rightarrow> bool" where
  "adds add ok t t' e \<longleftrightarrow> (if e = None then \<exists>x. ok x \<and> t' = add t x else t' = t)"

lemma adds_fail [simp]: "adds add ok t t (Some e)"
  by (simp add: adds_def)

lemma adds_done: "ok x \<Longrightarrow> adds add ok t (add t x) None"
  by (auto simp: adds_def)

lemmas adds_component =
  adds_done [where add = "\<lambda>t a. tbl_AddAggregator a t"] adds_done [where add = "\<lambda>t m. tbl_AddBlocklist m t"]
  adds_done [where add = "\<lambda>t rw. tbl_AddRewriter rw t"] adds_done [where add = "\<lambda>t r. tbl_AddRoute r t"]

lemma matcher_of_regex:
  assumes "matcher_of m = Inr mt" and "mo_regex m \<noteq> []"
  shows "iregex mt \<noteq> None"
  using assms
  by (auto simp: matcher_of_def new_matcher_def matcher_New_def updateInternals_def Let_def
      split: if_splits sum.splits prod.splits option.splits)

lemma agg_New_inv:
  assumes "agg_New f m fmt cache interval wait dropRaw now = Ok (Inr a)" and "iregex m \<noteq> None"
  shows "agg_inv a"
proof -
  have n: "NewMocked f m fmt cache interval wait dropRaw = Inr a" "uint interval * 10 ^ 9 \<noteq> 0"
    using assms(1) by (auto simp: agg_New_def AlignedTick_diff_def split: outcome.splits if_splits)
  then have "interval \<noteq> 0" by auto
  with n(1) assms(2) show ?thesis by (rule NewMocked_inv(1))
qed

lemma agg_of_command:
  "matcher_of m = Inr mt \<Longrightarrow> mo_regex m \<noteq> [] \<Longrightarrow>
     agg_New f mt fmt cache interval wait dropRaw now = Ok (Inr a) \<Longrightarrow> agg_inv a"
  by (erule agg_New_inv) (rule matcher_of_regex)

lemma readAddAgg_post: "post (adds (\<lambda>t a. tbl_AddAggregator a t) agg_inv t) (readAddAgg env ts t)"
  unfolding readAddAgg_def Let_def
  by (auto intro!: cmd_rules adds_component elim: agg_of_command split: prod.splits token.splits if_splits)

lemma readAddBlock_post: "post (adds (\<lambda>t m. tbl_AddBlocklist m t) (\<lambda>_. True) t) (readAddBlock ts t)"
  unfolding readAddBlock_def by (auto intro!: cmd_rules adds_component split: option.splits)

lemma readAddRewriter_post: "post (adds (\<lambda>t rw. tbl_AddRewriter rw t) (\<lambda>_. True) t) (readAddRewriter ts t)"
  unfolding readAddRewriter_def Let_def
  by (auto intro!: cmd_rules adds_component split: sum.splits)

text \<open>A new route takes lines, except a GrafanaNet route with a concurrency of zero, or beyond 32 bits.\<close>

definition new_route_ok :: "relay_route \<Rightarrow> bool" where
  "new_route_ok r \<longleftrightarrow>
     (case r of
        Grafana g \<Rightarrow> length (gn_in g) = nat (Concurrency (gn_Cfg g)) \<and> 0 \<le> Concurrency (gn_Cfg g)
      | _ \<Rightarrow> relay_ready r)"

lemma new_carbon_ready:
  "NewSendAllMatch key m ds = Ok r \<Longrightarrow> new_route_ok (Carbon (r, []))"
  "NewSendFirstMatch key m ds = Ok r \<Longrightarrow> new_route_ok (Carbon (r, []))"
  "NewConsistentHashing key m ds fixd = Ok (Some r) \<Longrightarrow> ds \<noteq> [] \<Longrightarrow> new_route_ok (Carbon (r, []))"
  by (auto dest!: run_dests_length simp: NewSendAllMatch_def NewSendFirstMatch_def NewConsistentHashing_def new_route_ok_def carbon_ready_def
      route_ready_def route_wf_def NewConsistentHasher_100 split: outcome.splits option.splits)

lemma add_carbon_post [cmd_rules]:
  "(\<And>x. r = Ok (Some x) \<Longrightarrow> new_route_ok (Carbon (x, []))) \<Longrightarrow>
     post (adds (\<lambda>t r. tbl_AddRoute r t) new_route_ok t) (add_carbon r t)"
  by (auto simp: add_carbon_def intro!: cmd_rules adds_component split: outcome.splits option.splits)

lemma readAddRoute_post:
  assumes "\<And>key m ds r. constructor key m ds = Ok r \<Longrightarrow> new_route_ok (Carbon (r, []))"
  shows "post (adds (\<lambda>t r. tbl_AddRoute r t) new_route_ok t) (readAddRoute constructor ts t)"
  unfolding readAddRoute_def by (auto intro!: cmd_rules) (rule assms)

lemma readAddRouteConsistentHashing_post:
  "post (adds (\<lambda>t r. tbl_AddRoute r t) new_route_ok t) (readAddRouteConsistentHashing fixd ts t)"
  unfolding readAddRouteConsistentHashing_def by (auto intro!: cmd_rules elim!: new_carbon_ready(3))

lemma NewGrafanaNet_new:
  assumes "NewGrafanaNet fenv key m cfg = Ok (Inr g)"
  shows "new_route_ok (Grafana g)"
proof -
  have "net_inv (\<lambda>_. True) (\<lambda>_. []) g" "gn_Cfg g = cfg"
    using NewGrafanaNet_ok [OF assms, of "\<lambda>_. True"] by simp_all
  moreover have "0 \<le> Concurrency cfg"
    using assms by (auto simp: NewGrafanaNet_def split: if_splits)
  ultimately show ?thesis by (simp add: new_route_ok_def net_inv_def)
qed

lemma readAddRouteGrafanaNet_post:
  "post (adds (\<lambda>t r. tbl_AddRoute r t) new_route_ok t) (readAddRouteGrafanaNet env ts t)"
  unfolding readAddRouteGrafanaNet_def by (auto intro!: cmd_rules adds_component intro: NewGrafanaNet_new)

lemma readAddRouteKafkaMdm_post:
  "post (adds (\<lambda>t r. tbl_AddRoute r t) new_route_ok t) (readAddRouteKafkaMdm env ts t)"
proof -
  have "new_route_ok (Kafka k)" if "NewKafkaMdm kenv args = Ok (Inr k)" for kenv args k
    using that by (auto simp: NewKafkaMdm_def new_route_ok_def fatal_def split: if_splits)
  then show ?thesis
    unfolding readAddRouteKafkaMdm_def by (auto intro!: cmd_rules adds_component)
qed

lemma readAddRoutePubSub_post:
  "post (adds (\<lambda>t r. tbl_AddRoute r t) new_route_ok t) (readAddRoutePubSub env ts t)"
proof -
  have "new_route_ok (Pubsub p)" if "NewPubSub penv args = Ok p" for penv args p
    using that by (auto simp: NewPubSub_def new_route_ok_def split: if_splits option.splits)
  then show ?thesis
    unfolding readAddRoutePubSub_def by (auto intro!: cmd_rules adds_component split: outcome.splits)
qed

subsection \<open>Deletions and changes\<close>

text \<open>A route after a change: it is as ready for lines as before, and has its key.\<close>

definition changed_ok :: "relay_route \<Rightarrow> relay_route \<Rightarrow> bool" where
  "changed_ok r r' \<longleftrightarrow> (relay_ready r \<longrightarrow> relay_ready r') \<and> (new_route_ok r \<longrightarrow> new_route_ok r') \<and> relay_Key r' = relay_Key r"

lemma carbon_Update_ready:
  assumes "rt_Update opts r = Some (r', e)" and "route_ready r"
  shows "route_ready r'"
  using assms extend_wf
  by (auto simp: rt_Update_def route_ready_def split: sum.splits if_splits option.splits prod.splits)

lemma carbon_UpdateDestination_ready:
  assumes "rt_UpdateDestination dial i opts r = Ok (Some (r', e))" and "route_ready r"
  shows "route_ready r'"
proof -
  have dests: "route_ready (r\<lparr>rt_Dests := (rt_Dests r)[nat i := d]\<rparr>)" for d
    using assms(2) by (cases "rt_kind r") (auto simp: route_ready_def route_wf_def)
  from assms show ?thesis
    using extend_wf dests
    by (auto simp: rt_UpdateDestination_def Let_def route_ready_def split: outcome.splits if_splits option.splits prod.splits)
qed

lemma Update_changed: "m_Update (relay_methods dial flush) opts r = Some (r', e) \<Longrightarrow> changed_ok r r'"
  using relay.Update_key [of dial flush opts r r' e]
  by (cases r) (auto simp: changed_ok_def relay_methods_def new_route_ok_def carbon_ready_def
      split: prod.splits dest: carbon_Update_ready)

lemma UpdateDestination_changed:
  "m_UpdateDestination (relay_methods dial flush) i opts r = Ok (Some (r', e)) \<Longrightarrow> changed_ok r r'"
  using relay.UpdateDestination_key [of dial flush i opts r r' e]
  by (cases r) (auto simp: changed_ok_def relay_methods_def on_carbon_def no_destination_def new_route_ok_def
      carbon_ready_def carbon_methods_def split: if_splits outcome.splits option.splits dest: carbon_UpdateDestination_ready)

text \<open>The routes of a table after an operation on the route of a key.\<close>

definition routes_changed :: "bytes \<Rightarrow> tbl \<Rightarrow> tbl \<Rightarrow> bool" where
  "routes_changed key t t' \<longleftrightarrow>
     (\<exists>rs. t' = t\<lparr>t_config := (t_config t)\<lparr>routes := rs\<rparr>\<rparr> \<and> length rs = length (routes (t_config t)) \<and>
        (\<forall>i < length rs. changed_ok (routes (t_config t) ! i) (rs ! i) \<and>
           (relay_Key (rs ! i) \<noteq> key \<longrightarrow> rs ! i = routes (t_config t) ! i)))"

lemma changed_ok_refl [simp]: "changed_ok r r"
  by (simp add: changed_ok_def)

lemma routes_changed_refl: "routes_changed key t t"
  by (auto simp: routes_changed_def intro!: exI [of _ "routes (t_config t)"])

lemma on_route_changed:
  assumes "on_route (relay_methods dial flush) key f t = Ok (Some (t', e))"
    and "\<And>r r' e. f r = Ok (Some (r', e)) \<Longrightarrow> changed_ok r r'"
  shows "routes_changed key t t'"
proof (cases "GetRoute (relay_methods dial flush) key t")
  case None
  then show ?thesis using assms(1) by (simp add: on_route_def routes_changed_refl)
next
  case (Some r)
  then obtain r' e' where f: "f r = Ok (Some (r', e'))" "t' = put_route (relay_methods dial flush) key r' t"
    using assms(1) by (auto simp: on_route_def split: outcome.splits option.splits)
  let ?k = "m_Key (relay_methods dial flush)"
  obtain i where i: "find_index (\<lambda>r. ?k r = key) (routes (t_config t)) = Some i" "r = routes (t_config t) ! i"
    using Some by (auto simp: GetRoute_def find_find_index split: option.splits)
  from find_index_SomeD [OF i(1)] have "i < length (routes (t_config t))" "relay_Key r = key"
    using i(2) by (auto simp: relay_methods_def)
  moreover have "changed_ok r r'" by (rule assms(2) [OF f(1)])
  ultimately show ?thesis
    using f(2) i
    by (auto simp: routes_changed_def put_route_def nth_list_update changed_ok_def
        intro!: exI [of _ "(routes (t_config t))[i := r']"])
qed

lemma table_result_post [cmd_rules]:
  "(\<And>t' e. r = Ok (Some (t', e)) \<Longrightarrow> P t' (map_option ErrTable e)) \<Longrightarrow> post P (table_result r)"
  by (auto simp: post_def table_result_def split: option.splits)

lemma some_route_unchanged: "\<exists>key. routes_changed key t t"
  using routes_changed_refl by blast

lemma UpdateDestination_routes:
  assumes "on_route (relay_methods dial flush) key (m_UpdateDestination (relay_methods dial flush) i opts) t = Ok (Some (t', e))"
  shows "\<exists>key. routes_changed key t t'"
proof -
  have "routes_changed key t t'"
    by (rule on_route_changed [OF assms]) (rule UpdateDestination_changed)
  then show ?thesis by blast
qed

lemma Update_routes:
  assumes "on_route (relay_methods dial flush) key (\<lambda>r. Ok (m_Update (relay_methods dial flush) opts r)) t = Ok (Some (t', e))"
  shows "\<exists>key. routes_changed key t t'"
proof -
  have "routes_changed key t t'"
    by (rule on_route_changed [OF assms]) (auto intro: Update_changed)
  then show ?thesis by blast
qed

lemma readModDest_post: "post (\<lambda>t' e. \<exists>key. routes_changed key t t') (readModDest env ts t)"
  unfolding readModDest_def tbl_UpdateDestination_def cmd_methods_def
  by (auto intro!: cmd_rules some_route_unchanged elim: UpdateDestination_routes)

lemma readModRoute_post: "post (\<lambda>t' e. \<exists>key. routes_changed key t t') (readModRoute env ts t)"
  unfolding readModRoute_def UpdateRoute_def cmd_methods_def
  by (auto intro!: cmd_rules some_route_unchanged elim: Update_routes)

text \<open>The deletion of a route.\<close>

lemma readDelRoute_post:
  "post (\<lambda>t' e. t' = t \<or> (\<exists>key. t' = fst (tbl_DelRoute (cmd_methods env) key t))) (readDelRoute env ts t)"
  unfolding readDelRoute_def
  by (auto intro!: cmd_rules split: prod.splits option.splits outcome.splits) (metis fst_conv)+

subsection \<open>What every command does\<close>

text \<open>The specification of the commands: what may be added, changed or deleted, and that anything else,
  and a command that fails, leaves the table as it is.\<close>

definition effect :: "cmd_env \<Rightarrow> token \<Rightarrow> tbl \<Rightarrow> tbl \<Rightarrow> cmd_error option \<Rightarrow> bool" where
  "effect env tok t t' e =
     (case tok of
        TCmd c \<Rightarrow>
          (case c of
             AddAgg \<Rightarrow> adds (\<lambda>t a. tbl_AddAggregator a t) agg_inv t t' e
           | AddBlack \<Rightarrow> adds (\<lambda>t m. tbl_AddBlocklist m t) (\<lambda>_. True) t t' e
           | AddBlock \<Rightarrow> adds (\<lambda>t m. tbl_AddBlocklist m t) (\<lambda>_. True) t t' e
           | AddRewriter \<Rightarrow> adds (\<lambda>t rw. tbl_AddRewriter rw t) (\<lambda>_. True) t t' e
           | AddDest \<Rightarrow> t' = t \<and> e \<noteq> None
           | DelRoute \<Rightarrow> t' = t \<or> (\<exists>key. t' = fst (tbl_DelRoute (cmd_methods env) key t))
           | ModDest \<Rightarrow> \<exists>key. routes_changed key t t'
           | ModRoute \<Rightarrow> \<exists>key. routes_changed key t t'
           | _ \<Rightarrow> adds (\<lambda>t r. tbl_AddRoute r t) new_route_ok t t' e)
      | _ \<Rightarrow> t' = t \<and> e \<noteq> None)"

definition cmd_tokens :: "cmd_env \<Rightarrow> bytes \<Rightarrow> toks" where
  "cmd_tokens env cmd = ce_scan env (go_replace cmd ''  '' '' ## '' (- 1))"

lemma run_cmd_post: "post (effect env (TCmd c) t) (run_cmd env c ts t)"
proof (cases c)
  case AddDest
  then show ?thesis by (simp add: run_cmd_def effect_def post_def cmd_fail_def)
qed (use readAddAgg_post readAddBlock_post readAddRewriter_post readAddRouteGrafanaNet_post readAddRouteKafkaMdm_post
      readAddRoutePubSub_post readAddRouteConsistentHashing_post readDelRoute_post readModDest_post readModRoute_post
      readAddRoute_post [of NewSendAllMatch] readAddRoute_post [of NewSendFirstMatch] new_carbon_ready
    in \<open>simp_all add: run_cmd_def effect_def [abs_def]\<close>)

lemma Apply_effect:
  assumes "Apply env cmd t = Ok (Some (t', e))"
  shows "effect env (fst (Next (cmd_tokens env cmd))) t t' e"
proof (cases "fst (Next (cmd_tokens env cmd))")
  case (TCmd c)
  then show ?thesis
    using assms run_cmd_post [of env c t "tl (cmd_tokens env cmd)"]
    by (simp add: Apply_def cmd_tokens_def Let_def post_def)
qed (use assms in \<open>auto simp: Apply_def cmd_tokens_def Let_def effect_def cmd_fail_def\<close>)

subsection \<open>Properties\<close>


definition example_scan :: "bytes \<Rightarrow> toks" where
  "example_scan s =
     (if s = ''addBlock prefix foo'' then [(TCmd AddBlock, ''addBlock''), (TWord, ''prefix''), (TWord, ''foo'')]
      else if s = ''addRoute sendAllMatch r ## h:1'' then
        [(TCmd AddRouteSendAllMatch, ''addRoute sendAllMatch''), (TWord, ''r''), (TSep, ''##''), (TWord, ''h:1'')]
      else if s = ''addAgg sum x y 0 5'' then
        [(TCmd AddAgg, ''addAgg''), (TFn SumFn, ''sum ''), (TWord, ''x''), (TWord, ''y''), (TNum, ''0 ''), (TNum, ''5'')]
      else [])"

definition example_cmd_env :: cmd_env where
  "example_cmd_env = \<lparr>ce_scan = example_scan, ce_now = 100, ce_map_order = (\<lambda>opts. opts), ce_files = example_env,
     ce_kafka = example_kafka_env, ce_pubsub = \<lparr>client_ok = True, topic_exists = Some True\<rparr>,
     ce_dial = (\<lambda>_. None), ce_flush = (\<lambda>_. None)\<rparr>"

lemma example_addBlock:
  "Apply example_cmd_env ''addBlock prefix foo'' (relay_table [] []) =
     Ok (Some (relay_table [prefix_matcher ''foo''] [], None))"
proof -
  have "go_replace ''addBlock prefix foo'' ''  '' '' ## '' (- 1) = ''addBlock prefix foo''" by code_simp
  moreover have "matcher_of (no_match_opts\<lparr>mo_prefix := ''foo''\<rparr>) = Inr (prefix_matcher ''foo'')"
    by (simp add: matcher_of_def new_matcher_def no_match_opts_def prefix_matcher_def matcher_New_def updateInternals_def)
  ultimately show ?thesis
    by (simp add: Apply_def example_cmd_env_def example_scan_def run_cmd_def readAddBlock_def word_arg_def
        block_opts_def cmd_done_def tbl_AddBlocklist_def relay_table_def table_New_def)
qed


text \<open>An \<open>addAgg\<close> with an interval of zero ends the process: the ticker divides by it.\<close>

theorem zero_interval_panics:
  "Apply example_cmd_env ''addAgg sum x y 0 5'' t = Panic DivisionByZero"
proof -
  have "go_replace ''addAgg sum x y 0 5'' ''  '' '' ## '' (- 1) = ''addAgg sum x y 0 5''" by code_simp
  moreover have "num_arg e (TNum, ''0 '') = Inr 0" "num_arg e (TNum, ''5'') = Inr 5" for e
    by (simp_all add: num_arg_def) (code_simp, code_simp)
  moreover have "\<exists>m. matcher_of (no_match_opts\<lparr>mo_regex := ''x''\<rparr>) = Inr m"
  proof -
    have "case matcher_of (no_match_opts\<lparr>mo_regex := ''x''\<rparr>) of Inr _ \<Rightarrow> True | _ \<Rightarrow> False" by code_simp
    then show ?thesis by (auto split: sum.splits)
  qed
  ultimately show ?thesis
    by (auto simp: Apply_def example_cmd_env_def example_scan_def run_cmd_def readAddAgg_def
        no_match_opts_def agg_New_def AlignedTick_diff_def)
qed

text \<open>\<open>delRoute\<close> on a GrafanaNet route takes it out of the table but never returns.\<close>

theorem deletion_of_grafana_route_hangs:
  assumes "fst (Next ts) = TWord" and "GetRoute (cmd_methods env) (snd (Next ts)) t = Some (Grafana g)" and "gn_wg g \<noteq> 0"
  shows "readDelRoute env ts t = Ok None"
proof -
  obtain t' where "tbl_DelRoute (cmd_methods env) (snd (Next ts)) t = (t', Some (Ok None))"
    using assms(2,3)
    by (auto simp: tbl_DelRoute_def Let_def GetRoute_def find_find_index cmd_methods_def relay_methods_def
        shutdown_returns_def split: option.splits)
  then show ?thesis using assms(1) by (simp add: readDelRoute_def word_arg_def)
qed

theorem deletion_of_grafana_route_hangs_witness:
  "\<exists>g. readDelRoute example_cmd_env [(TWord, ''r'')] (tbl_AddRoute (Grafana g) (relay_table [] [])) = Ok None"
proof -
  obtain g where g: "NewGrafanaNet example_env ''r'' (fst (matcher_New [] [] [] [] [] [])) example_cfg = Ok (Inr g)"
    using example_net by blast
  have wg: "gn_wg g \<noteq> 0" using NewGrafanaNet_ok [OF g, of "\<lambda>_. True"] by (simp add: example_cfg_simps)
  have "gn_key g = ''r''" using g by (auto simp: NewGrafanaNet_def split: if_splits)
  then have "GetRoute (cmd_methods example_cmd_env) (snd (Next [(TWord, ''r'')])) (tbl_AddRoute (Grafana g) (relay_table [] [])) =
      Some (Grafana g)"
    by (simp add: GetRoute_def tbl_AddRoute_def relay_table_def table_New_def cmd_methods_def relay_methods_def)
  from deletion_of_grafana_route_hangs [OF _ this wg] show ?thesis by auto
qed

end
