(* ===== verification/Table_View.thy ===== *)
theory Table_View
  imports Cmd_Imperatives
begin

text \<open>
  \<^verbatim>\<open>table/table.go\<close>: what the operator sees of the table, \<open>Snapshot\<close> and \<open>Print\<close>.

  \<^item> An aggregator is asked for its snapshot through a channel that its goroutine serves; after its shutdown nobody
    answers, so that \<open>Snapshot\<close> does not return: \<open>None\<close>.
  \<^item> \<open>Print\<close> first takes the widths of the columns and then formats the rows with them. The widths are in bytes, the
    padding of \<open>fmt\<close> is in runes; the texts are UTF-8.
\<close>

subsection \<open>Snapshot\<close>

record agg_view =
  av_Fun :: bytes
  av_Matcher :: Matcher
  av_OutFmt :: bytes
  av_Cache :: bool
  av_Interval :: uint64
  av_Wait :: uint64
  av_DropRaw :: bool
  av_aggregations :: "(uint64 \<times> uint32 \<times> bytes list) list"
  av_Key :: bytes

type_synonym dest_view = "Matcher \<times> bytes \<times> bytes \<times> bool \<times> bool \<times> bool \<times> bytes"

record route_view =
  rv_Matcher :: Matcher
  rv_Dests :: "dest_view list"
  rv_Type :: bytes
  rv_Key :: bytes
  rv_Addr :: bytes

record TableSnapshot =
  ts_Rewriters :: "RW list"
  ts_Aggregators :: "agg_view list"
  ts_Blocklist :: "Matcher list"
  ts_Routes :: "route_view list"
  ts_SpoolDir :: bytes

definition agg_Snapshot :: "Aggregator \<Rightarrow> agg_view option" where
  "agg_Snapshot a =
     (if a_running a
      then Some \<lparr>av_Fun = Fun a, av_Matcher = a_Matcher a, av_OutFmt = outFmt a, av_Cache = (reCache a \<noteq> None),
                 av_Interval = Interval a, av_Wait = Wait a, av_DropRaw = DropRaw a, av_aggregations = Snapshot a,
                 av_Key = a_Key a\<rparr>
      else None)"

definition base_Snapshot :: "Matcher \<Rightarrow> bytes \<Rightarrow> bytes \<Rightarrow> route_view" where
  "base_Snapshot m typ key = \<lparr>rv_Matcher = m, rv_Dests = [], rv_Type = typ, rv_Key = key, rv_Addr = []\<rparr>"

fun relay_Snapshot :: "relay_route \<Rightarrow> route_view" where
  "relay_Snapshot (Carbon c) =
     (case rt_Snapshot (fst c) of
        (m, ds, typ, key) \<Rightarrow> \<lparr>rv_Matcher = m, rv_Dests = ds, rv_Type = typ, rv_Key = key, rv_Addr = []\<rparr>)"
| "relay_Snapshot (Grafana g) = (base_Snapshot (gn_Matcher g) ''GrafanaNet'' (gn_key g))\<lparr>rv_Addr := gc_Addr (gn_Cfg g)\<rparr>"
| "relay_Snapshot (Kafka k) = base_Snapshot (k_Matcher k) ''KafkaMdm'' (k_key k)"
| "relay_Snapshot (Pubsub p) = base_Snapshot (p_Matcher p) ''pubsub'' (p_key p)"
| "relay_Snapshot (Cloudwatch w) = base_Snapshot (w_Matcher w) ''CloudWatch'' (w_key w)"

definition tbl_Snapshot :: "tbl \<Rightarrow> TableSnapshot option" where
  "tbl_Snapshot t =
     map_option (\<lambda>aggs. \<lparr>ts_Rewriters = rewriters (t_config t), ts_Aggregators = aggs, ts_Blocklist = blocklist (t_config t),
                 ts_Routes = map relay_Snapshot (routes (t_config t)), ts_SpoolDir = t_SpoolDir t\<rparr>)
       (those (map agg_Snapshot (aggregators (t_config t))))"

subsection \<open>Rows and columns\<close>

definition rune_count :: "bytes \<Rightarrow> nat" where
  "rune_count s = length (filter (\<lambda>c. (of_char c :: nat) div 64 \<noteq> 2) s)"

text \<open>\<^verbatim>\<open>%-Ns\<close>\<close>

definition pad :: "nat \<Rightarrow> bytes \<Rightarrow> bytes" where
  "pad n s = s @ replicate (n - rune_count s) CHR '' ''"

definition newline :: bytes where
  "newline = [CHR 0x0A]"

definition row :: "nat list \<Rightarrow> bytes list \<Rightarrow> bytes" where
  "row ws cells = go_join (map2 pad ws cells) ''  '' @ newline"

text \<open>The loop over the rows, which raises the widths of all columns.\<close>

fun widths :: "nat list \<Rightarrow> bytes list list \<Rightarrow> nat list" where
  "widths ws [] = ws"
| "widths ws (cells # rows) = widths (map2 (\<lambda>w c. max w (length c)) ws cells) rows"

definition underscore :: "nat \<Rightarrow> bytes" where
  "underscore n = replicate n CHR ''='' @ newline"

definition bool_text :: "bool \<Rightarrow> bytes" where
  "bool_text b = (if b then ''true'' else ''false'')"

definition uint_text :: "uint64 \<Rightarrow> bytes" where
  "uint_text i = format_nat (unat i)"

definition matcher_cells :: "Matcher \<Rightarrow> bytes list" where
  "matcher_cells m = [Prefix m, NotPrefix m, Sub m, NotSub m, Regex m, NotRegex m]"

definition matcher_titles :: "bytes list" where
  "matcher_titles = [''prefix'', ''notPrefix'', ''sub'', ''notSub'', ''regex'', ''notRegex'']"

subsection \<open>The sections\<close>

definition rewriter_cells :: "RW \<Rightarrow> bytes list" where
  "rewriter_cells rw = [Old rw, New rw, Not rw, format_int (RW.Max rw)]"

definition rewriter_widths :: "TableSnapshot \<Rightarrow> nat list" where
  "rewriter_widths t = widths [3, 3, 3, 3] (map rewriter_cells (ts_Rewriters t))"

definition rewriter_titles :: "bytes list" where
  "rewriter_titles = [''old'', ''new'', ''not'', ''max'']"

definition block_widths :: "TableSnapshot \<Rightarrow> nat list" where
  "block_widths t = widths [6, 9, 3, 6, 5, 8] (map matcher_cells (ts_Blocklist t))"

text \<open>The cells of an aggregation: those in front of the boolean, and the interval and the wait after it.\<close>

definition agg_cells :: "agg_view \<Rightarrow> bytes list" where
  "agg_cells a =
     (let m = av_Matcher a
      in [av_Key a, av_Fun a, Regex m, NotRegex m, Prefix m, NotPrefix m, Sub m, NotSub m, av_OutFmt a])"

definition agg_numbers :: "agg_view \<Rightarrow> bytes list" where
  "agg_numbers a = [uint_text (av_Interval a), uint_text (av_Wait a)]"

definition agg_widths :: "TableSnapshot \<Rightarrow> nat list" where
  "agg_widths t = widths [4, 4, 5, 8, 6, 9, 3, 6, 6] (map agg_cells (ts_Aggregators t)) @ [5] @
     widths [8, 4] (map agg_numbers (ts_Aggregators t))"

definition agg_titles :: "bytes list" where
  "agg_titles = [''key'', ''func'', ''regex'', ''notRegex'', ''prefix'', ''notPrefix'', ''sub'', ''notSub'', ''outFmt'',
     ''cache'', ''interval'', ''wait'']"

text \<open>In front of the last column there is one space only.\<close>

definition agg_line :: "TableSnapshot \<Rightarrow> bytes list \<Rightarrow> bytes \<Rightarrow> bytes" where
  "agg_line t cells dropRaw = go_join (map2 pad (agg_widths t) cells) ''  '' @ '' '' @ pad 7 dropRaw @ newline"

definition agg_row :: "TableSnapshot \<Rightarrow> agg_view \<Rightarrow> bytes" where
  "agg_row t a = agg_line t (agg_cells a @ [bool_text (av_Cache a)] @ agg_numbers a) (bool_text (av_DropRaw a))"

definition route_cells :: "route_view \<Rightarrow> bytes list" where
  "route_cells r = [rv_Type r, rv_Key r] @ matcher_cells (rv_Matcher r)"

definition route_widths :: "TableSnapshot \<Rightarrow> nat list" where
  "route_widths t = widths [4, 3, 6, 9, 3, 6, 5, 8] (map route_cells (ts_Routes t))"

definition route_header :: "TableSnapshot \<Rightarrow> bytes" where
  "route_header t = ''  '' @ row (route_widths t) ([''type'', ''key''] @ matcher_titles)"

definition route_row :: "TableSnapshot \<Rightarrow> route_view \<Rightarrow> bytes" where
  "route_row t r = ''> '' @ row (route_widths t) (route_cells r)"

definition dest_cells :: "dest_view \<Rightarrow> bytes list" where
  "dest_cells d = (case d of (m, addr, spoolDir, _) \<Rightarrow> matcher_cells m @ [addr, spoolDir])"

definition dest_flags :: "dest_view \<Rightarrow> bytes list" where
  "dest_flags d = (case d of (m, addr, spoolDir, spool, pickle, online, key) \<Rightarrow> map bool_text [spool, pickle, online])"

definition dest_widths :: "TableSnapshot \<Rightarrow> nat list" where
  "dest_widths t = widths [6, 9, 3, 6, 5, 8, 16, 16] (map dest_cells (concat (map rv_Dests (ts_Routes t)))) @ [5, 6, 6]"

definition dest_header :: "TableSnapshot \<Rightarrow> bytes" where
  "dest_header t = row (dest_widths t) (matcher_titles @ [''addr'', ''spoolDir'', ''spool'', ''pickle'', ''online''])"

definition dest_row :: "TableSnapshot \<Rightarrow> dest_view \<Rightarrow> bytes" where
  "dest_row t d = row (dest_widths t) (dest_cells d @ dest_flags d)"

definition divider :: "TableSnapshot \<Rightarrow> bytes" where
  "divider t = ''  '' @ replicate (max (length (route_header t) - 2) (length (dest_header t)) - 1) CHR ''-'' @ newline"

definition route_text :: "TableSnapshot \<Rightarrow> route_view \<Rightarrow> bytes" where
  "route_text t r =
     route_row t r @
     (if rv_Type r = ''GrafanaNet'' then ''  '' @ rv_Addr r @ newline
      else if length (rv_Dests r) < 1 then []
      else ''  '' @ dest_header t @ divider t @ concat (map (\<lambda>d. ''  '' @ dest_row t d) (rv_Dests r)) @ newline)"

definition snapshot_text :: "TableSnapshot \<Rightarrow> bytes" where
  "snapshot_text t =
     newline @ ''## Rewriters:'' @ newline @
     (let cols = row (rewriter_widths t) rewriter_titles
      in cols @ underscore (length cols - 1) @
         concat (map (\<lambda>rw. row (rewriter_widths t) (rewriter_cells rw)) (ts_Rewriters t))) @
     newline @ ''## Blocklist:'' @ newline @
     (let cols = row (block_widths t) matcher_titles
      in cols @ underscore (length cols - 1) @ concat (map (\<lambda>m. row (block_widths t) (matcher_cells m)) (ts_Blocklist t))) @
     newline @ ''## Aggregations:'' @ newline @
     (let cols = agg_line t agg_titles ''dropRaw''
      in cols @ underscore (length cols - 1) @ concat (map (agg_row t) (ts_Aggregators t))) @
     newline @ ''## Routes:'' @ newline @
     route_header t @ underscore (max (length (route_header t)) (length (dest_header t) + 2) - 1) @
     concat (map (route_text t) (ts_Routes t))"

definition Print :: "tbl \<Rightarrow> bytes option" where
  "Print t = map_option snapshot_text (tbl_Snapshot t)"

subsection \<open>The columns are wide enough\<close>

abbreviation fits :: "nat list \<Rightarrow> bytes list \<Rightarrow> bool" where
  "fits \<equiv> list_all2 (\<lambda>w c. length c \<le> w)"

lemma rune_count_append [simp]: "rune_count (s @ s') = rune_count s + rune_count s'"
  by (simp add: rune_count_def)

lemma rune_count_replicate [simp]: "rune_count (replicate n CHR '' '') = n"
  by (simp add: rune_count_def)

lemma rune_count_spaces [simp]: "rune_count [] = 0" "rune_count '' '' = 1" "rune_count ''  '' = 2"
  "rune_count (CHR '' '' # s) = rune_count s + 1" "rune_count (CHR ''>'' # s) = rune_count s + 1"
  by (simp_all add: rune_count_def)

lemma rune_count_le: "rune_count s \<le> length s"
  by (simp add: rune_count_def)

lemma rune_count_pad: "length s \<le> n \<Longrightarrow> rune_count (pad n s) = n"
  using rune_count_le [of s] by (simp add: pad_def)

lemma widths_fit:
  assumes "\<forall>cells \<in> set rows. length cells = length ws"
  shows "length (widths ws rows) = length ws \<and> list_all2 (\<le>) ws (widths ws rows) \<and>
    (\<forall>cells \<in> set rows. fits (widths ws rows) cells)"
  using assms
proof (induction ws rows rule: widths.induct)
  case (2 ws cells rows)
  let ?ws = "map2 (\<lambda>w c. max w (length c)) ws cells"
  have len: "length cells = length ws" using "2.prems" by simp
  have ih: "length (widths ?ws rows) = length ws" "list_all2 (\<le>) ?ws (widths ?ws rows)"
    "\<forall>cells \<in> set rows. fits (widths ?ws rows) cells"
    using "2.IH" "2.prems" len by simp_all
  have "list_all2 (\<le>) ws (widths ?ws rows)" "fits (widths ?ws rows) cells"
    using ih(1,2) len by (auto simp: list_all2_conv_all_nth)
  with ih show ?case by simp
qed (simp add: list_all2_refl)

lemma fits_title: "fits ws cells \<Longrightarrow> list_all2 (\<le>) ws ws' \<Longrightarrow> fits ws' cells"
  by (fastforce simp: list_all2_conv_all_nth intro: le_trans)

lemma map_rune_count_pad: "fits ws cells \<Longrightarrow> map rune_count (map2 pad ws cells) = ws"
  by (induction rule: list_all2_induct) (simp_all add: rune_count_pad)

lemma rune_count_join: "rune_count (go_join xs sep) = sum_list (map rune_count xs) + rune_count sep * (length xs - 1)"
  by (induction xs sep rule: go_join.induct) (simp_all add: rune_count_def algebra_simps)

definition line_width :: "nat list \<Rightarrow> nat" where
  "line_width ws = sum_list ws + 2 * (length ws - 1)"

lemma rune_count_line: "fits ws cells \<Longrightarrow> rune_count (go_join (map2 pad ws cells) ''  '') = line_width ws"
  by (simp add: rune_count_join map_rune_count_pad line_width_def list_all2_lengthD del: map_map)

subsection \<open>Reading a row by its columns\<close>

fun columns :: "nat list \<Rightarrow> bytes \<Rightarrow> bytes list" where
  "columns [] s = []"
| "columns (w # ws) s = take w s # columns ws (drop (w + 2) s)"

definition rstrip :: "bytes \<Rightarrow> bytes" where
  "rstrip s = rev (dropWhile (\<lambda>c. c = CHR '' '') (rev s))"

definition read_row :: "nat list \<Rightarrow> bytes \<Rightarrow> bytes list" where
  "read_row ws s = map rstrip (columns ws s)"

definition plain_cell :: "bytes \<Rightarrow> bool" where
  "plain_cell c \<longleftrightarrow> rune_count c = length c \<and> (c = [] \<or> last c \<noteq> CHR '' '')"

lemma length_pad: "plain_cell c \<Longrightarrow> length c \<le> n \<Longrightarrow> length (pad n c) = n"
  by (simp add: pad_def plain_cell_def)

lemma rstrip_pad: "plain_cell c \<Longrightarrow> rstrip (pad n c) = c"
  by (cases c rule: rev_cases) (auto simp: rstrip_def pad_def plain_cell_def dropWhile_append)

lemma columns_line:
  "fits ws cells \<Longrightarrow> list_all plain_cell cells \<Longrightarrow>
     columns ws (go_join (map2 pad ws cells) ''  '' @ rest) = map2 pad ws cells"
proof (induction arbitrary: rest rule: list_all2_induct)
  case (Cons w ws c cells)
  show ?case
  proof (cases cells)
    case Nil
    with Cons show ?thesis by (simp add: length_pad)
  next
    case (Cons d ds)
    then obtain v vs where "ws = v # vs" using Cons.hyps by (cases ws) simp_all
    with Cons Cons.IH Cons.prems Cons.hyps show ?thesis by (simp add: length_pad)
  qed
qed simp

lemma map_rstrip_pad: "fits ws cells \<Longrightarrow> list_all plain_cell cells \<Longrightarrow> map rstrip (map2 pad ws cells) = cells"
  by (induction rule: list_all2_induct) (simp_all add: rstrip_pad)

lemma read_line:
  "fits ws cells \<Longrightarrow> list_all plain_cell cells \<Longrightarrow> read_row ws (go_join (map2 pad ws cells) ''  '' @ rest) = cells"
  by (simp add: read_row_def columns_line map_rstrip_pad del: map_map)

subsection \<open>The sections\<close>

lemmas cells_defs = rewriter_cells_def matcher_cells_def agg_cells_def agg_numbers_def route_cells_def dest_cells_def Let_def

lemma fits_rows:
  assumes "ws = widths init (map cells xs)" and "\<And>x. length (cells x) = length init"
  shows "(\<forall>x \<in> set xs. fits ws (cells x)) \<and> (fits init titles \<longrightarrow> fits ws titles)"
  using widths_fit [of "map cells xs" init] assms by (auto dest: fits_title)

lemma fits_rewriters:
  "rw \<in> set (ts_Rewriters t) \<Longrightarrow> fits (rewriter_widths t) (rewriter_cells rw)" "fits (rewriter_widths t) rewriter_titles"
  using fits_rows [OF rewriter_widths_def, where titles = rewriter_titles] by (simp_all add: cells_defs rewriter_titles_def)

lemma fits_blocklist:
  "m \<in> set (ts_Blocklist t) \<Longrightarrow> fits (block_widths t) (matcher_cells m)" "fits (block_widths t) matcher_titles"
  using fits_rows [OF block_widths_def, where titles = matcher_titles] by (simp_all add: cells_defs matcher_titles_def)

lemma fits_routes:
  "r \<in> set (ts_Routes t) \<Longrightarrow> fits (route_widths t) (route_cells r)"
  "fits (route_widths t) ([''type'', ''key''] @ matcher_titles)"
  using fits_rows [OF route_widths_def, where titles = "[''type'', ''key''] @ matcher_titles"]
  by (simp_all add: cells_defs matcher_titles_def)

lemma length_bool_text: "length (bool_text b) \<le> 5"
  by (simp add: bool_text_def)

lemma fits_aggs:
  "a \<in> set (ts_Aggregators t) \<Longrightarrow> fits (agg_widths t) (agg_cells a @ [bool_text b] @ agg_numbers a)"
  "fits (agg_widths t) agg_titles"
proof -
  let ?w1 = "widths [4, 4, 5, 8, 6, 9, 3, 6, 6] (map agg_cells (ts_Aggregators t))"
  let ?w2 = "widths [8, 4] (map agg_numbers (ts_Aggregators t))"
  let ?t1 = "[''key'', ''func'', ''regex'', ''notRegex'', ''prefix'', ''notPrefix'', ''sub'', ''notSub'', ''outFmt'']"
  have 1: "fits ?w1 ?t1" "\<And>a. a \<in> set (ts_Aggregators t) \<Longrightarrow> fits ?w1 (agg_cells a)"
    using fits_rows [OF refl, where cells = agg_cells and init = "[4, 4, 5, 8, 6, 9, 3, 6, 6]" and titles = ?t1] by (simp_all add: cells_defs)
  have 2: "fits ?w2 [''interval'', ''wait'']" "\<And>a. a \<in> set (ts_Aggregators t) \<Longrightarrow> fits ?w2 (agg_numbers a)"
    using fits_rows [OF refl, where cells = agg_numbers and init = "[8, 4]" and titles = "[''interval'', ''wait'']"] by (simp_all add: cells_defs)
  have 3: "fits [5] [bool_text b]" "fits [5] [''cache'']"
    by (simp_all add: length_bool_text)
  show "fits (agg_widths t) agg_titles"
    using list_all2_appendI [OF 1(1) list_all2_appendI [OF 3(2) 2(1)]] by (simp add: agg_widths_def agg_titles_def)
  show "fits (agg_widths t) (agg_cells a @ [bool_text b] @ agg_numbers a)" if "a \<in> set (ts_Aggregators t)"
    unfolding agg_widths_def using 1(2) [OF that] 2(2) [OF that] 3(1) by (intro list_all2_appendI)
qed

lemma fits_dests:
  "r \<in> set (ts_Routes t) \<Longrightarrow> d \<in> set (rv_Dests r) \<Longrightarrow> fits (dest_widths t) (dest_cells d @ dest_flags d)"
  "fits (dest_widths t) (matcher_titles @ [''addr'', ''spoolDir'', ''spool'', ''pickle'', ''online''])"
proof -
  let ?w = "widths [6, 9, 3, 6, 5, 8, 16, 16] (map dest_cells (concat (map rv_Dests (ts_Routes t))))"
  let ?t = "matcher_titles @ [''addr'', ''spoolDir'']"
  have len: "length (dest_cells x) = 8" for x
    by (cases x) (simp add: cells_defs)
  have 1: "fits ?w ?t" "\<And>d. d \<in> set (concat (map rv_Dests (ts_Routes t))) \<Longrightarrow> fits ?w (dest_cells d)"
    using fits_rows [OF refl, where cells = dest_cells and init = "[6, 9, 3, 6, 5, 8, 16, 16]" and titles = ?t] by (simp_all add: len matcher_titles_def)
  have 2: "fits [5, 6, 6] (dest_flags d)" for d
    by (cases d) (simp add: dest_flags_def bool_text_def)
  have "fits [5, 6, 6] [''spool'', ''pickle'', ''online'']" by simp
  from list_all2_appendI [OF 1(1) this]
  show "fits (dest_widths t) (matcher_titles @ [''addr'', ''spoolDir'', ''spool'', ''pickle'', ''online''])"
    by (simp add: dest_widths_def)
  show "fits (dest_widths t) (dest_cells d @ dest_flags d)" if "r \<in> set (ts_Routes t)" "d \<in> set (rv_Dests r)"
    unfolding dest_widths_def using 1(2) [of d] 2 that by (intro list_all2_appendI) auto
qed

lemma rune_count_newline [simp]: "rune_count newline = 1"
  by (simp add: rune_count_def newline_def)

lemma rune_count_row: "fits ws cells \<Longrightarrow> rune_count (row ws cells) = line_width ws + 1"
  by (simp add: row_def rune_count_line)

lemma rune_count_agg_line:
  "fits (agg_widths t) cells \<Longrightarrow> length d \<le> 7 \<Longrightarrow> rune_count (agg_line t cells d) = line_width (agg_widths t) + 9"
  by (simp add: agg_line_def rune_count_line rune_count_pad)

lemma read_row_row: "fits ws cells \<Longrightarrow> list_all plain_cell cells \<Longrightarrow> read_row ws (row ws cells) = cells"
  by (simp add: row_def read_line)

lemma plain_char: "is_digit c \<or> c = CHR ''-'' \<Longrightarrow> (of_char c :: nat) div 64 \<noteq> 2 \<and> c \<noteq> CHR '' ''"
  by (auto simp: is_digit_def)

lemma plain_digits:
  assumes "\<forall>c \<in> set s. is_digit c \<or> c = CHR ''-''"
  shows "plain_cell s"
proof -
  have "filter (\<lambda>c. (of_char c :: nat) div 64 \<noteq> 2) s = s"
    using assms plain_char by (intro filter_True) blast
  moreover have "s \<noteq> [] \<Longrightarrow> last s \<noteq> CHR '' ''"
    using assms plain_char last_in_set [of s] by blast
  ultimately show ?thesis by (auto simp: plain_cell_def rune_count_def)
qed

definition plain_snapshot :: "TableSnapshot \<Rightarrow> bool" where
  "plain_snapshot t \<longleftrightarrow>
     list_all (\<lambda>rw. list_all plain_cell [Old rw, New rw, Not rw]) (ts_Rewriters t) \<and>
     list_all (list_all plain_cell \<circ> matcher_cells) (ts_Blocklist t) \<and>
     list_all (list_all plain_cell \<circ> agg_cells) (ts_Aggregators t) \<and>
     list_all (\<lambda>r. list_all plain_cell (route_cells r) \<and> list_all (list_all plain_cell \<circ> dest_cells) (rv_Dests r)) (ts_Routes t)"

lemma plain_numbers: "plain_cell (format_int i)" "plain_cell (uint_text n)" "plain_cell (bool_text b)"
proof -
  show "plain_cell (format_int i)" "plain_cell (uint_text n)"
    using format_nat_digits by (auto simp: format_int_def uint_text_def intro!: plain_digits)
  show "plain_cell (bool_text b)" by (simp add: bool_text_def plain_cell_def rune_count_def)
qed

definition rows_aligned :: "TableSnapshot \<Rightarrow> bool" where
  "rows_aligned t \<longleftrightarrow>
     (\<forall>x \<in> set (ts_Rewriters t).
        rune_count (row (rewriter_widths t) (rewriter_cells x)) = rune_count (row (rewriter_widths t) rewriter_titles)) \<and>
     (\<forall>x \<in> set (ts_Blocklist t).
        rune_count (row (block_widths t) (matcher_cells x)) = rune_count (row (block_widths t) matcher_titles)) \<and>
     (\<forall>x \<in> set (ts_Aggregators t). rune_count (agg_row t x) = rune_count (agg_line t agg_titles ''dropRaw'')) \<and>
     (\<forall>r \<in> set (ts_Routes t). rune_count (route_row t r) = rune_count (route_header t) \<and>
        (\<forall>x \<in> set (rv_Dests r). rune_count (dest_row t x) = rune_count (dest_header t)))"

definition rows_complete :: "TableSnapshot \<Rightarrow> bool" where
  "rows_complete t \<longleftrightarrow>
     (\<forall>x \<in> set (ts_Rewriters t). read_row (rewriter_widths t) (row (rewriter_widths t) (rewriter_cells x)) = rewriter_cells x) \<and>
     (\<forall>x \<in> set (ts_Blocklist t). read_row (block_widths t) (row (block_widths t) (matcher_cells x)) = matcher_cells x) \<and>
     (\<forall>x \<in> set (ts_Aggregators t).
        read_row (agg_widths t) (agg_row t x) = agg_cells x @ [bool_text (av_Cache x)] @ agg_numbers x) \<and>
     (\<forall>r \<in> set (ts_Routes t). read_row (route_widths t) (drop 2 (route_row t r)) = route_cells r \<and>
        (\<forall>x \<in> set (rv_Dests r). read_row (dest_widths t) (dest_row t x) = dest_cells x @ dest_flags x))"

lemma all_rows_aligned: "rows_aligned t"
  unfolding rows_aligned_def
proof (intro conjI ballI)
  fix r
  assume r: "r \<in> set (ts_Routes t)"
  show "rune_count (route_row t r) = rune_count (route_header t)"
    using fits_routes(1) [OF r] fits_routes(2) [of t]
    by (simp add: route_row_def route_header_def rune_count_row del: append_Cons)
  show "rune_count (dest_row t x) = rune_count (dest_header t)" if "x \<in> set (rv_Dests r)" for x
    using fits_dests(1) [OF r that] fits_dests(2) [of t] by (simp only: dest_row_def dest_header_def rune_count_row)
next
  fix x
  assume "x \<in> set (ts_Aggregators t)"
  then show "rune_count (agg_row t x) = rune_count (agg_line t agg_titles ''dropRaw'')"
    using fits_aggs(1) [of x t "av_Cache x"] fits_aggs(2) [of t] length_bool_text [of "av_DropRaw x"]
    by (simp add: agg_row_def rune_count_agg_line del: append_Cons)
qed (simp_all add: fits_rewriters fits_blocklist rune_count_row)

lemma plain_rows_complete:
  assumes "plain_snapshot t"
  shows "rows_complete t"
  unfolding rows_complete_def
proof (intro conjI ballI)
  fix r
  assume r: "r \<in> set (ts_Routes t)"
  then have p: "list_all plain_cell (route_cells r)" "\<forall>x \<in> set (rv_Dests r). list_all plain_cell (dest_cells x)"
    using assms by (auto simp: plain_snapshot_def list_all_iff)
  show "read_row (route_widths t) (drop 2 (route_row t r)) = route_cells r"
    using fits_routes(1) [OF r] p(1) by (simp add: route_row_def read_row_row)
  show "read_row (dest_widths t) (dest_row t x) = dest_cells x @ dest_flags x" if "x \<in> set (rv_Dests r)" for x
  proof -
    have "list_all plain_cell (dest_flags x)" by (cases x) (simp add: dest_flags_def plain_numbers)
    then show ?thesis using fits_dests(1) [OF r that] p(2) that by (simp add: dest_row_def read_row_row)
  qed
next
  fix x
  assume x: "x \<in> set (ts_Aggregators t)"
  then have "list_all plain_cell (agg_cells x @ [bool_text (av_Cache x)] @ agg_numbers x)"
    using assms by (simp add: plain_snapshot_def list_all_iff plain_numbers agg_numbers_def)
  with x show "read_row (agg_widths t) (agg_row t x) = agg_cells x @ [bool_text (av_Cache x)] @ agg_numbers x"
    using fits_aggs(1) by (simp only: agg_row_def agg_line_def read_line)
next
  fix x
  assume x: "x \<in> set (ts_Rewriters t)"
  then have "list_all plain_cell (rewriter_cells x)"
    using assms by (simp add: plain_snapshot_def list_all_iff rewriter_cells_def plain_numbers)
  with x show "read_row (rewriter_widths t) (row (rewriter_widths t) (rewriter_cells x)) = rewriter_cells x"
    by (simp add: fits_rewriters read_row_row)
qed (use assms in \<open>simp_all add: plain_snapshot_def list_all_iff fits_blocklist read_row_row\<close>)

text \<open>In the view of a table every row is as wide as the header of its section, in runes. If the texts are ASCII and do not
  end in spaces, each row can be read back by its columns: it shows every setting of its entry in full. (The flags of the
  destinations are among the columns, the flag for the raw values of an aggregation comes after them.)\<close>

theorem view_is_aligned_and_complete:
  "rows_aligned t \<and> (plain_snapshot t \<longrightarrow> rows_complete t)"
  using all_rows_aligned plain_rows_complete by blast

definition example_snapshot :: TableSnapshot where
  "example_snapshot =
     (let m = fst (matcher_New ''servers.'' [] [] ''debug'' [] [])
      in \<lparr>ts_Rewriters = (case rewriter_New ''servers.dc1'' ''dc1'' [] 3 of Inl _ \<Rightarrow> [] | Inr rw \<Rightarrow> [rw]),
          ts_Aggregators = [\<lparr>av_Fun = ''sum'', av_Matcher = m, av_OutFmt = ''all.cpu'', av_Cache = True, av_Interval = 60,
            av_Wait = 120, av_DropRaw = False, av_aggregations = [], av_Key = ''1a2b3c4''\<rparr>],
          ts_Blocklist = [m],
          ts_Routes = [\<lparr>rv_Matcher = m, rv_Dests = [(m, ''carbon.example.org:2003'', ''spool'', True, False, True, ''k'')],
            rv_Type = ''sendAllMatch'', rv_Key = ''carbon-default'', rv_Addr = []\<rparr>],
          ts_SpoolDir = ''spool''\<rparr>)"

theorem view_is_aligned_and_complete_witness:
  "length (ts_Rewriters example_snapshot) = 1 \<and> plain_snapshot example_snapshot \<and> rows_complete example_snapshot"
proof -
  have "length (ts_Rewriters example_snapshot) = 1" "plain_snapshot example_snapshot" by code_simp+
  then show ?thesis using view_is_aligned_and_complete [of example_snapshot] by blast
qed

end
