(* ===== verification/Admin_Telnet.thy ===== *)
theory Admin_Telnet
  imports Cmd_Correct Table_View
begin

text \<open>
  \<^verbatim>\<open>telnet/telnet.go\<close> and \<^verbatim>\<open>ui/telnet/telnet.go\<close>: the admin interface over TCP. A chunk is what one read of the
  connection gives, at most 1024 bytes, and is one command, whatever it contains. The text of the help, which is
  constant, is left out of the replies. A command that does not return, or a view of a table whose aggregator has been shut
  down, leaves the session without an end: \<open>Ok None\<close>.
\<close>

datatype admin_fn = ModHandler | ViewHandler | HelpHandler | DefaultHandler

datatype telnet_reply = ReplyOk | ReplyError cmd_error | ReplyExtraneous | ReplyView bytes | ReplyHelp | ReplyUnknown
  | ReplyUnrecognized

definition muxList :: "(bytes \<times> admin_fn) list" where
  "muxList =
     [(''add'', ModHandler), (''del'', ModHandler), (''mod'', ModHandler), (''view'', ViewHandler),
      (''help'', HelpHandler), ([], DefaultHandler)]"

definition getHandler :: "bytes \<Rightarrow> admin_fn option" where
  "getHandler cmd = map_option snd (find (\<lambda>r. has_prefix cmd (fst r)) muxList)"

definition tcpModHandler :: "cmd_env \<Rightarrow> bytes list \<Rightarrow> tbl \<Rightarrow> (tbl \<times> telnet_reply) option outcome" where
  "tcpModHandler env command t =
     map_outcome (map_option (\<lambda>(t', e). (t', case e of None \<Rightarrow> ReplyOk | Some err \<Rightarrow> ReplyError err)))
       (Apply env (go_join command '' '') t)"

definition tcpViewHandler :: "bytes list \<Rightarrow> tbl \<Rightarrow> (tbl \<times> telnet_reply) option outcome" where
  "tcpViewHandler command t =
     (if length command \<noteq> 1 then Ok (Some (t, ReplyExtraneous))
      else Ok (map_option (\<lambda>str. (t, ReplyView (str @ newline @ ''--'' @ newline))) (Print t)))"

definition run_handler :: "cmd_env \<Rightarrow> admin_fn \<Rightarrow> bytes list \<Rightarrow> tbl \<Rightarrow> (tbl \<times> telnet_reply) option outcome" where
  "run_handler env fn command t =
     (case fn of
        ModHandler \<Rightarrow> tcpModHandler env command t
      | ViewHandler \<Rightarrow> tcpViewHandler command t
      | HelpHandler \<Rightarrow> Ok (Some (t, ReplyHelp))
      | DefaultHandler \<Rightarrow> Ok (Some (t, ReplyUnknown)))"

definition handle_chunk :: "cmd_env \<Rightarrow> bytes \<Rightarrow> tbl \<Rightarrow> (tbl \<times> telnet_reply) option outcome" where
  "handle_chunk env chunk t =
     (let clean_cmd = trim_space chunk; command = go_split clean_cmd '' ''
      in case getHandler clean_cmd of
           None \<Rightarrow> Ok (Some (t, ReplyUnrecognized))
         | Some fn \<Rightarrow> run_handler env fn command t)"

text \<open>A session: the chunks until the connection ends, with the replies.\<close>

fun handleApiRequest :: "cmd_env \<Rightarrow> bytes list \<Rightarrow> tbl \<Rightarrow> (tbl \<times> telnet_reply list) option outcome" where
  "handleApiRequest env [] t = Ok (Some (t, []))"
| "handleApiRequest env (c # cs) t =
     (case handle_chunk env c t of
        Panic p \<Rightarrow> Panic p
      | Ok None \<Rightarrow> Ok None
      | Ok (Some (t', r)) \<Rightarrow> map_outcome (map_option (\<lambda>(t'', rs). (t'', r # rs))) (handleApiRequest env cs t'))"

subsection \<open>Properties\<close>

definition is_change :: "bytes \<Rightarrow> bool" where
  "is_change cmd \<longleftrightarrow> has_prefix cmd ''add'' \<or> has_prefix cmd ''del'' \<or> has_prefix cmd ''mod''"

lemma getHandler_cases:
  "getHandler cmd = Some (if is_change cmd then ModHandler else if has_prefix cmd ''view'' then ViewHandler
     else if has_prefix cmd ''help'' then HelpHandler else DefaultHandler)"
  by (simp add: getHandler_def muxList_def is_change_def)

text \<open>The changes that a session makes, as one command after another.\<close>

fun apply_all :: "cmd_env \<Rightarrow> bytes list \<Rightarrow> tbl \<Rightarrow> tbl option outcome" where
  "apply_all env [] t = Ok (Some t)"
| "apply_all env (c # cs) t =
     (case Apply env c t of
        Panic p \<Rightarrow> Panic p
      | Ok None \<Rightarrow> Ok None
      | Ok (Some (t', _)) \<Rightarrow> apply_all env cs t')"

lemma handle_chunk_change:
  "is_change (trim_space c) \<Longrightarrow> handle_chunk env c t =
     map_outcome (map_option (\<lambda>(t', e). (t', case e of None \<Rightarrow> ReplyOk | Some err \<Rightarrow> ReplyError err)))
       (Apply env (trim_space c) t)"
  by (simp add: handle_chunk_def getHandler_cases run_handler_def tcpModHandler_def go_join_split Let_def)

lemma handle_chunk_other: "\<not> is_change (trim_space c) \<Longrightarrow> handle_chunk env c t = Ok (Some (t', r)) \<Longrightarrow> t' = t"
  by (auto simp: handle_chunk_def getHandler_cases run_handler_def tcpViewHandler_def Let_def split: if_splits)

lemma session_changes:
  "handleApiRequest env inp t = Ok (Some (t', rs)) \<Longrightarrow>
     apply_all env (filter is_change (map trim_space inp)) t = Ok (Some t') \<and> length rs = length inp"
proof (induction inp arbitrary: t rs)
  case (Cons c cs)
  then obtain t1 r rs1 where h: "handle_chunk env c t = Ok (Some (t1, r))" "handleApiRequest env cs t1 = Ok (Some (t', rs1))"
    "rs = r # rs1"
    by (auto split: outcome.splits option.splits)
  show ?case
  proof (cases "is_change (trim_space c)")
    case True
    then show ?thesis using h Cons.IH [OF h(2)] by (auto simp: handle_chunk_change)
  next
    case False
    then show ?thesis using h Cons.IH [OF h(2)] handle_chunk_other [OF False h(1)] by simp
  qed
qed simp

text \<open>A session changes the table as its commands do, one after the other: every chunk that begins like a command
  that changes something is applied exactly as it was received, without the space around it, and no other chunk changes
  anything. There is one reply to each chunk.\<close>

theorem session_applies_its_commands:
  assumes "handleApiRequest env inp t = Ok (Some (t', rs))"
  shows "apply_all env (filter is_change (map trim_space inp)) t = Ok (Some t') \<and> length rs = length inp"
  by (rule session_changes [OF assms])

theorem session_applies_its_commands_witness:
  "\<exists>rs. handleApiRequest example_cmd_env [''help'', ''addBlock prefix foo'' @ newline] (relay_table [] []) =
      Ok (Some (relay_table [prefix_matcher ''foo''] [], rs)) \<and> length rs = 2"
proof -
  have "trim_space (''addBlock prefix foo'' @ newline) = ''addBlock prefix foo''" "is_change ''addBlock prefix foo''"
    "trim_space ''help'' = ''help''" "\<not> is_change ''help''" "has_prefix ''help'' ''help''" "\<not> has_prefix ''help'' ''view''"
    by (code_simp+)
  then have "\<exists>rs. handleApiRequest example_cmd_env [''help'', ''addBlock prefix foo'' @ newline] (relay_table [] []) =
      Ok (Some (relay_table [prefix_matcher ''foo''] [], rs))"
    using handle_chunk_change [of "''addBlock prefix foo'' @ newline"]
    by (simp add: handle_chunk_def [of _ "''help''"] getHandler_cases run_handler_def example_addBlock Let_def)
  then show ?thesis using session_applies_its_commands by fastforce
qed

end
