(* ===== verification/Go_Duration.thy ===== *)
theory Go_Duration
  imports Go_Strconv
begin

text \<open>
  Go's \<open>time.ParseDuration\<close>: a sign and a sequence of decimal numbers with units, in nanoseconds. The
  fraction of a number is taken exactly and rounded down, where Go multiplies floats; fractions with more
  digits than fit in an \<open>int64\<close>, which Go cuts off, are not told apart. \<open>print_seconds\<close> is a printer
  for the round trip.
\<close>

datatype duration_error = InvalidDuration | MissingUnit | UnknownUnit

definition unit_map :: "bytes \<Rightarrow> nat option" where
  "unit_map u =
     (if u = ''ns'' then Some 1
      else if u = ''us'' then Some 1000
      else if u = [CHR 0xC2, CHR 0xB5, CHR ''s''] then Some 1000
      else if u = [CHR 0xCE, CHR 0xBC, CHR ''s''] then Some 1000
      else if u = ''ms'' then Some 1000000
      else if u = ''s'' then Some 1000000000
      else if u = ''m'' then Some (60 * 1000000000)
      else if u = ''h'' then Some (3600 * 1000000000)
      else None)"

definition max_duration :: nat where
  "max_duration = 2 ^ 63"

definition number_char :: "char \<Rightarrow> bool" where
  "number_char c \<longleftrightarrow> c = CHR ''.'' \<or> is_digit c"

text \<open>One number with its unit: its value and what follows.\<close>

definition parse_component :: "bytes \<Rightarrow> duration_error + (nat \<times> bytes)" where
  "parse_component s =
     (let ip = takeWhile is_digit s;
          r = dropWhile is_digit s;
          dot = (r \<noteq> [] \<and> hd r = CHR ''.'');
          fp = (if dot then takeWhile is_digit (tl r) else []);
          r2 = (if dot then dropWhile is_digit (tl r) else r);
          u = takeWhile (\<lambda>c. \<not> number_char c) r2;
          r3 = dropWhile (\<lambda>c. \<not> number_char c) r2
      in if max_duration < digits_val ip then Inl InvalidDuration
         else if ip = [] \<and> fp = [] then Inl InvalidDuration
         else if u = [] then Inl MissingUnit
         else case unit_map u of
                None \<Rightarrow> Inl UnknownUnit
              | Some unit \<Rightarrow>
                  let v = digits_val ip * unit + digits_val fp * unit div 10 ^ length fp
                  in if max_duration < v then Inl InvalidDuration else Inr (v, r3))"

lemma parse_component_length: "parse_component s = Inr (v, rest) \<Longrightarrow> length rest < length s"
proof -
  assume p: "parse_component s = Inr (v, rest)"
  let ?r = "dropWhile is_digit s"
  let ?r2 = "if ?r \<noteq> [] \<and> hd ?r = CHR ''.'' then dropWhile is_digit (tl ?r) else ?r"
  have r: "rest = dropWhile (\<lambda>c. \<not> number_char c) ?r2" "takeWhile (\<lambda>c. \<not> number_char c) ?r2 \<noteq> []"
    using p by (auto simp: parse_component_def Let_def split: if_splits option.splits)
  have "length ?r2 \<le> length s"
    using length_dropWhile_le [of is_digit s] length_dropWhile_le [of is_digit "tl ?r"]
    by (auto intro: le_trans)
  moreover have "length rest < length ?r2"
  proof (cases "?r2")
    case (Cons c cs)
    with r(2) have "\<not> number_char c" by (auto split: if_splits)
    with Cons r(1) show ?thesis using length_dropWhile_le [of _ cs] by (simp only: dropWhile.simps) (simp add: le_imp_less_Suc)
  qed (use r(2) in simp)
  ultimately show ?thesis by linarith
qed

function parse_components :: "bytes \<Rightarrow> nat \<Rightarrow> duration_error + nat" where
  "parse_components s d =
     (if s = [] then Inr d
      else case parse_component s of
             Inl e \<Rightarrow> Inl e
           | Inr (v, rest) \<Rightarrow>
               if max_duration < d + v then Inl InvalidDuration else parse_components rest (d + v))"
  by pat_completeness auto
termination by (relation "measure (\<lambda>(s, d). length s)") (auto dest: parse_component_length)

declare parse_components.simps [simp del]

definition ParseDuration :: "bytes \<Rightarrow> duration_error + int" where
  "ParseDuration s0 =
     (let neg = (s0 \<noteq> [] \<and> hd s0 = CHR ''-'');
          s = (if s0 \<noteq> [] \<and> (hd s0 = CHR ''-'' \<or> hd s0 = CHR ''+'') then tl s0 else s0)
      in if s = ''0'' then Inr 0
         else if s = [] then Inl InvalidDuration
         else case parse_components s 0 of
                Inl e \<Rightarrow> Inl e
              | Inr d \<Rightarrow>
                  if neg then Inr (- int d)
                  else if max_duration - 1 < d then Inl InvalidDuration else Inr (int d))"

definition print_seconds :: "nat \<Rightarrow> bytes" where
  "print_seconds n = format_nat n @ ''s''"

lemma digits_val_Nil: "digits_val [] = 0"
  by (simp add: digits_val_def)

lemma takeWhile_format_nat [simp]:
  assumes "\<not> is_digit c"
  shows "takeWhile is_digit (format_nat n @ c # cs) = format_nat n"
    "dropWhile is_digit (format_nat n @ c # cs) = c # cs"
  using format_nat_digits [of n] assms by (simp_all add: takeWhile_append2 dropWhile_append2)

lemma ParseDuration_print_seconds:
  assumes "n * 1000000000 < max_duration"
  shows "ParseDuration (print_seconds n) = Inr (int (n * 1000000000))"
proof -
  have s: "\<not> is_digit CHR ''s''" "\<not> number_char CHR ''s''" by (simp_all add: is_digit_def number_char_def)
  have "n \<le> max_duration" using assms by linarith
  then have "parse_component (print_seconds n) = Inr (n * 1000000000, [])"
    using assms by (simp add: digits_val_Nil parse_component_def print_seconds_def s Let_def unit_map_def)

  then have "parse_components (print_seconds n) 0 = Inr (n * 1000000000)"
    using assms by (simp add: parse_components.simps [of "print_seconds n"] parse_components.simps [of "[]"])
      (simp add: print_seconds_def)
  moreover have "hd (print_seconds n) \<noteq> CHR ''-''" "hd (print_seconds n) \<noteq> CHR ''+''" "print_seconds n \<noteq> ''0''" "print_seconds n \<noteq> []"
    using format_nat_hd [of n] by (auto simp: print_seconds_def hd_append)
  moreover have "\<not> max_duration - 1 < n * 1000000000" using assms by linarith
  ultimately show ?thesis by (simp add: ParseDuration_def Let_def)
qed

end
