(* ===== verification/Admin_Web.thy ===== *)
theory Admin_Web
  imports Cmd_Correct Table_View Go_Duration
begin

text \<open>
  \<^verbatim>\<open>ui/web/web.go\<close>: the admin interface over HTTP.

  \<^item> The router is the third-party gorilla/mux: a request is one of the registered routes with its variables, texts
    without slashes. A body is what \<open>encoding/json\<close> decodes it into, \<open>None\<close> if it cannot; the library sets
    exported fields only, so that the others stay zero (\<open>decoded\<close>).
  \<^item> A handler gives the table and a response or an error. A panic in its goroutine is recovered by
    \<open>net/http\<close>, which drops the connection: the inner \<open>outcome\<close>. A panic in a goroutine that it starts ends the
    process: the outer one. A handler that never returns gives \<open>Ok None\<close>.
  \<^item> The error of a \<open>handlerError\<close> may be \<open>nil\<close> (\<open>None\<close>). The texts of errors and the JSON encoder are in the
    record \<open>web_env\<close>. The debug endpoints and the static assets are left out.
\<close>

subsection \<open>Requests\<close>

record route_request =
  rq_Key :: bytes
  rq_Type :: bytes
  rq_Prefix :: bytes
  rq_NotPrefix :: bytes
  rq_Sub :: bytes
  rq_NotSub :: bytes
  rq_Regex :: bytes
  rq_NotRegex :: bytes
  rq_Address :: bytes
  rq_Spool :: bool
  rq_Pickle :: bool
  rq_periodFlush :: int
  rq_periodReconn :: int
  rq_ConnBufSize :: int
  rq_ConnIoBufSize :: int
  rq_SpoolBufSize :: int
  rq_SpoolMaxBytesPerFile :: int
  rq_SpoolSyncEvery :: int
  rq_spoolSyncPeriod :: int
  rq_SpoolSleep :: int
  rq_UnspoolSleep :: int

record aggregate_request =
  aq_Fun :: bytes
  aq_OutFmt :: bytes
  aq_Cache :: bool
  aq_Interval :: uint64
  aq_Wait :: uint64
  aq_DropRaw :: bool
  aq_Match :: match_opts

record rewriter_request =
  wq_Old :: bytes
  wq_New :: bytes
  wq_Max :: int

datatype web_request =
    GetBadMetrics bytes | GetConfig | GetTable
  | DeleteBlocklist bytes
  | DeleteRewriter bytes | PostRewriter "rewriter_request option"
  | DeleteAggregator bytes | PostAggregator "aggregate_request option"
  | GetRoutes | PostRoute "route_request option"
  | GetOneRoute bytes | DeleteOneRoute bytes
  | DeleteDestination bytes bytes

definition decoded :: "route_request \<Rightarrow> route_request" where
  "decoded r = r\<lparr>rq_periodFlush := 0, rq_periodReconn := 0, rq_spoolSyncPeriod := 0\<rparr>"

definition rq_matcher :: "route_request \<Rightarrow> match_opts" where
  "rq_matcher r = \<lparr>mo_prefix = rq_Prefix r, mo_notPrefix = rq_NotPrefix r, mo_sub = rq_Sub r, mo_notSub = rq_NotSub r,
     mo_regex = rq_Regex r, mo_notRegex = rq_NotRegex r\<rparr>"

subsection \<open>Replies\<close>

datatype web_error = WebDuration duration_error | WebJson | WebMatcher regexp_error | WebAgg agg_error
  | WebRewriter rewriter_error

record handlerError =
  he_Error :: "web_error option"
  he_Message :: bytes
  he_Code :: nat

datatype web_response = RespConfig | RespTable TableSnapshot | RespRoutes "route_view list" | RespRoute relay_route
  | RespRecords "BadRecord list" | RespEmpty | RespMessage bytes

datatype web_reply = Json bytes | HttpError bytes nat | Dropped panic

record web_env =
  we_cmd :: cmd_env
  we_text :: "web_error \<Rightarrow> bytes"
  we_marshal :: "web_response \<Rightarrow> bytes + bytes"

type_synonym 'a handler_result = "(tbl \<times> (handlerError + 'a) outcome) option outcome"

definition respond :: "tbl \<Rightarrow> 'a \<Rightarrow> 'a handler_result" where
  "respond t x = Ok (Some (t, Ok (Inr x)))"

definition fail_with :: "tbl \<Rightarrow> web_error option \<Rightarrow> bytes \<Rightarrow> nat \<Rightarrow> 'a handler_result" where
  "fail_with t err message code = Ok (Some (t, Ok (Inl \<lparr>he_Error = err, he_Message = message, he_Code = code\<rparr>)))"

definition recovered :: "tbl \<Rightarrow> panic \<Rightarrow> 'a handler_result" where
  "recovered t p = Ok (Some (t, Panic p))"

text \<open>\<open>ServeHTTP\<close>: the reply to what the handler gave; a response may be \<open>nil\<close>.\<close>

definition ServeHTTP :: "web_env \<Rightarrow> (handlerError + web_response option) outcome \<Rightarrow> web_reply" where
  "ServeHTTP env r =
     (case r of
        Panic p \<Rightarrow> Dropped p
      | Ok (Inl e) \<Rightarrow>
          (case he_Error e of
             None \<Rightarrow> Dropped NilDereference
           | Some err \<Rightarrow> HttpError (''{'' @ [CHR 0x22] @ ''error'' @ [CHR 0x22] @ '':'' @ [CHR 0x22] @ he_Message e @ '': '' @
               we_text env err @ [CHR 0x22] @ ''}'') (he_Code e))
      | Ok (Inr None) \<Rightarrow> HttpError ''Internal server error. Check the logs.'' 500
      | Ok (Inr (Some response)) \<Rightarrow>
          (case we_marshal env response of
             Inl e \<Rightarrow> HttpError (''Error marshalling JSON:'' @ [CHR 0x27] @ e @ [CHR 0x27]) 500
           | Inr b \<Rightarrow> Json b))"

subsection \<open>Deletions\<close>

text \<open>\<open>idx, _ := strconv.Atoi(index)\<close>: the value that comes with an error.\<close>

definition index_of :: "bytes \<Rightarrow> int" where
  "index_of s =
     (case atoi s of
        Inr i \<Rightarrow> i
      | Inl ErrSyntax \<Rightarrow> 0
      | Inl ErrRange \<Rightarrow> if hd s = CHR ''-'' then - (2 ^ 63) else 2 ^ 63 - 1)"

definition removeRewriter :: "bytes \<Rightarrow> tbl \<Rightarrow> web_response handler_result" where
  "removeRewriter index t =
     (case DelRewriter (index_of index) t of
        Panic p \<Rightarrow> recovered t p
      | Ok (t', Some _) \<Rightarrow> fail_with t' None (''Could not find entry '' @ index) 404
      | Ok (t', None) \<Rightarrow> respond t' RespEmpty)"

definition removeBlocklist :: "bytes \<Rightarrow> tbl \<Rightarrow> web_response handler_result" where
  "removeBlocklist index t =
     (case DelBlocklist (index_of index) t of
        Panic p \<Rightarrow> recovered t p
      | Ok (t', Some _) \<Rightarrow> fail_with t' None (''Could not find entry '' @ index) 404
      | Ok (t', None) \<Rightarrow> respond t' RespEmpty)"

text \<open>A negative index panics in the handler, a failing flush in the goroutine of the aggregator.\<close>

definition removeAggregator :: "int \<Rightarrow> bytes \<Rightarrow> tbl \<Rightarrow> web_response handler_result" where
  "removeAggregator now index t =
     (case DelAggregator now (index_of index) t of
        Panic p \<Rightarrow> if index_of index < 0 then recovered t p else Panic p
      | Ok (t', Some _) \<Rightarrow> fail_with t' None (''Invalid index '' @ format_int (index_of index)) 404
      | Ok (t', None) \<Rightarrow> respond t' RespEmpty)"

definition removeDestination :: "cmd_env \<Rightarrow> bytes \<Rightarrow> bytes \<Rightarrow> tbl \<Rightarrow> web_response handler_result" where
  "removeDestination env key index t =
     (case tbl_DelDestination (cmd_methods env) key (index_of index) t of
        Panic p \<Rightarrow> recovered t p
      | Ok None \<Rightarrow> Ok None
      | Ok (Some (t', Some _)) \<Rightarrow> fail_with t' None (''Could not find entry '' @ key @ ''/'' @ index) 404
      | Ok (Some (t', None)) \<Rightarrow> respond t' RespEmpty)"

definition removeRoute :: "cmd_env \<Rightarrow> bytes \<Rightarrow> tbl \<Rightarrow> web_response handler_result" where
  "removeRoute env key t =
     (case tbl_DelRoute (cmd_methods env) key t of
        (t', None) \<Rightarrow> respond t' RespEmpty
      | (t', Some (Panic p)) \<Rightarrow> recovered t' p
      | (t', Some (Ok None)) \<Rightarrow> Ok None
      | (t', Some (Ok (Some (_, es)))) \<Rightarrow>
          if es = [] then respond t' RespEmpty else fail_with t' None (''Could not find entry '' @ key) 404)"

subsection \<open>Additions\<close>

text \<open>The rest of a handler after a call that may have failed.\<close>

definition and_then :: "'a handler_result \<Rightarrow> (tbl \<Rightarrow> 'a \<Rightarrow> 'b handler_result) \<Rightarrow> 'b handler_result" where
  "and_then r f =
     (case r of
        Panic p \<Rightarrow> Panic p
      | Ok None \<Rightarrow> Ok None
      | Ok (Some (t, Panic p)) \<Rightarrow> recovered t p
      | Ok (Some (t, Ok (Inl e))) \<Rightarrow> Ok (Some (t, Ok (Inl e)))
      | Ok (Some (t, Ok (Inr x))) \<Rightarrow> f t x)"

definition zero_matcher :: Matcher where
  "zero_matcher = \<lparr>Prefix = [], NotPrefix = [], Sub = [], NotSub = [], Regex = [], NotRegex = [], iprefix = [], inotPrefix = [],
     isub = [], inotSub = [], prefixFromRegex = [], prefixFromNotRegex = [], iregex = None, inotRegex = None\<rparr>"

definition couldnt :: bytes where
  "couldnt = ''Couldn'' @ [CHR 0x27] @ ''t ''"

definition web_matcher :: "match_opts \<Rightarrow> tbl \<Rightarrow> Matcher handler_result" where
  "web_matcher m t =
     (case new_matcher m of
        (_, Some e) \<Rightarrow> fail_with t (Some (WebMatcher e)) ''unable to create matcher for route'' 400
      | (mt, None) \<Rightarrow> respond t mt)"

text \<open>The destinations of a new route are run by its constructor, in goroutines of their own.\<close>

definition web_route :: "Route outcome \<Rightarrow> tbl \<Rightarrow> relay_route handler_result" where
  "web_route r t = (case r of Panic p \<Rightarrow> Panic p | Ok r \<Rightarrow> respond t (Carbon (r, [])))"

definition parseRouteRequest :: "route_request option \<Rightarrow> tbl \<Rightarrow> relay_route handler_result" where
  "parseRouteRequest body t =
     (case body of
        None \<Rightarrow> fail_with t (Some WebJson) (couldnt @ ''parse json'') 400
      | Some b \<Rightarrow>
          let req = decoded b;
              dest = dest_New (rq_Key req) zero_matcher (rq_Address req) (t_SpoolDir t) (rq_Spool req)
                (rq_Pickle req) (wrap64 (rq_periodFlush req * 1000000)) (wrap64 (rq_periodReconn req * 1000000))
                (nat (rq_ConnBufSize req)) (rq_ConnIoBufSize req) (rq_SpoolBufSize req) (rq_SpoolMaxBytesPerFile req)
                (rq_SpoolSyncEvery req) (wrap64 (rq_spoolSyncPeriod req * 1000000)) (wrap64 (rq_SpoolSleep req * 1000))
                (wrap64 (rq_UnspoolSleep req * 1000))
          in and_then (web_matcher (rq_matcher req) t) (\<lambda>t m.
               if rq_Type req = ''sendAllMatch'' then web_route (NewSendAllMatch (rq_Key req) m [dest]) t
               else if rq_Type req = ''sendFirstMatch'' then web_route (NewSendFirstMatch (rq_Key req) m [dest]) t
               else fail_with t None (''unknown route type: '' @ rq_Type req) 400))"

text \<open>An aggregator without a regular expression is accepted.\<close>

definition parseAggregateRequest :: "cmd_env \<Rightarrow> aggregate_request option \<Rightarrow> tbl \<Rightarrow> Aggregator handler_result" where
  "parseAggregateRequest env body t =
     (case body of
        None \<Rightarrow> fail_with t (Some WebJson) (couldnt @ ''parse json'') 400
      | Some req \<Rightarrow>
          and_then (web_matcher (aq_Match req) t) (\<lambda>t m.
            case agg_New (aq_Fun req) m (aq_OutFmt req) (aq_Cache req) (aq_Interval req) (aq_Wait req) (aq_DropRaw req) (ce_now env) of
              Panic p \<Rightarrow> Panic p
            | Ok (Inl e) \<Rightarrow> fail_with t (Some (WebAgg e)) (couldnt @ ''create aggregator'') 400
            | Ok (Inr agg) \<Rightarrow> respond t agg))"

definition parseRewriterRequest :: "rewriter_request option \<Rightarrow> tbl \<Rightarrow> RW handler_result" where
  "parseRewriterRequest body t =
     (case body of
        None \<Rightarrow> fail_with t (Some WebJson) (couldnt @ ''parse json'') 400
      | Some req \<Rightarrow>
          (case rewriter_New (wq_Old req) (wq_New req) [] (wq_Max req) of
             Inl e \<Rightarrow> fail_with t (Some (WebRewriter e)) (couldnt @ ''create rewriter'') 400
           | Inr rw \<Rightarrow> respond t rw))"

definition addAggregate :: "cmd_env \<Rightarrow> aggregate_request option \<Rightarrow> tbl \<Rightarrow> web_response handler_result" where
  "addAggregate env body t =
     and_then (parseAggregateRequest env body t) (\<lambda>t agg. respond (tbl_AddAggregator agg t) (RespMessage ''aggregate added''))"

definition addRewrite :: "rewriter_request option \<Rightarrow> tbl \<Rightarrow> web_response handler_result" where
  "addRewrite body t =
     and_then (parseRewriterRequest body t) (\<lambda>t rw. respond (tbl_AddRewriter rw t) (RespMessage ''rewriter added''))"

definition addRoute :: "route_request option \<Rightarrow> tbl \<Rightarrow> web_response handler_result" where
  "addRoute body t =
     and_then (parseRouteRequest body t) (\<lambda>t r. respond (tbl_AddRoute r t) (RespMessage ''route added''))"

subsection \<open>Views\<close>

definition showConfig :: "tbl \<Rightarrow> web_response handler_result" where
  "showConfig t = respond t RespConfig"

definition listTable :: "tbl \<Rightarrow> web_response handler_result" where
  "listTable t = (case tbl_Snapshot t of None \<Rightarrow> Ok None | Some s \<Rightarrow> respond t (RespTable s))"

definition listRoutes :: "tbl \<Rightarrow> web_response handler_result" where
  "listRoutes t = (case tbl_Snapshot t of None \<Rightarrow> Ok None | Some s \<Rightarrow> respond t (RespRoutes (ts_Routes s)))"

definition badMetricsHandler :: "int \<Rightarrow> bytes \<Rightarrow> tbl \<Rightarrow> web_response handler_result" where
  "badMetricsHandler now timespec t =
     (case ParseDuration timespec of
        Inl e \<Rightarrow> fail_with t (Some (WebDuration e)) ''Could not parse timespec'' 400
      | Inr d \<Rightarrow> respond t (RespRecords (Get now d (t_bad t))))"

definition getRoute :: "cmd_env \<Rightarrow> bytes \<Rightarrow> tbl \<Rightarrow> web_response handler_result" where
  "getRoute env key t =
     (case GetRoute (cmd_methods env) key t of
        None \<Rightarrow> fail_with t None (''Could not find route '' @ key) 404
      | Some r \<Rightarrow> respond t (RespRoute r))"

subsection \<open>The server\<close>

definition run_request :: "cmd_env \<Rightarrow> web_request \<Rightarrow> tbl \<Rightarrow> web_response handler_result" where
  "run_request env req t =
     (case req of
        GetBadMetrics timespec \<Rightarrow> badMetricsHandler (ce_now env) timespec t
      | GetConfig \<Rightarrow> showConfig t
      | GetTable \<Rightarrow> listTable t
      | DeleteBlocklist index \<Rightarrow> removeBlocklist index t
      | DeleteRewriter index \<Rightarrow> removeRewriter index t
      | PostRewriter body \<Rightarrow> addRewrite body t
      | DeleteAggregator index \<Rightarrow> removeAggregator (ce_now env div 10 ^ 9) index t
      | PostAggregator body \<Rightarrow> addAggregate env body t
      | GetRoutes \<Rightarrow> listRoutes t
      | PostRoute body \<Rightarrow> addRoute body t
      | GetOneRoute key \<Rightarrow> getRoute env key t
      | DeleteOneRoute key \<Rightarrow> removeRoute env key t
      | DeleteDestination key index \<Rightarrow> removeDestination env key index t)"

definition serve :: "web_env \<Rightarrow> web_request \<Rightarrow> tbl \<Rightarrow> (tbl \<times> web_reply) option outcome" where
  "serve env req t =
     map_outcome (map_option (\<lambda>(t', r). (t', ServeHTTP env (map_outcome (map_sum id Some) r)))) (run_request (we_cmd env) req t)"

subsection \<open>What every request does\<close>

text \<open>The table after a handler, and what may be its reply when the table has changed.\<close>

definition web_post :: "(tbl \<Rightarrow> (handlerError + 'a) outcome \<Rightarrow> bool) \<Rightarrow> 'a handler_result \<Rightarrow> bool" where
  "web_post P r \<longleftrightarrow> (\<forall>t' x. r = Ok (Some (t', x)) \<longrightarrow> P t' x)"

named_theorems web_rules "rules for the postconditions of handlers"

lemma web_post_rules [web_rules]:
  "P t (Ok (Inr x)) \<Longrightarrow> web_post P (respond t x)"
  "P t (Ok (Inl \<lparr>he_Error = err, he_Message = m, he_Code = c\<rparr>)) \<Longrightarrow> web_post P (fail_with t err m c)"
  "P t (Panic p) \<Longrightarrow> web_post P (recovered t p)"
  "web_post P (Panic p)" "web_post P (Ok None)"
  by (simp_all add: web_post_def respond_def fail_with_def recovered_def)

lemma web_post_then:
  assumes "web_post (\<lambda>t' x. case x of Panic p \<Rightarrow> P t' (Panic p) | Ok (Inl e) \<Rightarrow> P t' (Ok (Inl e))
      | Ok (Inr y) \<Rightarrow> web_post P (f t' y)) r"
  shows "web_post P (and_then r f)"
  using assms
  by (auto simp: web_post_def and_then_def recovered_def split: outcome.splits option.splits sum.splits)

definition web_effect :: "cmd_env \<Rightarrow> web_request \<Rightarrow> tbl \<Rightarrow> tbl \<Rightarrow> bool" where
  "web_effect env req t t' =
     (case req of
        DeleteBlocklist index \<Rightarrow> DelBlocklist (index_of index) t = Ok (t', None)
      | DeleteRewriter index \<Rightarrow> DelRewriter (index_of index) t = Ok (t', None)
      | DeleteAggregator index \<Rightarrow> DelAggregator (ce_now env div 10 ^ 9) (index_of index) t = Ok (t', None)
      | PostRewriter (Some b) \<Rightarrow>
          (\<exists>rw. rewriter_New (wq_Old b) (wq_New b) [] (wq_Max b) = Inr rw \<and> t' = tbl_AddRewriter rw t)
      | PostAggregator (Some b) \<Rightarrow>
          (\<exists>a. t' = tbl_AddAggregator a t \<and> (mo_regex (aq_Match b) \<noteq> [] \<longrightarrow> agg_inv a))
      | DeleteOneRoute key \<Rightarrow> t' = fst (tbl_DelRoute (cmd_methods env) key t)
      | DeleteDestination key index \<Rightarrow> tbl_DelDestination (cmd_methods env) key (index_of index) t = Ok (Some (t', None))
      | _ \<Rightarrow> False)"

text \<open>A changed table has changed as its request says, and then the reply is a response, or a route has been deleted
  whose shutdown failed.\<close>

definition web_ok :: "cmd_env \<Rightarrow> web_request \<Rightarrow> tbl \<Rightarrow> tbl \<Rightarrow> (handlerError + web_response) outcome \<Rightarrow> bool" where
  "web_ok env req t t' r \<longleftrightarrow>
     t' = t \<or> web_effect env req t t' \<and> ((\<exists>x. r = Ok (Inr x)) \<or> (\<exists>key. req = DeleteOneRoute key) \<and> \<not> (\<exists>e. r = Ok (Inl e) \<and> he_Error e \<noteq> None))"

lemma web_ok_same [simp]: "web_ok env req t t r"
  by (simp add: web_ok_def)

lemma on_route_error:
  assumes "on_route ms key f t = Ok (Some (t', Some e))" and "\<And>r r' e. f r = Ok (Some (r', Some e)) \<Longrightarrow> r' = r"
  shows "t' = t"
proof (cases "GetRoute ms key t")
  case (Some r)
  then obtain e' where "t' = put_route ms key r t"
    using assms by (auto simp: on_route_def split: outcome.splits option.splits)
  then show ?thesis
    using Some find_index_SomeD [of _ "routes (t_config t)"]
    by (auto simp: put_route_def GetRoute_def find_find_index split: option.splits)
qed (use assms in \<open>simp add: on_route_def\<close>)

lemma DelDestination_error:
  "m_DelDestination (relay_methods dial flush) i r = Ok (Some (r', Some e)) \<Longrightarrow> r' = r"
  by (cases r) (auto simp: relay_methods_def on_carbon_def no_destination_def carbon_methods_def DelDestination_def
      split: if_splits outcome.splits option.splits)

lemma Del_error:
  "DelBlocklist i t = Ok (t', Some e) \<Longrightarrow> t' = t" "DelRewriter i t = Ok (t', Some e) \<Longrightarrow> t' = t"
  "DelAggregator now i t = Ok (t', Some e) \<Longrightarrow> t' = t"
  by (auto simp: DelBlocklist_def DelRewriter_def DelAggregator_def Let_def split: if_splits)

lemma web_ok_done: "web_effect env req t t' \<Longrightarrow> web_ok env req t t' (Ok (Inr x))"
  by (simp add: web_ok_def)

lemma removals_post:
  "web_post (web_ok env (DeleteBlocklist index) t) (removeBlocklist index t)"
  "web_post (web_ok env (DeleteRewriter index) t) (removeRewriter index t)"
  "web_post (web_ok env (DeleteAggregator index) t) (removeAggregator (ce_now env div 10 ^ 9) index t)"
  unfolding removeBlocklist_def removeRewriter_def removeAggregator_def
  by (auto intro!: web_rules web_ok_done simp: web_effect_def dest: Del_error split: outcome.splits option.splits)

lemma removeDestination_post: "web_post (web_ok env (DeleteDestination key index) t) (removeDestination env key index t)"
proof -
  have "t' = t" if "tbl_DelDestination (cmd_methods env) key (index_of index) t = Ok (Some (t', Some e))" for t' e
    using that on_route_error [of "cmd_methods env" key] DelDestination_error
    unfolding tbl_DelDestination_def cmd_methods_def by blast
  then show ?thesis
    unfolding removeDestination_def
    by (auto intro!: web_rules web_ok_done simp: web_effect_def split: outcome.splits option.splits)
qed

lemma removeRoute_post: "web_post (web_ok env (DeleteOneRoute key) t) (removeRoute env key t)"
  unfolding removeRoute_def
  by (auto intro!: web_rules simp: web_ok_def web_effect_def split: outcome.splits option.splits prod.splits)

lemma new_matcher_regex: "new_matcher m = (mt, None) \<Longrightarrow> mo_regex m \<noteq> [] \<Longrightarrow> iregex mt \<noteq> None"
  by (rule matcher_of_regex) (simp_all add: matcher_of_def)

lemma addAggregate_post: "web_post (web_ok env (PostAggregator body) t) (addAggregate env body t)"
proof (cases body)
  case (Some b)
  have "web_effect env (PostAggregator (Some b)) t (tbl_AddAggregator a t)" if "new_matcher (aq_Match b) = (mt, None)"
    "agg_New f mt fmt cache interval wait dropRaw now = Ok (Inr a)" for mt f fmt cache interval wait dropRaw now a
    using agg_New_inv [OF that(2)] new_matcher_regex [OF that(1)] by (auto simp: web_effect_def)
  with Some show ?thesis
    unfolding addAggregate_def parseAggregateRequest_def web_matcher_def
    by (auto intro!: web_rules web_post_then web_ok_done split: outcome.splits option.splits sum.splits prod.splits)
qed (auto simp: addAggregate_def parseAggregateRequest_def intro!: web_post_then web_rules)

lemma addRewrite_post: "web_post (web_ok env (PostRewriter body) t) (addRewrite body t)"
proof (cases body)
  case (Some b)
  then show ?thesis
    unfolding addRewrite_def parseRewriterRequest_def
    by (auto intro!: web_rules web_post_then web_ok_done simp: web_effect_def split: sum.splits)
qed (auto simp: addRewrite_def parseRewriterRequest_def intro!: web_post_then web_rules)

text \<open>No route is ever added: its destination has no period for reconnecting.\<close>

lemma wrap64_0 [simp]: "wrap64 0 = 0"
  by (simp add: wrap64_def)

lemma addRoute_post: "web_post (\<lambda>t' r. t' = t \<and> \<not> (\<exists>x. r = Ok (Inr x))) (addRoute body t)"
  unfolding addRoute_def
proof (rule web_post_then, cases body)
  case (Some b)
  then show "web_post (\<lambda>t' x. case x of Panic p \<Rightarrow> t' = t \<and> \<not> (\<exists>x. Panic p = Ok (Inr x))
      | Ok (Inl e) \<Rightarrow> t' = t \<and> \<not> (\<exists>x. Ok (Inl e) = Ok (Inr x))
      | Ok (Inr y) \<Rightarrow> web_post (\<lambda>t' r. t' = t \<and> \<not> (\<exists>x. r = Ok (Inr x)))
          (respond (tbl_AddRoute y t') (RespMessage ''route added''))) (parseRouteRequest body t)"
    unfolding parseRouteRequest_def web_matcher_def
    by (auto intro!: web_post_then web_rules simp: Let_def decoded_def dest_New_def NewSendAllMatch_def NewSendFirstMatch_def
        dest_Run_def web_route_def split: outcome.splits option.splits sum.splits prod.splits)
qed (auto simp: parseRouteRequest_def intro!: web_rules)

lemma views_post:
  "web_post (web_ok env req t) (showConfig t)" "web_post (web_ok env req t) (listTable t)"
  "web_post (web_ok env req t) (listRoutes t)" "web_post (web_ok env req t) (badMetricsHandler now timespec t)"
  "web_post (web_ok env req t) (getRoute env key t)"
  unfolding showConfig_def listTable_def listRoutes_def badMetricsHandler_def getRoute_def
  by (auto intro!: web_rules split: option.splits sum.splits)

lemma addRoute_unchanged: "web_post (web_ok env req t) (addRoute body t)"
  using addRoute_post [of t body] by (auto simp: web_post_def)

lemma run_request_post: "web_post (web_ok env req t) (run_request env req t)"
  by (cases req) (simp_all add: run_request_def removals_post removals_post(3) [simplified] removeDestination_post removeRoute_post
      addAggregate_post addRewrite_post addRoute_unchanged views_post)

lemma run_request_ok: "run_request env req t = Ok (Some (t', r)) \<Longrightarrow> web_ok env req t t' r"
  using run_request_post [of env req t] by (simp add: web_post_def)

subsection \<open>Properties\<close>

lemma map_sum_Inl: "map_sum f g x = Inl y \<longleftrightarrow> (\<exists>e. x = Inl e \<and> y = f e)"
  by (cases x) auto

lemma requests_change:
  assumes "serve env req t = Ok (Some (t', reply))"
  shows "(t' = t \<or> web_effect (we_cmd env) req t t') \<and> ((\<exists>m c. reply = HttpError m c \<and> c \<noteq> 500) \<longrightarrow> t' = t)"
proof -
  obtain r where r: "run_request (we_cmd env) req t = Ok (Some (t', r))"
    "reply = ServeHTTP env (map_outcome (map_sum id Some) r)"
    using assms by (auto simp: serve_def)
  from run_request_ok [OF r(1)] r(2) show ?thesis
    by (auto simp: web_ok_def ServeHTTP_def map_sum_Inl split: outcome.splits sum.splits option.splits)
qed


definition example_web_env :: web_env where
  "example_web_env = \<lparr>we_cmd = example_cmd_env, we_text = (\<lambda>_. ''error''), we_marshal = (\<lambda>_. Inr ''{}'')\<rparr>"


text \<open>An entry that is not found is reported with an error of \<open>nil\<close>, whose text the server then asks for: the
  connection is dropped without a reply.\<close>

theorem missing_entries_drop_the_connection:
  assumes "index_of index \<ge> int (length (blocklist (t_config t)))"
  shows "serve env (DeleteBlocklist index) t = Ok (Some (t, Dropped NilDereference))"
  using assms
  by (simp add: serve_def run_request_def removeBlocklist_def DelBlocklist_def Let_def fail_with_def ServeHTTP_def)

theorem missing_entries_drop_the_connection_witness:
  "serve env (DeleteBlocklist ''0'') (relay_table [] []) = Ok (Some (relay_table [] [], Dropped NilDereference))"
proof -
  have "index_of ''0'' = 0" by code_simp
  then show ?thesis
    using missing_entries_drop_the_connection [of "relay_table [] []" "''0''" env] by (simp add: relay_table_def table_New_def)
qed

text \<open>The error of \<open>Atoi\<close> is ignored: an index that is not a number means the first entry.\<close>

theorem any_text_is_an_index:
  "\<exists>r. serve env (DeleteRewriter ''last'') (tbl_AddRewriter rw (relay_table [] [])) = Ok (Some (relay_table [] [], r))"
proof -
  have "index_of ''last'' = 0" by code_simp
  then show ?thesis
    by (auto simp: serve_def run_request_def removeRewriter_def DelRewriter_def tbl_AddRewriter_def relay_table_def
        table_New_def Let_def respond_def remove_nth_def)
qed

text \<open>A route that is posted ends the process: the period for reconnecting is a field that is not exported, so that
  it is zero whatever the body says, and the ticker of the destination panics in a goroutine of its own.\<close>

theorem posted_route_ends_the_process:
  assumes "new_matcher (rq_matcher req) = (m, None)" and "rq_Type req \<in> {''sendAllMatch'', ''sendFirstMatch''}"
  shows "serve env (PostRoute (Some req)) t = Panic NonPositiveTicker"
proof -
  have "rq_matcher (decoded req) = rq_matcher req" by (simp add: rq_matcher_def decoded_def)
  then show ?thesis
    using assms
    by (auto simp: serve_def run_request_def addRoute_def parseRouteRequest_def web_matcher_def and_then_def respond_def
        web_route_def NewSendAllMatch_def NewSendFirstMatch_def dest_Run_def dest_New_def decoded_def Let_def
        split: prod.splits)
qed

theorem posted_route_ends_the_process_witness:
  "\<exists>req. rq_periodReconn req = 10000 \<and> serve env (PostRoute (Some req)) t = Panic NonPositiveTicker"
proof -
  let ?req = "\<lparr>rq_Key = ''r'', rq_Type = ''sendAllMatch'', rq_Prefix = [], rq_NotPrefix = [], rq_Sub = [], rq_NotSub = [],
    rq_Regex = [], rq_NotRegex = [], rq_Address = ''h:2003'', rq_Spool = False, rq_Pickle = False, rq_periodFlush = 1000,
    rq_periodReconn = 10000, rq_ConnBufSize = 30000, rq_ConnIoBufSize = 2000000, rq_SpoolBufSize = 0,
    rq_SpoolMaxBytesPerFile = 0, rq_SpoolSyncEvery = 0, rq_spoolSyncPeriod = 0, rq_SpoolSleep = 0, rq_UnspoolSleep = 0\<rparr>"
  have "\<exists>m. new_matcher (rq_matcher ?req) = (m, None)"
    by (simp add: rq_matcher_def new_matcher_def matcher_New_def updateInternals_def)
  then show ?thesis using posted_route_ends_the_process [of ?req] by (auto intro!: exI [of _ ?req])
qed

end
