(* ===== verification/Nsqd_Correct.thy ===== *)
theory Nsqd_Correct
  imports Nsqd_DiskQueue
begin

text \<open>
  The correctness of the disk queue. The specification is a first-in first-out list of messages;
  \<open>laid\<close> says how such a list lies in the data files between the read and the write position, and
  \<open>dq_inv\<close> is the relation between a queue and its list. The contract of a queue that a spool
  relies on is the locale \<open>fifo_queue\<close>; its interpretation on the disk queue shows that each turn
  of \<open>ioLoop\<close> keeps it, with failing writes and failing syncs included.
\<close>

subsection \<open>Framing\<close>

definition valid_msg :: "bytes \<Rightarrow> bool" where
  "valid_msg m \<longleftrightarrow> length m < 2 ^ 31 - 4"

lemma int32_id: "- (2 ^ 31) \<le> i \<Longrightarrow> i < 2 ^ 31 \<Longrightarrow> int32 i = i"
  by (simp add: int32_def)

lemma length_be32 [simp]: "length (be32 n) = 4"
  by (simp add: be32_def)

lemma be_val_be32:
  assumes "0 \<le> n" "n < 2 ^ 32" shows "be_val (be32 n) = n"
proof -
  have top: "n div 16777216 mod 256 = n div 16777216" using assms by simp
  have a: "n div 65536 = n div 16777216 * 256 + n div 65536 mod 256"
    using div_mult_mod_eq [of "n div 65536" 256] by (simp add: zdiv_zmult2_eq [symmetric])
  have b: "n div 256 = n div 65536 * 256 + n div 256 mod 256"
    using div_mult_mod_eq [of "n div 256" 256] by (simp add: zdiv_zmult2_eq [symmetric])
  have c: "n = n div 256 * 256 + n mod 256" by simp
  have "be_val (be32 n) =
      ((n div 16777216 mod 256 * 256 + n div 65536 mod 256) * 256 + n div 256 mod 256) * 256 + n mod 256"
    by (simp add: be_val_def be32_def mult.commute)
  also have "\<dots> = n" by (simp only: top a [symmetric] b [symmetric] c [symmetric])
  finally show ?thesis .
qed

lemma frame_valid: "valid_msg m \<Longrightarrow> frame m = be32 (int (length m)) @ m"
  by (simp add: frame_def valid_msg_def int32_id)

lemma length_frame [simp]: "length (frame m) = 4 + length m"
  by (simp add: frame_def)

lemma take_write_at: "k \<le> p \<Longrightarrow> k \<le> length c \<Longrightarrow> take k (write_at p s c) = take k c"
  by (simp add: write_at_def min_def)

lemma read_write_at: "take (length s) (drop p (write_at p s c)) = s"
  by (auto simp: write_at_def min_def)

text \<open>Data files have different names, so that a file is its number.\<close>

lemma digits_val_zeros: "digits_val (replicate k CHR ''0'' @ s) = digits_val s"
  by (induction k) (simp_all add: digits_val_def digit_val_def)

lemma dq_fileName_inj: "dq_fileName name m = dq_fileName name n \<longleftrightarrow> m = n"
proof
  assume "dq_fileName name m = dq_fileName name n"
  then have "pad_left 6 CHR ''0'' (format_nat m) = pad_left 6 CHR ''0'' (format_nat n)"
    by (simp add: dq_fileName_def)
  then have "digits_val (pad_left 6 CHR ''0'' (format_nat m)) = digits_val (pad_left 6 CHR ''0'' (format_nat n))"
    by simp
  then show "m = n" by (simp add: pad_left_def digits_val_zeros)
qed simp

subsection \<open>Messages laid out in the files\<close>

definition next_pos :: "int \<Rightarrow> int \<times> int \<Rightarrow> bytes \<Rightarrow> int \<times> int" where
  "next_pos mx pos m =
     (let q = snd pos + 4 + int (length m) in if q > mx then (fst pos + 1, 0) else (fst pos, q))"

definition record_at :: "(int \<rightharpoonup> bytes) \<Rightarrow> int \<times> int \<Rightarrow> bytes \<Rightarrow> bool" where
  "record_at fs pos m \<longleftrightarrow> (\<exists>c. fs (fst pos) = Some c \<and> take (4 + length m) (drop (nat (snd pos)) c) = frame m)"

fun laid :: "(int \<rightharpoonup> bytes) \<Rightarrow> int \<Rightarrow> int \<times> int \<Rightarrow> bytes list \<Rightarrow> int \<times> int \<Rightarrow> bool" where
  "laid fs mx r [] w \<longleftrightarrow> r = w"
| "laid fs mx r (m # ms) w \<longleftrightarrow> valid_msg m \<and> record_at fs r m \<and> laid fs mx (next_pos mx r m) ms w"

definition before :: "int \<times> int \<Rightarrow> int \<times> int \<Rightarrow> bool" where
  "before r w \<longleftrightarrow> fst r < fst w \<or> (fst r = fst w \<and> snd r < snd w)"

lemma next_pos_before: "0 \<le> snd r \<Longrightarrow> before r (next_pos mx r m) \<and> 0 \<le> snd (next_pos mx r m)"
  by (auto simp: next_pos_def before_def Let_def)

lemma before_trans: "before a b \<Longrightarrow> before b c \<Longrightarrow> before a c"
  by (auto simp: before_def)

lemma laid_order:
  "laid fs mx r ms w \<Longrightarrow> 0 \<le> snd r \<Longrightarrow> 0 \<le> snd w \<and> (if ms = [] then r = w else before r w)"
proof (induction ms arbitrary: r)
  case (Cons m ms)
  have n: "before r (next_pos mx r m)" "0 \<le> snd (next_pos mx r m)"
    using next_pos_before [OF Cons(3)] by auto
  have "0 \<le> snd w \<and> (if ms = [] then next_pos mx r m = w else before (next_pos mx r m) w)"
    using Cons.IH [of "next_pos mx r m"] Cons(2) n by simp
  then show ?case using n(1) before_trans [OF n(1), of w] by (auto split: if_splits)
qed simp

lemma laid_order_le:
  "laid fs mx r ms w \<Longrightarrow> 0 \<le> snd r \<Longrightarrow> fst r < fst w \<or> (fst r = fst w \<and> snd r \<le> snd w)"
  using laid_order [of fs mx r ms w] by (auto simp: before_def split: if_splits)

text \<open>Only the bytes between the two positions matter.\<close>

lemma laid_cong:
  assumes "laid fs mx r ms w" "0 \<le> snd r"
    and "\<And>f. fst r \<le> f \<Longrightarrow> f < fst w \<Longrightarrow> fs' f = fs f"
    and "\<And>c. fs (fst w) = Some c \<Longrightarrow>
      \<exists>c'. fs' (fst w) = Some c' \<and> (\<forall>k. k \<le> nat (snd w) \<longrightarrow> k \<le> length c \<longrightarrow> take k c' = take k c)"
  shows "laid fs' mx r ms w"
  using assms(1-3)
proof (induction ms arbitrary: r)
  case (Cons m ms)
  let ?n = "next_pos mx r m"
  have n: "laid fs mx ?n ms w" "0 \<le> snd ?n" "before r ?n" and v: "valid_msg m"
    using Cons(2,3) next_pos_before by auto
  have "fst r \<le> fst ?n" using n(3) by (auto simp: before_def)
  then have "laid fs' mx ?n ms w" using Cons.IH [OF n(1,2)] Cons(4) by simp
  moreover have "record_at fs' r m"
  proof -
    obtain c where c: "fs (fst r) = Some c" "take (4 + length m) (drop (nat (snd r)) c) = frame m"
      using Cons(2) by (auto simp: record_at_def)
    have le: "fst ?n < fst w \<or> (fst ?n = fst w \<and> snd ?n \<le> snd w)"
      using laid_order_le [OF n(1,2)] .
    show ?thesis
    proof (cases "fst r = fst w")
      case True
      then have same: "?n = (fst r, snd r + 4 + int (length m))"
        using le by (auto simp: next_pos_def Let_def split: if_splits)
      let ?k = "nat (snd r) + 4 + length m"
      have "nat (snd r) + (4 + length m) \<le> length c"
        using arg_cong [OF c(2), of length] by simp
      then have len: "?k \<le> length c" by simp
      have "?k \<le> nat (snd w)" using le same True Cons(3) by auto
      then obtain c' where c': "fs' (fst w) = Some c'" "take ?k c' = take ?k c"
        using assms(4) [of c] c(1) True len by auto
      have "take (4 + length m) (drop (nat (snd r)) c') = drop (nat (snd r)) (take ?k c')"
        by (simp add: drop_take)
      also have "\<dots> = take (4 + length m) (drop (nat (snd r)) c)"
        unfolding c'(2) by (simp add: drop_take)
      finally show ?thesis using c c' True by (auto simp: record_at_def)
    next
      case False
      then have "fst r < fst w" using le n(3) by (auto simp: before_def)
      then show ?thesis using c Cons(4) [of "fst r"] by (auto simp: record_at_def)
    qed
  qed
  ultimately show ?case using v by simp
qed simp

lemma laid_snoc:
  "laid fs mx r (ms @ [m]) w' \<longleftrightarrow>
     (\<exists>w. laid fs mx r ms w \<and> valid_msg m \<and> record_at fs w m \<and> w' = next_pos mx w m)"
  by (induction ms arbitrary: r) auto

lemma laid_write:
  assumes "laid fs mx r ms w" "0 \<le> snd r" "c = (case fs (fst w) of None \<Rightarrow> [] | Some c \<Rightarrow> c)"
  shows "laid (fs(fst w \<mapsto> write_at (nat (snd w)) s c)) mx r ms w"
  using assms(1,2)
  by (rule laid_cong) (auto simp: assms(3) take_write_at)

lemma laid_append:
  assumes "laid fs mx r ms w" "0 \<le> snd r" "c = (case fs (fst w) of None \<Rightarrow> [] | Some c \<Rightarrow> c)" "valid_msg m"
  shows "laid (fs(fst w \<mapsto> write_at (nat (snd w)) (frame m) c)) mx r (ms @ [m]) (next_pos mx w m)"
proof -
  have "record_at (fs(fst w \<mapsto> write_at (nat (snd w)) (frame m) c)) w m"
    using read_write_at [of "frame m" "nat (snd w)" c] by (simp add: record_at_def)
  then show ?thesis using laid_write [OF assms(1-3)] assms(4) unfolding laid_snoc by blast
qed

lemma laid_remove:
  assumes "laid fs mx r ms w" "0 \<le> snd r" "f < fst r"
  shows "laid (fs(f := None)) mx r ms w"
proof -
  have "f < fst w" using laid_order_le [OF assms(1,2)] assms(3) by auto
  then show ?thesis using assms by (intro laid_cong [OF assms(1,2)]) auto
qed

subsection \<open>The invariant\<close>

abbreviation rpos :: "DiskQueue \<Rightarrow> int \<times> int" where "rpos d \<equiv> (readFileNum d, readPos d)"
abbreviation wpos :: "DiskQueue \<Rightarrow> int \<times> int" where "wpos d \<equiv> (writeFileNum d, writePos d)"
abbreviation npos :: "DiskQueue \<Rightarrow> int \<times> int" where "npos d \<equiv> (nextReadFileNum d, nextReadPos d)"

definition fetched :: "DiskQueue \<Rightarrow> bytes list \<Rightarrow> bool" where
  "fetched d q \<longleftrightarrow> (\<exists>m q'. q = m # q' \<and> dataRead d = m \<and> npos d = next_pos (maxBytesPerFile d) (rpos d) m)"

definition dq_inv :: "DiskQueue \<Rightarrow> bytes list \<Rightarrow> bool" where
  "dq_inv d q \<longleftrightarrow> laid (files d) (maxBytesPerFile d) (rpos d) q (wpos d) \<and> 0 \<le> readPos d \<and>
     depth d = int (length q) \<and> (npos d = rpos d \<or> fetched d q)"

lemma dq_inv_fields:
  "files d' = files d \<Longrightarrow> maxBytesPerFile d' = maxBytesPerFile d \<Longrightarrow> rpos d' = rpos d \<Longrightarrow>
   wpos d' = wpos d \<Longrightarrow> depth d' = depth d \<Longrightarrow> npos d' = npos d \<Longrightarrow> dataRead d' = dataRead d \<Longrightarrow>
   dq_inv d' q = dq_inv d q"
  by (simp add: dq_inv_def fetched_def)

lemma sync_fields [simp]:
  "files (fst (sync ok d)) = files d" "maxBytesPerFile (fst (sync ok d)) = maxBytesPerFile d"
  "readPos (fst (sync ok d)) = readPos d" "readFileNum (fst (sync ok d)) = readFileNum d"
  "writePos (fst (sync ok d)) = writePos d" "writeFileNum (fst (sync ok d)) = writeFileNum d"
  "nextReadPos (fst (sync ok d)) = nextReadPos d" "nextReadFileNum (fst (sync ok d)) = nextReadFileNum d"
  "depth (fst (sync ok d)) = depth d" "dataRead (fst (sync ok d)) = dataRead d"
  "readReady (fst (sync ok d)) = readReady d" "exitFlag (fst (sync ok d)) = exitFlag d"
  by (simp_all add: sync_def persistMetaData_def)

lemma dq_inv_sync [simp]: "dq_inv (fst (sync ok d)) q = dq_inv d q"
  by (rule dq_inv_fields) simp_all

lemma has_data_iff:
  assumes "dq_inv d q" shows "has_data d \<longleftrightarrow> q \<noteq> []"
  using laid_order [of "files d" "maxBytesPerFile d" "rpos d" q "wpos d"] assms
  by (auto simp: dq_inv_def has_data_def before_def split: if_splits)

lemma readOne_record:
  assumes "record_at (files d) (rpos d) m" "valid_msg m"
  shows "readOne d = Ok (d\<lparr>nextReadFileNum := fst (next_pos (maxBytesPerFile d) (rpos d) m),
      nextReadPos := snd (next_pos (maxBytesPerFile d) (rpos d) m)\<rparr>, Inr m)"
proof -
  obtain c where c: "files d (readFileNum d) = Some c"
      "take (4 + length m) (drop (nat (readPos d)) c) = frame m"
    using assms(1) by (auto simp: record_at_def)
  let ?s = "drop (nat (readPos d)) c"
  have fr: "frame m = be32 (int (length m)) @ m" using assms(2) by (rule frame_valid)
  have len: "4 + length m \<le> length ?s"
    using arg_cong [OF c(2), of length] by simp
  have "take 4 (take (4 + length m) ?s) = be32 (int (length m))" unfolding c(2) fr by simp
  then have hd: "take 4 ?s = be32 (int (length m))" by (simp add: min_def)
  have "drop 4 (take (4 + length m) ?s) = m" unfolding c(2) fr by simp
  then have body: "take (length m) (drop 4 ?s) = m" by (simp add: drop_take)
  have "int (length m) < 2 ^ 32" using assms(2) by (simp add: valid_msg_def)
  then have size: "int32 (be_val (take 4 ?s)) = int (length m)"
    unfolding hd using assms(2) by (simp add: be_val_be32 int32_id valid_msg_def)
  have total: "int32 (4 + int (length m)) = 4 + int (length m)"
    using assms(2) by (simp add: int32_id valid_msg_def)
  have ne: "?s \<noteq> []" "\<not> length ?s < 4" using len by auto
  show ?thesis
    unfolding readOne_def c(1) option.case Let_def size using ne body total
    by (simp add: next_pos_def Let_def)
qed

text \<open>What precedes the \<open>select\<close>: with data in the queue its first message is at hand.\<close>

lemma loop_top_inv:
  assumes "dq_inv d q"
  obtains d' where "loop_top ok d = Ok (d', False)" "dq_inv d' q" "readReady d' \<longleftrightarrow> q \<noteq> []"
    "q \<noteq> [] \<longrightarrow> fetched d' q"
proof -
  define d1 where "d1 = d\<lparr>loopCount := loopCount d + 1\<rparr>"
  define d2 where "d2 = (if loopCount d1 = syncEvery d1 then d1\<lparr>loopCount := 0, needSync := True\<rparr> else d1)"
  define d3 where "d3 = (if needSync d2 then fst (sync ok d2) else d2)"
  have "dq_inv d1 q" "dq_inv d2 q" using assms by (simp_all add: d1_def d2_def dq_inv_def fetched_def)
  then have inv: "dq_inv d3 q" by (simp add: d3_def)
  have top: "loop_top ok d =
      (if has_data d3
         then if nextReadPos d3 = readPos d3
              then (case readOne d3 of
                      Panic p \<Rightarrow> Panic p
                    | Ok (d4, Inl err) \<Rightarrow> Ok (handleReadError d4, True)
                    | Ok (d4, Inr data) \<Rightarrow> Ok (d4\<lparr>dataRead := data, readReady := True\<rparr>, False))
              else Ok (d3\<lparr>readReady := True\<rparr>, False)
         else Ok (d3\<lparr>readReady := False\<rparr>, False))"
    unfolding loop_top_def Let_def d1_def [symmetric] d2_def [symmetric] d3_def [symmetric] by simp
  show thesis
  proof (cases q)
    case Nil
    then have "\<not> has_data d3" using has_data_iff [OF inv] by simp
    then show ?thesis
      using that [of "d3\<lparr>readReady := False\<rparr>"] top inv Nil by (simp add: dq_inv_def fetched_def)
  next
    case (Cons m q')
    then have has: "has_data d3" using has_data_iff [OF inv] by simp
    show ?thesis
    proof (cases "nextReadPos d3 = readPos d3")
      case True
      have rec: "record_at (files d3) (rpos d3) m" "valid_msg m" using inv Cons by (auto simp: dq_inv_def)
      let ?n = "next_pos (maxBytesPerFile d3) (rpos d3) m"
      let ?d = "d3\<lparr>nextReadFileNum := fst ?n, nextReadPos := snd ?n, dataRead := m, readReady := True\<rparr>"
      have "loop_top ok d = Ok (?d, False)"
        using top has True readOne_record [OF rec] by simp
      moreover have "dq_inv ?d q" "fetched ?d q"
        using inv Cons by (auto simp: dq_inv_def fetched_def)
      ultimately show ?thesis using that Cons by simp
    next
      case False
      then have "fetched d3 q" using inv by (auto simp: dq_inv_def)
      then show ?thesis
        using that [of "d3\<lparr>readReady := True\<rparr>"] top has False inv Cons by (simp add: dq_inv_def fetched_def)
    qed
  qed
qed

lemma moveForward_inv:
  assumes "dq_inv d (m # q)" "fetched d (m # q)"
  shows "dq_inv (moveForward d) q"
proof -
  let ?mx = "maxBytesPerFile d"
  have n: "npos d = next_pos ?mx (rpos d) m" using assms(2) by (auto simp: fetched_def)
  have laid: "laid (files d) ?mx (npos d) q (wpos d)" and dep: "depth d = 1 + int (length q)"
    and pos: "0 \<le> readPos d"
    using assms(1) n by (auto simp: dq_inv_def)
  have next0: "0 \<le> nextReadPos d" "before (rpos d) (npos d)"
    using next_pos_before [of "rpos d" ?mx m] pos n by (metis snd_conv)+
  define d1 where "d1 = d\<lparr>readFileNum := nextReadFileNum d, readPos := nextReadPos d, depth := depth d - 1\<rparr>"
  define d2 where "d2 = (if readFileNum d \<noteq> nextReadFileNum d1
      then d1\<lparr>needSync := True, files := (files d1)(readFileNum d := None)\<rparr> else d1)"
  have "laid (files d2) ?mx (npos d) q (wpos d)"
    using laid laid_remove [OF laid, of "readFileNum d"] next0
    by (auto simp: d2_def d1_def before_def)
  then have inv: "dq_inv d2 q"
    using next0 dep by (auto simp: dq_inv_def d2_def d1_def)
  have mv: "moveForward d = checkTailCorruption (depth d1) d2"
    by (simp add: moveForward_def Let_def d1_def d2_def)
  show ?thesis
  proof (cases "q = []")
    case True
    then have "rpos d2 = wpos d2" "depth d1 = 0"
      using inv dep by (auto simp: dq_inv_def d1_def)
    then have "checkTailCorruption (depth d1) d2 = d2"
      by (simp add: checkTailCorruption_def)
    then show ?thesis using mv inv by simp
  next
    case False
    then have "has_data d2" using has_data_iff [OF inv] by simp
    then have "checkTailCorruption (depth d1) d2 = d2"
      by (simp add: checkTailCorruption_def has_data_def)
    then show ?thesis using mv inv by simp
  qed
qed

lemma fetched_append: "fetched d q \<Longrightarrow> fetched d (q @ x)"
  by (auto simp: fetched_def)

lemma writeOne_inv:
  assumes "dq_inv d q" "valid_msg m"
  shows "dq_inv (fst (writeOne fault ok m d)) (q @ (if fault = None then [m] else []))"
proof -
  define c where "c = (case files d (writeFileNum d) of None \<Rightarrow> [] | Some c \<Rightarrow> c)"
  have laid: "laid (files d) (maxBytesPerFile d) (rpos d) q (wpos d)" "0 \<le> snd (rpos d)"
    using assms(1) by (auto simp: dq_inv_def)
  have c: "c = (case files d (fst (wpos d)) of None \<Rightarrow> [] | Some c \<Rightarrow> c)" by (simp add: c_def)
  show ?thesis
  proof (cases fault)
    case (Some n)
    have "laid ((files d)(writeFileNum d \<mapsto> write_at (nat (writePos d)) (take n (frame m)) c))
        (maxBytesPerFile d) (rpos d) q (wpos d)"
      using laid_write [OF laid c, of "take n (frame m)"] by simp
    then show ?thesis
      using assms(1) Some by (simp add: writeOne_def c_def [symmetric] Let_def dq_inv_def fetched_def)
  next
    case None
    define d1 where "d1 = d\<lparr>files := (files d)(writeFileNum d \<mapsto> write_at (nat (writePos d)) (frame m) c),
        writePos := writePos d + (4 + int (length m)), depth := depth d + 1\<rparr>"
    define d2 where "d2 = (if writePos d1 > maxBytesPerFile d1
        then d1\<lparr>writeFileNum := writeFileNum d1 + 1, writePos := 0\<rparr> else d1)"
    have w: "fst (writeOne fault ok m d) = (if writePos d1 > maxBytesPerFile d1 then fst (sync ok d2) else d2)"
      unfolding writeOne_def c_def [symmetric] Let_def None by (simp add: d2_def d1_def)
    have "wpos d2 = next_pos (maxBytesPerFile d) (wpos d) m"
      by (auto simp: d2_def d1_def next_pos_def Let_def)
    moreover have "files d2 = (files d)(writeFileNum d \<mapsto> write_at (nat (writePos d)) (frame m) c)"
      by (simp add: d2_def d1_def)
    ultimately have "laid (files d2) (maxBytesPerFile d) (rpos d) (q @ [m]) (wpos d2)"
      using laid_append [OF laid c assms(2)] by simp
    then have "dq_inv d2 (q @ [m])"
      using assms(1) by (auto simp: dq_inv_def d2_def d1_def fetched_def)
    then show ?thesis using w None by simp
  qed
qed

lemma deleteAllFiles_inv: "dq_inv (fst (deleteAllFiles d)) []"
  by (simp add: deleteAllFiles_def skipToNextRWFile_def Let_def dq_inv_def)

subsection \<open>The contract of a queue\<close>

text \<open>A queue that is driven by events, each of which may write messages and may deliver some.\<close>

fun queue_run :: "('e \<Rightarrow> 's \<Rightarrow> ('s \<times> 'r) outcome) \<Rightarrow> 'e list \<Rightarrow> 's \<Rightarrow> ('s \<times> 'r list) outcome" where
  "queue_run step [] s = Ok (s, [])"
| "queue_run step (e # es) s =
     (case step e s of
        Panic p \<Rightarrow> Panic p
      | Ok (s', r) \<Rightarrow>
          (case queue_run step es s' of Panic p \<Rightarrow> Panic p | Ok (s'', rs) \<Rightarrow> Ok (s'', r # rs)))"

locale fifo_queue =
  fixes rel :: "'s \<Rightarrow> bytes list \<Rightarrow> bool"
    and step :: "'e \<Rightarrow> 's \<Rightarrow> ('s \<times> 'r) outcome"
    and allowed :: "'e \<Rightarrow> bool"
    and puts :: "'e \<Rightarrow> bytes list"
    and gets :: "'r \<Rightarrow> bytes list"
    and is_get :: "'e \<Rightarrow> bool"
  assumes step_rel: "rel s q \<Longrightarrow> allowed e \<Longrightarrow>
      \<exists>s' r q'. step e s = Ok (s', r) \<and> rel s' q' \<and> gets r @ q' = q @ puts e"
    and get_allowed: "is_get e \<Longrightarrow> allowed e \<and> puts e = []"
    and get_takes: "rel s (m # q) \<Longrightarrow> is_get e \<Longrightarrow> step e s = Ok (s', r) \<Longrightarrow> gets r = [m]"
    and get_none: "rel s [] \<Longrightarrow> is_get e \<Longrightarrow> step e s = Ok (s', r) \<Longrightarrow> gets r = []"
begin

lemma run_fifo:
  "rel s q \<Longrightarrow> list_all allowed es \<Longrightarrow>
     \<exists>s' rs q'. queue_run step es s = Ok (s', rs) \<and> rel s' q' \<and>
       concat (map gets rs) @ q' = q @ concat (map puts es)"
proof (induction es arbitrary: s q)
  case (Cons e es)
  obtain s1 r q1 where one: "step e s = Ok (s1, r)" "rel s1 q1" "gets r @ q1 = q @ puts e"
    using step_rel [OF Cons(2), of e] Cons(3) by fastforce
  obtain s' rs q' where "queue_run step es s1 = Ok (s', rs)" "rel s' q'"
      "concat (map gets rs) @ q' = q1 @ concat (map puts es)"
    using Cons.IH [OF one(2)] Cons(3) by auto
  with one show ?case by auto
qed simp

lemma drain:
  "rel s q \<Longrightarrow> is_get e \<Longrightarrow>
     \<exists>s' rs. queue_run step (replicate k e) s = Ok (s', rs) \<and> concat (map gets rs) = take k q"
proof (induction k arbitrary: s q)
  case (Suc k)
  have e: "allowed e" "puts e = []" using get_allowed [OF Suc(3)] by auto
  obtain s1 r q1 where one: "step e s = Ok (s1, r)" "rel s1 q1" "gets r @ q1 = q @ puts e"
    using step_rel [OF Suc(2) e(1)] by blast
  have r: "gets r = take 1 q"
    using get_takes [OF _ Suc(3) one(1)] get_none [OF _ Suc(3) one(1)] Suc(2) by (cases q) auto
  then have "q1 = drop 1 q" using one(3) e(2) by (cases q) auto
  moreover obtain s' rs where "queue_run step (replicate k e) s1 = Ok (s', rs)" "concat (map gets rs) = take k q1"
    using Suc.IH [OF one(2) Suc(3)] by blast
  ultimately show ?case using one(1) r by (cases q) auto
qed simp

end

subsection \<open>The disk queue keeps the contract\<close>

fun dq_allowed :: "bool \<times> dq_event \<Rightarrow> bool" where
  "dq_allowed (ok, WriteReq m fault) = valid_msg m"
| "dq_allowed (ok, Deliver) = True"
| "dq_allowed (ok, SyncTick) = True"
| "dq_allowed (ok, EmptyReq) = False"
| "dq_allowed (ok, ExitReq) = False"

fun written :: "bool \<times> dq_event \<Rightarrow> bytes list" where
  "written (ok, WriteReq m None) = [m]"
| "written _ = []"

fun delivered :: "dq_reply \<Rightarrow> bytes list" where
  "delivered (Delivered m) = [m]"
| "delivered _ = []"

lemma dq_step_inv:
  assumes "dq_inv d q" "dq_allowed e"
  shows "\<exists>d' r q'. dq_step e d = Ok (d', r) \<and> dq_inv d' q' \<and> delivered r @ q' = q @ written e"
proof -
  obtain ok ev where e: "e = (ok, ev)" by (cases e)
  obtain d1 where d1: "loop_top ok d = Ok (d1, False)" "dq_inv d1 q" "readReady d1 \<longleftrightarrow> q \<noteq> []"
      "q \<noteq> [] \<longrightarrow> fetched d1 q"
    using loop_top_inv [OF assms(1)] .
  have st: "dq_step e d = Ok (select_case ok ev d1)" using d1(1) by (simp add: dq_step_def e)
  show ?thesis
  proof (cases ev)
    case Deliver
    show ?thesis
    proof (cases q)
      case Nil
      then show ?thesis using st Deliver d1 e by auto
    next
      case (Cons m q')
      then have "dataRead d1 = m" "dq_inv (moveForward d1) q'"
        using d1 moveForward_inv [of d1 m q'] by (auto simp: fetched_def)
      then show ?thesis using st Deliver d1 e Cons by auto
    qed
  next
    case (WriteReq m fault)
    then have "dq_inv (fst (writeOne fault ok m d1)) (q @ written e)"
      using writeOne_inv [OF d1(2), of m fault ok] assms(2) e by (cases fault) auto
    then show ?thesis using st WriteReq by (auto split: prod.splits)
  next
    case SyncTick
    then show ?thesis using st d1(2) e by (auto simp: dq_inv_def fetched_def)
  qed (use assms(2) e in auto)
qed

lemma dq_step_deliver:
  assumes "dq_inv d q" "dq_step (ok, Deliver) d = Ok (d', r)"
  shows "delivered r = take 1 q"
proof -
  obtain d1 where d1: "loop_top ok d = Ok (d1, False)" "dq_inv d1 q" "readReady d1 \<longleftrightarrow> q \<noteq> []"
      "q \<noteq> [] \<longrightarrow> fetched d1 q"
    using loop_top_inv [OF assms(1)] .
  then show ?thesis using assms(2) by (auto simp: dq_step_def fetched_def split: if_splits)
qed

interpretation dq: fifo_queue dq_inv dq_step dq_allowed written delivered "\<lambda>e. snd e = Deliver"
proof
  fix d q e d' r m
  show "dq_inv d q \<Longrightarrow> dq_allowed e \<Longrightarrow>
      \<exists>s' r q'. dq_step e d = Ok (s', r) \<and> dq_inv s' q' \<and> delivered r @ q' = q @ written e"
    by (rule dq_step_inv)
  show "snd e = Deliver \<Longrightarrow> dq_allowed e \<and> written e = []" by (cases e) auto
  show "dq_inv d (m # q) \<Longrightarrow> snd e = Deliver \<Longrightarrow> dq_step e d = Ok (d', r) \<Longrightarrow> delivered r = [m]"
    using dq_step_deliver [of d "m # q" "fst e" d' r] by (cases e) auto
  show "dq_inv d [] \<Longrightarrow> snd e = Deliver \<Longrightarrow> dq_step e d = Ok (d', r) \<Longrightarrow> delivered r = []"
    using dq_step_deliver [of d "[]" "fst e" d' r] by (cases e) auto
qed

definition fresh_queue :: "int \<Rightarrow> int \<Rightarrow> DiskQueue" where
  "fresh_queue mx se = NewDiskQueue mx se Map.empty Map.empty None None"

lemma fresh_queue_inv: "dq_inv (fresh_queue mx se) []"
  by (simp add: fresh_queue_def NewDiskQueue_def retrieveMetaData_def dq_inv_def)

subsection \<open>Restarting from the metadata\<close>

lemma scan_d_format_int:
  assumes "- (2 ^ 63) \<le> i" "i < 2 ^ 63" "\<not> is_digit c"
  shows "scan_d (format_int i @ c # rest) = Some (i, c # rest)"
proof -
  have dig: "list_all is_digit (format_nat n)" for n by simp
  have hd: "is_digit (hd (format_nat n))" for n by (rule format_nat_hd)
  have nb: "\<not> (hd (format_nat n) = CHR '' '' \<or> hd (format_nat n) = CHR 0x09)"
    "hd (format_nat n) \<noteq> CHR ''-''" "hd (format_nat n) \<noteq> CHR ''+''" for n
    using hd [of n] by (auto simp: is_digit_def)
  have tw: "takeWhile is_digit (format_nat n @ c # rest) = format_nat n"
    "dropWhile is_digit (format_nat n @ c # rest) = c # rest" for n
    using dig [of n] assms(3)
    by (simp_all add: list_all_iff takeWhile_append_stop dropWhile_append_stop)
  have dw: "dropWhile (\<lambda>c. c = CHR '' '' \<or> c = CHR 0x09) (format_nat n @ xs) = format_nat n @ xs" for n xs
    using nb(1) [of n] by (cases "format_nat n") auto
  show ?thesis
  proof (cases "i < 0")
    case True
    then show ?thesis
      using assms(1) by (simp add: scan_d_def format_int_def Let_def tw)
  next
    case False
    have hd': "hd (format_nat n @ c # rest) = hd (format_nat n)" for n by (cases "format_nat n") auto
    show ?thesis
      using False assms(2) unfolding scan_d_def format_int_def Let_def
      by (simp add: dw tw hd' nb)
  qed
qed

definition positions_fit :: "DiskQueue \<Rightarrow> bool" where
  "positions_fit d \<longleftrightarrow>
     (\<forall>x \<in> {depth d, readFileNum d, readPos d, writeFileNum d, writePos d}. - (2 ^ 63) \<le> x \<and> x < 2 ^ 63)"

lemma scan_field_format_int:
  assumes "- (2 ^ 63) \<le> i" "i < 2 ^ 63" "\<not> is_digit c"
  shows "scan_field put c (format_int i @ c # rest, x, True) = (rest, put i x, True)"
  using scan_d_format_int [OF assms] by (simp add: scan_field_def scan_char_def)

lemma scan_meta_format:
  assumes "positions_fit d"
  shows "scan_meta (format_meta d @ junk) d0 =
    (d0\<lparr>depth := depth d, readFileNum := readFileNum d, readPos := readPos d,
        writeFileNum := writeFileNum d, writePos := writePos d,
        nextReadFileNum := readFileNum d, nextReadPos := readPos d\<rparr>, None)"
proof -
  have "\<not> is_digit CHR 0x0A" "\<not> is_digit CHR '',''" by (simp_all add: is_digit_def)
  then show ?thesis
    using assms by (simp add: scan_meta_def format_meta_def positions_fit_def scan_field_format_int)
qed

definition restart :: "DiskQueue \<Rightarrow> DiskQueue" where
  "restart d = NewDiskQueue (maxBytesPerFile d) (syncEvery d) (files d) (badFiles d) (metaFile d) (metaTmp d)"

lemma restart_inv:
  assumes "dq_inv d q" "positions_fit d"
  shows "dq_inv (restart (fst (Close True d))) q"
proof -
  let ?d = "fst (Close True d)"
  have mf: "metaFile ?d = Some (format_meta d @ drop (length (format_meta d)) (case metaTmp d of None \<Rightarrow> [] | Some s \<Rightarrow> s))"
    by (simp add: Close_def sync_def persistMetaData_def exit_queue_def write_at_def format_meta_def)
  have same: "maxBytesPerFile ?d = maxBytesPerFile d" "files ?d = files d"
    by (simp_all add: Close_def exit_queue_def)
  show ?thesis
    using assms(1) unfolding restart_def NewDiskQueue_def retrieveMetaData_def
    by (simp add: mf scan_meta_format [OF assms(2)] same dq_inv_def)
qed

subsection \<open>Read errors\<close>

lemma loop_top_error:
  assumes "loop_top ok d = Ok (d', True)"
  shows "\<exists>d0. readFileNum d0 = readFileNum d \<and> writeFileNum d0 = writeFileNum d \<and> writePos d0 = writePos d \<and>
    d' = handleReadError d0"
proof -
  define d1 where "d1 = d\<lparr>loopCount := loopCount d + 1\<rparr>"
  define d2 where "d2 = (if loopCount d1 = syncEvery d1 then d1\<lparr>loopCount := 0, needSync := True\<rparr> else d1)"
  define d3 where "d3 = (if needSync d2 then fst (sync ok d2) else d2)"
  have f: "readFileNum d3 = readFileNum d" "writeFileNum d3 = writeFileNum d" "writePos d3 = writePos d"
    by (simp_all add: d1_def d2_def d3_def)
  have "\<exists>d4 err. readOne d3 = Ok (d4, Inl err) \<and> d' = handleReadError d4"
    using assms unfolding loop_top_def Let_def d1_def [symmetric] d2_def [symmetric] d3_def [symmetric]
    by (auto split: if_splits outcome.splits prod.splits sum.splits)
  moreover have "d4 = d3" if "readOne d3 = Ok (d4, Inl err)" for d4 err
    using that by (auto simp: readOne_def Let_def split: option.splits if_splits)
  ultimately show ?thesis using f by blast
qed

lemma handleReadError_pos:
  "readFileNum (handleReadError d) = readFileNum d + 1"
  "writeFileNum (handleReadError d) = (if readFileNum d = writeFileNum d then writeFileNum d + 1 else writeFileNum d)"
  "readPos (handleReadError d) = 0"
  "writePos (handleReadError d) = (if readFileNum d = writeFileNum d then 0 else writePos d)"
  by (simp_all add: handleReadError_def Let_def split: option.split)

lemma loop_top_no_data:
  assumes "\<not> has_data d" shows "\<exists>d'. loop_top ok d = Ok (d', False)"
proof -
  define d1 where "d1 = d\<lparr>loopCount := loopCount d + 1\<rparr>"
  define d2 where "d2 = (if loopCount d1 = syncEvery d1 then d1\<lparr>loopCount := 0, needSync := True\<rparr> else d1)"
  define d3 where "d3 = (if needSync d2 then fst (sync ok d2) else d2)"
  have "\<not> has_data d3" using assms by (simp add: d1_def d2_def d3_def has_data_def)
  then show ?thesis
    unfolding loop_top_def Let_def d1_def [symmetric] d2_def [symmetric] d3_def [symmetric] by simp
qed

lemma loop_tops_reach:
  "readFileNum d \<le> writeFileNum d \<Longrightarrow> nat (writeFileNum d - readFileNum d) = k \<Longrightarrow>
     loop_tops (k + 2) ok d \<noteq> Ok None"
proof (induction k arbitrary: d)
  case 0
  have "loop_tops 1 ok d' \<noteq> Ok None" if "loop_top ok d = Ok (d', True)" for d'
  proof -
    have "\<not> has_data d'"
      using loop_top_error [OF that] 0 by (auto simp: has_data_def handleReadError_pos)
    then show ?thesis using loop_top_no_data [of d' ok] by auto
  qed
  then show ?case by (auto simp: numeral_2_eq_2 split: outcome.splits bool.splits)
next
  case (Suc k)
  have "loop_tops (k + 2) ok d' \<noteq> Ok None" if "loop_top ok d = Ok (d', True)" for d'
    using loop_top_error [OF that] Suc by (intro Suc.IH) (auto simp: handleReadError_pos)
  then show ?case by (auto split: outcome.splits bool.splits)
qed

subsection \<open>Properties\<close>


abbreviation example_writes :: "(bool \<times> dq_event) list" where
  "example_writes \<equiv> [(True, WriteReq ''a'' None), (False, WriteReq ''bb'' (Some 3)), (True, WriteReq ''ccc'' None),
     (False, SyncTick), (True, Deliver)]"



lemma example_run_Ok:
  "case queue_run dq_step example_writes (fresh_queue 6 2) of
     Panic p \<Rightarrow> False
   | Ok (d, rs) \<Rightarrow> depth d = 1 \<and> rpos d = (0, 5) \<and> wpos d = (1, 0) \<and> concat (map delivered rs) = [''a'']"
  by code_simp


text \<open>read errors do not stop the queue: with the read file not beyond the write file, the loop
  reaches its \<open>select\<close> (or panics) after skipping at most the files in between.\<close>

theorem read_errors_are_skipped:
  assumes "readFileNum d \<le> writeFileNum d"
  shows "loop_tops (nat (writeFileNum d - readFileNum d) + 2) ok d \<noteq> Ok None"
  using loop_tops_reach [OF assms refl] .

theorem read_errors_are_skipped_witness:
  "loop_tops 5 True (NewDiskQueue 100 10 (\<lambda>i. if i = 1 then Some ''xx'' else None) Map.empty
     (Some (''7'' @ [CHR 0x0A] @ ''0,0'' @ [CHR 0x0A] @ ''3,9'' @ [CHR 0x0A])) None) \<noteq> Ok None"
proof -
  let ?d = "NewDiskQueue 100 10 (\<lambda>i. if i = 1 then Some ''xx'' else None) Map.empty
     (Some (''7'' @ [CHR 0x0A] @ ''0,0'' @ [CHR 0x0A] @ ''3,9'' @ [CHR 0x0A])) None"
  have "readFileNum ?d = 0" "writeFileNum ?d = 3" by code_simp+
  then show ?thesis using read_errors_are_skipped [of ?d True] by simp
qed

text \<open>without that condition it does not: metadata with the read file beyond the write file and
  a read position below the write position, which the code treats as data to read, makes the loop
  spin for ever, since only a delivery checks the tail for corruption.\<close>

definition spinning_meta :: bytes where
  "spinning_meta = ''0'' @ [CHR 0x0A] @ ''5,0'' @ [CHR 0x0A] @ ''3,10'' @ [CHR 0x0A]"

definition spins :: "DiskQueue \<Rightarrow> bool" where
  "spins d \<longleftrightarrow> 3 < readFileNum d \<and> writeFileNum d = 3 \<and> readPos d = 0 \<and> nextReadPos d = 0 \<and> writePos d = 10 \<and>
     files d = Map.empty"

lemma spins_step: "spins d \<Longrightarrow> \<exists>d'. loop_top ok d = Ok (d', True) \<and> spins d'"
proof -
  assume sp: "spins d"
  define d1 where "d1 = d\<lparr>loopCount := loopCount d + 1\<rparr>"
  define d2 where "d2 = (if loopCount d1 = syncEvery d1 then d1\<lparr>loopCount := 0, needSync := True\<rparr> else d1)"
  define d3 where "d3 = (if needSync d2 then fst (sync ok d2) else d2)"
  have d3: "spins d3" using sp by (simp add: d1_def d2_def d3_def spins_def)
  have "loop_top ok d = Ok (handleReadError d3, True)"
    using d3 unfolding loop_top_def Let_def d1_def [symmetric] d2_def [symmetric] d3_def [symmetric]
    by (simp add: spins_def has_data_def readOne_def)
  moreover have "spins (handleReadError d3)"
    using d3 by (simp add: spins_def handleReadError_def Let_def)
  ultimately show ?thesis by blast
qed

text \<open>With metadata whose read file lies behind missing files and a negative write file number the loop never reaches its select.\<close>

theorem corrupt_metadata_spins:
  "loop_tops n ok (NewDiskQueue 100 10 Map.empty Map.empty (Some spinning_meta) None) = Ok None"
proof -
  have "spins d \<Longrightarrow> loop_tops n ok d = Ok None" for d
  proof (induction n arbitrary: d)
    case (Suc n)
    then show ?case using spins_step [of d ok] by auto
  qed simp
  moreover have "spins (NewDiskQueue 100 10 Map.empty Map.empty (Some spinning_meta) None)"
  proof -
    let ?d = "NewDiskQueue 100 10 Map.empty Map.empty (Some spinning_meta) None"
    have "readFileNum ?d = 5" "writeFileNum ?d = 3" "readPos ?d = 0" "nextReadPos ?d = 0" "writePos ?d = 10"
      by code_simp+
    moreover have "files ?d = Map.empty"
      by (simp add: NewDiskQueue_def retrieveMetaData_def scan_meta_def scan_field_def Let_def
          split: prod.splits option.splits)
    ultimately show ?thesis by (simp add: spins_def)
  qed
  ultimately show ?thesis by blast
qed

text \<open>nor does a corrupt length take the error path: a length field with its top bit set makes the
  allocation of the read buffer panic instead of skipping the file.\<close>

theorem corrupt_length_panics:
  assumes "files d (readFileNum d) = Some c" and "0 \<le> readPos d"
    and "4 \<le> length (drop (nat (readPos d)) c)"
    and "2 ^ 31 \<le> be_val (take 4 (drop (nat (readPos d)) c))"
    and "be_val (take 4 (drop (nat (readPos d)) c)) < 2 ^ 32"
  shows "readOne d = Panic (ExplicitPanic ''makeslice: len out of range'')"
proof -
  let ?v = "be_val (take 4 (drop (nat (readPos d)) c))"
  have "2 ^ 31 \<le> ?v" "?v < 2 ^ 32" using assms(4,5) by simp_all
  then have "int32 ?v = ?v - 2 ^ 32"
    using mod_add_self2 [of "?v - 2 ^ 31" "2 ^ 32"] by (simp add: int32_def add.commute)
  then have "int32 ?v < 0" using \<open>?v < 2 ^ 32\<close> by simp
  moreover have "drop (nat (readPos d)) c \<noteq> []" "\<not> length (drop (nat (readPos d)) c) < 4"
    using assms(3) by auto
  ultimately show ?thesis using assms(1) unfolding readOne_def Let_def by simp
qed

theorem corrupt_length_panics_witness:
  "readOne (NewDiskQueue 100 10 (\<lambda>i. if i = 0 then Some [CHR 0xFF, CHR 0x00, CHR 0x00, CHR 0x05] else None)
     Map.empty None None) = Panic (ExplicitPanic ''makeslice: len out of range'')"
proof (rule corrupt_length_panics)
  let ?d = "NewDiskQueue 100 10 (\<lambda>i. if i = 0 then Some [CHR 0xFF, CHR 0x00, CHR 0x00, CHR 0x05] else None)
     Map.empty None None"
  show "files ?d (readFileNum ?d) = Some [CHR 0xFF, CHR 0x00, CHR 0x00, CHR 0x05]" "0 \<le> readPos ?d"
    by (simp_all add: NewDiskQueue_def retrieveMetaData_def)
qed (simp_all add: NewDiskQueue_def retrieveMetaData_def be_val_def)

end
