(* ===== verification/Dest_Correct.thy ===== *)
theory Dest_Correct
  imports Dest_Destination Nsqd_Correct
begin

text \<open>
  The correctness of destinations: every metric that \<open>relay\<close> takes has one fate, which its counters
  and queues show; the spool keeps what it accepted; updates and addresses.
\<close>

subsection \<open>The fate of a metric\<close>

fun received :: "relay_event \<Rightarrow> bytes list" where
  "received (Recv buf) = [buf]"
| "received _ = []"

fun metric_of :: "fate \<Rightarrow> bytes list" where
  "metric_of NoMetric = []"
| "metric_of (ToConn b) = [b]"
| "metric_of (ToSpool b) = [b]"
| "metric_of (DroppedSlowConn b) = [b]"
| "metric_of (DroppedSlowSpool b) = [b]"
| "metric_of (DroppedNoConn b) = [b]"

definition drops :: "Relay \<Rightarrow> nat" where
  "drops r = numDropNoConnNoSpool (r_dest r) + numDropSlowSpool (r_dest r) + numDropSlowConn (r_dest r)"

fun is_drop :: "fate \<Rightarrow> bool" where
  "is_drop (DroppedSlowConn b) = True"
| "is_drop (DroppedSlowSpool b) = True"
| "is_drop (DroppedNoConn b) = True"
| "is_drop _ = False"

fun to_spool :: "fate \<Rightarrow> bytes list" where
  "to_spool (ToSpool b) = [b]"
| "to_spool _ = []"

definition redo_of :: "Relay \<Rightarrow> bytes list" where
  "redo_of r = (case r_conn r of
       Some c \<Rightarrow> if \<not> isAlive c \<and> d_Spool (r_dest r) then fst (getRedo c) else []
     | None \<Rightarrow> [])"

lemma relay_top_facts:
  "drops (relay_top r) = drops r" "InRT (r_spool (relay_top r)) = InRT (r_spool r)"
  "InBulk (r_spool (relay_top r)) = InBulk (r_spool r) @ redo_of r"
  "r_signal (relay_top r) = r_signal r" "r_stopped (relay_top r) = r_stopped r"
  "d_Spool (r_dest (relay_top r)) = d_Spool (r_dest r)"
  by (auto simp: relay_top_def Ingest_def drops_def redo_of_def Let_def split: option.splits)

lemma relay_top_conn_alive: "r_conn (relay_top r) = Some c \<Longrightarrow> isAlive c"
  by (auto simp: relay_top_def Let_def split: option.splits if_splits)

lemma relay_select_facts:
  assumes "relay_select encode e r = (r', f)"
  shows "drops r' = drops r + (if is_drop f then 1 else 0)"
    "InRT (r_spool r') = InRT (r_spool r) @ to_spool f" "InBulk (r_spool r') = InBulk (r_spool r)"
    "metric_of f = received e \<or> (\<exists>b. e = Unspool b \<and> (metric_of f = [] \<or> metric_of f = [b]))"
  using assms
  by (cases e; auto simp: nonBlockingSend_def nonBlockingSpool_def drops_def split: option.splits if_splits)+

lemma relay_step_facts:
  assumes "relay_step encode e r = Ok (r', f)" "\<not> r_stopped r"
  shows "drops r' = drops r + (if is_drop f then 1 else 0)"
    "InRT (r_spool r') = InRT (r_spool r) @ to_spool f"
    "InBulk (r_spool r') = InBulk (r_spool r) @ redo_of r"
    "metric_of f = received e \<or> (\<exists>b. e = Unspool b \<and> (metric_of f = [] \<or> metric_of f = [b]))"
proof -
  have "relay_select encode e (relay_top r) = (r', f)"
    using assms by (auto simp: relay_step_def split: relay_event.splits if_splits)
  then show "drops r' = drops r + (if is_drop f then 1 else 0)"
    "InRT (r_spool r') = InRT (r_spool r) @ to_spool f"
    "InBulk (r_spool r') = InBulk (r_spool r) @ redo_of r"
    "metric_of f = received e \<or> (\<exists>b. e = Unspool b \<and> (metric_of f = [] \<or> metric_of f = [b]))"
    using relay_select_facts [of encode e "relay_top r" r' f] by (simp_all add: relay_top_facts)
qed

definition not_shutdown :: "relay_event list \<Rightarrow> bool" where
  "not_shutdown es \<longleftrightarrow> ShutdownReq \<notin> set es"

lemma relay_step_running:
  "relay_step encode e r = Ok (r', f) \<Longrightarrow> \<not> r_stopped r \<Longrightarrow> e \<noteq> ShutdownReq \<Longrightarrow> \<not> r_stopped r'"
  by (cases e)
    (auto simp: relay_step_def nonBlockingSend_def nonBlockingSpool_def relay_top_facts split: if_splits option.splits)

fun no_unspool :: "relay_event \<Rightarrow> bool" where
  "no_unspool (Unspool b) = False"
| "no_unspool _ = True"

lemma relay_run_facts:
  "relay_run encode es r = Ok (r', fs) \<Longrightarrow> \<not> r_stopped r \<Longrightarrow> not_shutdown es \<Longrightarrow>
     drops r' = drops r + length (filter is_drop fs) \<and>
     InRT (r_spool r') = InRT (r_spool r) @ concat (map to_spool fs) \<and>
     (list_all no_unspool es \<longrightarrow> concat (map metric_of fs) = concat (map received es))"
proof (induction es arbitrary: r fs)
  case (Cons e es)
  obtain r1 f fs' where 1: "relay_step encode e r = Ok (r1, f)" "relay_run encode es r1 = Ok (r', fs')" "fs = f # fs'"
    using Cons(2) by (auto split: outcome.splits prod.splits)
  have "e \<noteq> ShutdownReq" "not_shutdown es" using Cons(4) by (auto simp: not_shutdown_def)
  then show ?case
    using Cons.IH [OF 1(2) relay_step_running [OF 1(1) Cons(3)]] relay_step_facts [OF 1(1) Cons(3)] 1(3)
    by auto
qed simp

subsection \<open>The spool keeps what it accepted\<close>

datatype spool_input = AcceptRT bytes | IngestBulk "bytes list" | SpoolTurn spool_event

fun spool_run :: "spool_input list \<Rightarrow> Spool \<Rightarrow> Spool outcome" where
  "spool_run [] s = Ok s"
| "spool_run (AcceptRT b # es) s = spool_run es (s\<lparr>InRT := InRT s @ [b]\<rparr>)"
| "spool_run (IngestBulk bs # es) s = spool_run es (Ingest bs s)"
| "spool_run (SpoolTurn e # es) s = (case spool_step e s of Panic p \<Rightarrow> Panic p | Ok s' \<Rightarrow> spool_run es s')"

fun accepted :: "spool_input \<Rightarrow> bytes list" where
  "accepted (AcceptRT b) = [b]"
| "accepted (IngestBulk bs) = bs"
| "accepted (SpoolTurn e) = []"

definition slow_list :: "Spool \<Rightarrow> bytes list" where
  "slow_list s = (case sp_slow s of None \<Rightarrow> [] | Some m \<Rightarrow> [m])"

text \<open>Everything the spool holds or has handed out, the queue on disk holding \<open>q\<close>.\<close>

definition spool_bag :: "Spool \<Rightarrow> bytes list \<Rightarrow> bytes multiset" where
  "spool_bag s q = mset (InRT s) + mset (InBulk s) + mset (queueBuffer s) + mset q + mset (slow_list s) + mset (sp_Out s)"

definition spool_inv :: "Spool \<Rightarrow> bytes multiset \<Rightarrow> bool" where
  "spool_inv s B \<longleftrightarrow> (\<exists>q. dq_inv (queue s) q \<and> spool_bag s q = B) \<and> (\<forall>m \<in># B. valid_msg m)"

lemma queue_turn_write:
  assumes "dq_inv (queue s) q" "valid_msg m"
  shows "\<exists>d err. queue_turn (ok, WriteReq m None) s = Ok (s\<lparr>queue := d\<rparr>, Replied err) \<and> dq_inv d (q @ [m])"
proof -
  obtain d1 where d1: "loop_top ok (queue s) = Ok (d1, False)" "dq_inv d1 q"
    using loop_top_inv [OF assms(1)] by metis
  have "dq_inv (fst (writeOne None ok m d1)) (q @ [m])"
    using writeOne_inv [OF d1(2) assms(2), of None ok] by simp
  then show ?thesis
    using d1(1) by (cases "writeOne None ok m d1") (auto simp: queue_turn_def dq_step_def)
qed

lemma queue_turn_deliver:
  assumes "dq_inv (queue s) q"
  shows "\<exists>d. (q = [] \<and> queue_turn (ok, Deliver) s = Ok (s\<lparr>queue := d\<rparr>, NoReply) \<and> dq_inv d []) \<or>
    (\<exists>m q'. q = m # q' \<and> queue_turn (ok, Deliver) s = Ok (s\<lparr>queue := d\<rparr>, Delivered m) \<and> dq_inv d q')"
proof -
  obtain d1 where d1: "loop_top ok (queue s) = Ok (d1, False)" "dq_inv d1 q" "readReady d1 \<longleftrightarrow> q \<noteq> []"
      "q \<noteq> [] \<longrightarrow> fetched d1 q"
    using loop_top_inv [OF assms] .
  show ?thesis
  proof (cases q)
    case Nil
    then show ?thesis using d1 by (auto simp: queue_turn_def dq_step_def)
  next
    case (Cons m q')
    then have "dataRead d1 = m" "dq_inv (moveForward d1) q'"
      using d1 moveForward_inv [of d1 m q'] by (auto simp: fetched_def)
    then show ?thesis using Cons d1 by (auto simp: queue_turn_def dq_step_def)
  qed
qed

lemma queue_turn_tick:
  assumes "dq_inv (queue s) q"
  shows "\<exists>d. queue_turn (ok, SyncTick) s = Ok (s\<lparr>queue := d\<rparr>, NoReply) \<and> dq_inv d q"
proof -
  obtain d1 where d1: "loop_top ok (queue s) = Ok (d1, False)" "dq_inv d1 q"
    using loop_top_inv [OF assms] by metis
  then show ?thesis by (auto simp: queue_turn_def dq_step_def dq_inv_def fetched_def)
qed

lemma spool_step_inv:
  assumes "spool_inv s B"
  shows "\<exists>s'. spool_step e s = Ok s' \<and> spool_inv s' B"
proof -
  obtain q where q: "dq_inv (queue s) q" "spool_bag s q = B" and v: "\<forall>m \<in># B. valid_msg m"
    using assms by (auto simp: spool_inv_def)
  show ?thesis
  proof (cases e)
    case WriterRT
    then show ?thesis using q v by (auto simp: spool_inv_def spool_bag_def slow_list_def split: list.splits)
  next
    case WriterBulk
    then show ?thesis using q v by (auto simp: spool_inv_def spool_bag_def slow_list_def split: list.splits)
  next
    case (BufferPut ok)
    show ?thesis
    proof (cases "queueBuffer s")
      case Nil
      then show ?thesis using BufferPut assms by simp
    next
      case (Cons m rest)
      then have "valid_msg m" using v q(2) by (auto simp: spool_bag_def)
      from queue_turn_write [OF q(1) this, of ok] obtain d err where
        d: "queue_turn (ok, WriteReq m None) s = Ok (s\<lparr>queue := d\<rparr>, Replied err)" "dq_inv d (q @ [m])" by blast
      then show ?thesis
        using BufferPut Cons q v by (auto simp: spool_inv_def spool_bag_def slow_list_def intro!: exI [of _ "q @ [m]"])
    qed
  next
    case (QueueDeliver ok)
    show ?thesis
    proof (cases "sp_slow s")
      case None
      from queue_turn_deliver [OF q(1), of ok] show ?thesis
        using QueueDeliver None q v by (auto simp: spool_inv_def spool_bag_def slow_list_def)
    next
      case (Some m)
      then show ?thesis using QueueDeliver assms by simp
    qed
  next
    case SlowSend
    then show ?thesis using q v by (auto simp: spool_inv_def spool_bag_def slow_list_def split: option.splits)
  next
    case (QueueTick ok)
    from queue_turn_tick [OF q(1), of ok] show ?thesis
      using QueueTick q v by (auto simp: spool_inv_def spool_bag_def slow_list_def)
  qed
qed

lemma spool_run_inv:
  "spool_inv s B \<Longrightarrow> \<forall>m \<in> set (concat (map accepted es)). valid_msg m \<Longrightarrow>
     \<exists>s'. spool_run es s = Ok s' \<and> spool_inv s' (B + mset (concat (map accepted es)))"
proof (induction es s arbitrary: B rule: spool_run.induct)
  case (2 b es s)
  have "spool_inv (s\<lparr>InRT := InRT s @ [b]\<rparr>) (B + {#b#})"
    using 2(2,3) by (auto simp: spool_inv_def spool_bag_def slow_list_def)
  then show ?case using 2(1) [of "B + {#b#}"] 2(3) by (simp add: union_assoc)
next
  case (3 bs es s)
  have "spool_inv (Ingest bs s) (B + mset bs)"
    using 3(2,3) by (auto simp: spool_inv_def spool_bag_def slow_list_def Ingest_def ac_simps)
  then show ?case using 3(1) [of "B + mset bs"] 3(3) by (simp add: union_assoc)
next
  case (4 e es s)
  then show ?case using spool_step_inv [OF 4(2), of e] by auto
qed simp

subsection \<open>Properties\<close>


definition example_dest :: Destination where
  "example_dest = dest_New ''r'' (fst (matcher_New [] [] [] [] [] [])) ''10.0.0.1:2003:a'' ''/spool'' True False
     1000 1000 2 8 100 100 10 1000 1 1"

definition example_relay :: Relay where
  "example_relay = \<lparr>r_dest = example_dest, r_conn = None, r_spool = NewSpool 100 10 5 Map.empty Map.empty None None,
     numConnUpdates = 0, r_signal = None, r_connecting = True, r_stopped = False\<rparr>"

abbreviation example_relay_events :: "relay_event list" where
  "example_relay_events \<equiv> [Recv ''a 1 2'', ConnUpdate example_conn, Recv ''b 1 2'', Recv ''c 1 2'', Recv ''d 1 2'',
     ConnTurn RemoteEOF, Recv ''e 1 2'']"

lemma example_relay_fates:
  "case relay_run (\<lambda>_. []) example_relay_events example_relay of
     Panic p \<Rightarrow> False
   | Ok (r, fs) \<Rightarrow> fs = [ToSpool ''a 1 2'', NoMetric, ToConn ''b 1 2'', ToConn ''c 1 2'', DroppedSlowConn ''d 1 2'',
       NoMetric, ToSpool ''e 1 2'']"
  by code_simp




text \<open>an update of a destination that fails is not always without effect: when it changes the address
  and brings an invalid regular expression, the address (with the instance, the key and the
  connection) has changed although an error is returned; and an update to an address that cannot be
  reached changes nothing and reports success.\<close>

theorem failed_update_can_change_address:
  "(\<exists>d c err. dest_Update (\<lambda>_. Some \<lparr>wr_sent = [], wr_script = []\<rparr>) [(''addr'', ''10.0.0.2:2003''), (''regex'', ''('')] example_dest =
      Ok (d, Some c, Some (BadMatcher err)) \<and> Addr d = ''10.0.0.2:2003'' \<and> Addr example_dest = ''10.0.0.1:2003'') \<and>
   dest_Update (\<lambda>_. None) [(''addr'', a)] d0 = Ok (d0, None, None)"
proof
  have "case dest_Update (\<lambda>_. Some \<lparr>wr_sent = [], wr_script = []\<rparr>) [(''addr'', ''10.0.0.2:2003''), (''regex'', ''('')] example_dest of
      Ok (d, Some c, Some (BadMatcher err)) \<Rightarrow> Addr d = ''10.0.0.2:2003'' | _ \<Rightarrow> False"
    by code_simp
  moreover have "Addr example_dest = ''10.0.0.1:2003''" by code_simp
  ultimately show "\<exists>d c err. dest_Update (\<lambda>_. Some \<lparr>wr_sent = [], wr_script = []\<rparr>)
      [(''addr'', ''10.0.0.2:2003''), (''regex'', ''('')] example_dest =
      Ok (d, Some c, Some (BadMatcher err)) \<and> Addr d = ''10.0.0.2:2003'' \<and> Addr example_dest = ''10.0.0.1:2003''"
    by (auto split: outcome.splits prod.splits option.splits dest_error.splits)
  show "dest_Update (\<lambda>_. None) [(''addr'', a)] d0 = Ok (d0, None, None)"
    by (simp add: dest_Update_def updateConn_def split: prod.split)
qed

text \<open>The key of a destination contains its instance when it is made, and not after an update.\<close>

lemma key_loses_instance:
  "d_Key (dest_New r m ''h:1:i'' sd s p a b c d e f g h i j) = util_Key r ''h:1:i''"
  "updateConn dial ''h:1:i'' d0 = Ok (d1, Some conn) \<Longrightarrow> Addr d0 \<noteq> ''h:1'' \<Longrightarrow> d_Key d1 = util_Key (RouteName d0) ''h:1''"
proof -
  have sp: "addrInstanceSplit ''h:1:i'' = (''h:1'', ''i'')" by code_simp
  show "d_Key (dest_New r m ''h:1:i'' sd s p a b c d e f g h i j) = util_Key r ''h:1:i''"
    by (simp add: dest_New_def sp)
  show "updateConn dial ''h:1:i'' d0 = Ok (d1, Some conn) \<Longrightarrow> Addr d0 \<noteq> ''h:1'' \<Longrightarrow> d_Key d1 = util_Key (RouteName d0) ''h:1''"
    by (auto simp: updateConn_def sp split: option.splits outcome.splits if_splits)
qed

text \<open>A new connection that replaces a live one: the lines the old one still kept go nowhere.\<close>

lemma replaced_connection_is_not_redone:
  "\<not> r_stopped r \<Longrightarrow> r_conn r = Some c \<Longrightarrow> isAlive c \<Longrightarrow> r_signal r \<noteq> Some True \<Longrightarrow>
     \<exists>r'. relay_step encode (ConnUpdate new) r = Ok (r', NoMetric) \<and> r_conn r' = Some new \<and>
       r_spool r' = r_spool r \<and> drops r' = drops r"
  by (auto simp: relay_step_def relay_top_def drops_def)

end
