(* ===== verification/Dest_Lifecycle.thy ===== *)
theory Dest_Lifecycle
  imports Dest_Conn
begin

text \<open>
  The end of a connection of \<^verbatim>\<open>destination/conn.go\<close>: its goroutines \<open>checkEOF\<close> and \<open>HandleData\<close>, each of which may call
  \<open>close\<close>, and the calls of \<open>Flush\<close> and \<open>Close\<close> that the relay goroutine of the destination makes.

  \<^item> \<open>close\<close> is taken apart: it marks the connection as down, sends to the channel \<open>shutdown\<close>, which has room for two, and closes
    the socket. A turn that would block leaves the state as it is.
  \<^item> What \<open>HandleData\<close> does with lines is in \<^theory_text>\<open>Dest_Conn\<close>; here only whether it succeeds matters. A manual flush is one turn: the
    request, the flush and its answer, for which the caller waits. \<open>lf_taken\<close> records that \<open>HandleData\<close> has returned
    because it received from \<open>shutdown\<close>, and not after a \<open>close\<close> of its own.
\<close>

datatype close_pc = CMark | CPush | CCloseSocket

datatype go_pc = Working | Closing close_pc | Done

datatype caller_pc = NoCall | FlushSend | FlushReturned | InClose close_pc | CloseWait | CloseReturned

record life =
  lf_up :: bool
  lf_shutdown :: nat
  lf_socket :: bool
  lf_eof :: go_pc
  lf_data :: go_pc
  lf_taken :: bool
  lf_caller :: caller_pc

definition new_life :: life where
  "new_life = \<lparr>lf_up = True, lf_shutdown = 0, lf_socket = True, lf_eof = Working, lf_data = Working, lf_taken = False,
     lf_caller = NoCall\<rparr>"

definition shutdown_room :: nat where
  "shutdown_room = 2"

fun close_turn :: "close_pc \<Rightarrow> life \<Rightarrow> close_pc option \<times> life" where
  "close_turn CMark l = (Some CPush, l\<lparr>lf_up := False\<rparr>)"
| "close_turn CPush l =
     (if lf_shutdown l < shutdown_room then (Some CCloseSocket, l\<lparr>lf_shutdown := lf_shutdown l + 1\<rparr>) else (Some CPush, l))"
| "close_turn CCloseSocket l = (None, l\<lparr>lf_socket := False\<rparr>)"

definition after_close :: "close_pc option \<Rightarrow> go_pc" where
  "after_close pc = (case pc of Some pc' \<Rightarrow> Closing pc' | None \<Rightarrow> Done)"

datatype life_event = EofReads bool | EofTurn | DataWorks bool | DataShutdown | DataFlush bool | DataTurn
  | CallFlush | CallClose | CallerTurn

text \<open>\<open>EofReads\<close>: data that was not expected, or the end or an error, as after the socket has been closed. \<open>DataWorks\<close>: a write
  or a flush of the ticker, and whether it succeeds.\<close>

definition life_step :: "life_event \<Rightarrow> life \<Rightarrow> life" where
  "life_step e l =
     (case e of
        EofReads ok \<Rightarrow> if lf_eof l = Working \<and> \<not> ok then l\<lparr>lf_eof := Closing CMark\<rparr> else l
      | EofTurn \<Rightarrow>
          (case lf_eof l of
             Closing pc \<Rightarrow> (case close_turn pc l of (pc', l') \<Rightarrow> l'\<lparr>lf_eof := after_close pc'\<rparr>)
           | _ \<Rightarrow> l)
      | DataWorks ok \<Rightarrow> if lf_data l = Working \<and> \<not> ok then l\<lparr>lf_data := Closing CMark\<rparr> else l
      | DataShutdown \<Rightarrow>
          if lf_data l = Working \<and> 0 < lf_shutdown l
          then l\<lparr>lf_shutdown := lf_shutdown l - 1, lf_data := Done, lf_taken := True\<rparr>
          else l
      | DataFlush ok \<Rightarrow>
          if lf_data l = Working \<and> lf_caller l = FlushSend
          then l\<lparr>lf_caller := FlushReturned, lf_data := if ok then Working else Closing CMark\<rparr>
          else l
      | DataTurn \<Rightarrow>
          (case lf_data l of
             Closing pc \<Rightarrow> (case close_turn pc l of (pc', l') \<Rightarrow> l'\<lparr>lf_data := after_close pc'\<rparr>)
           | _ \<Rightarrow> l)
      | CallFlush \<Rightarrow> if lf_caller l = NoCall \<or> lf_caller l = FlushReturned then l\<lparr>lf_caller := FlushSend\<rparr> else l
      | CallClose \<Rightarrow> if lf_caller l = NoCall \<or> lf_caller l = FlushReturned then l\<lparr>lf_caller := InClose CMark\<rparr> else l
      | CallerTurn \<Rightarrow>
          (case lf_caller l of
             InClose pc \<Rightarrow>
               (case close_turn pc l of (pc', l') \<Rightarrow> l'\<lparr>lf_caller := case pc' of Some q \<Rightarrow> InClose q | None \<Rightarrow> CloseWait\<rparr>)
           | CloseWait \<Rightarrow> if lf_eof l = Done \<and> lf_data l = Done then l\<lparr>lf_caller := CloseReturned\<rparr> else l
           | _ \<Rightarrow> l))"

definition life_run :: "life_event list \<Rightarrow> life \<Rightarrow> life" where
  "life_run = fold life_step"

lemma life_run_simps [simp]:
  "life_run [] l = l" "life_run (e # es) l = life_run es (life_step e l)" "life_run (es @ es') l = life_run es' (life_run es l)"
  by (simp_all add: life_run_def)

subsection \<open>What has been sent to the channel\<close>

fun go_pushed :: "go_pc \<Rightarrow> nat" where
  "go_pushed (Closing CCloseSocket) = 1"
| "go_pushed Done = 1"
| "go_pushed _ = 0"

fun caller_pushed :: "caller_pc \<Rightarrow> nat" where
  "caller_pushed (InClose CCloseSocket) = 1"
| "caller_pushed CloseWait = 1"
| "caller_pushed CloseReturned = 1"
| "caller_pushed _ = 0"

definition closing :: "caller_pc \<Rightarrow> bool" where
  "closing pc \<longleftrightarrow> pc \<notin> {NoCall, FlushSend, FlushReturned}"

text \<open>Every value in the channel has been sent by one of the three, and at most one has been received. Those that have closed
  the socket, or are about to, have sent.\<close>

definition life_inv :: "life \<Rightarrow> bool" where
  "life_inv l \<longleftrightarrow>
     lf_shutdown l + of_bool (lf_taken l) =
       go_pushed (lf_eof l) + (if lf_taken l then 0 else go_pushed (lf_data l)) + caller_pushed (lf_caller l) \<and>
     lf_shutdown l \<le> shutdown_room \<and> (lf_taken l \<longrightarrow> lf_data l = Done) \<and>
     (lf_eof l = Done \<or> (lf_data l = Done \<and> \<not> lf_taken l) \<longrightarrow> \<not> lf_socket l) \<and>
     (lf_caller l = CloseReturned \<longrightarrow> lf_eof l = Done \<and> lf_data l = Done)"

lemma life_step_inv: "life_inv l \<Longrightarrow> life_inv (life_step e l)"
proof (cases e)
  case EofTurn
  then show "life_inv l \<Longrightarrow> ?thesis"
    by (cases "lf_eof l"; cases "case lf_eof l of Closing pc \<Rightarrow> pc | _ \<Rightarrow> CMark")
      (auto simp: life_inv_def life_step_def after_close_def shutdown_room_def)
next
  case DataTurn
  then show "life_inv l \<Longrightarrow> ?thesis"
    by (cases "lf_data l"; cases "case lf_data l of Closing pc \<Rightarrow> pc | _ \<Rightarrow> CMark")
      (auto simp: life_inv_def life_step_def after_close_def shutdown_room_def)
next
  case CallerTurn
  then show "life_inv l \<Longrightarrow> ?thesis"
    by (cases "lf_caller l"; cases "case lf_caller l of InClose pc \<Rightarrow> pc | _ \<Rightarrow> CMark")
      (auto simp: life_inv_def life_step_def shutdown_room_def)
qed (auto simp: life_inv_def life_step_def shutdown_room_def)

lemma life_run_inv: "life_inv l \<Longrightarrow> life_inv (life_run es l)"
  by (induction es arbitrary: l) (simp_all add: life_step_inv)

lemma new_life_inv: "life_inv new_life"
  by (simp add: life_inv_def new_life_def shutdown_room_def)

subsection \<open>Properties\<close>

text \<open>Once \<open>HandleData\<close> has left its loop by a \<open>close\<close> of its own, it never receives from \<open>shutdown\<close> or \<open>flush\<close>.\<close>

lemma own_close_stays:
  assumes "lf_data l \<noteq> Working" and "\<not> lf_taken l"
  shows "lf_data (life_run es l) \<noteq> Working \<and> \<not> lf_taken (life_run es l)"
  using assms
proof (induction es arbitrary: l)
  case (Cons e es)
  have "lf_data (close_l) = lf_data l' \<and> lf_taken close_l = lf_taken l'" if "close_turn pc l' = (pc', close_l)" for pc pc' l' close_l
    using that by (cases pc) (auto split: if_splits)
  then have "lf_data (life_step e l) \<noteq> Working \<and> \<not> lf_taken (life_step e l)"
    using Cons.prems by (cases e) (auto simp: life_step_def after_close_def split: go_pc.splits caller_pc.splits prod.splits option.splits)
  then show ?case using Cons.IH by simp
qed simp

lemma flush_waits:
  assumes "lf_data l \<noteq> Working" and "lf_caller l = FlushSend"
  shows "lf_caller (life_run es l) = FlushSend"
proof -
  have keep: "lf_data l2 = lf_data l1 \<and> lf_caller l2 = lf_caller l1" if "close_turn pc l1 = (pc', l2)" for pc pc' l1 l2
    using that by (cases pc) (auto split: if_splits)
  have "lf_data (life_run es l) \<noteq> Working \<and> lf_caller (life_run es l) = FlushSend"
    using assms
  proof (induction es arbitrary: l)
    case (Cons e es)
    then have "lf_data (life_step e l) \<noteq> Working \<and> lf_caller (life_step e l) = FlushSend"
      using keep by (cases e) (auto simp: life_step_def after_close_def split: go_pc.splits prod.splits option.splits)
    then show ?case using Cons.IH by simp
  qed simp
  then show ?thesis by simp
qed

text \<open>Three turns are enough for a \<open>close\<close>, if there is room in the channel or the value has been sent.\<close>

definition closed_from :: "close_pc \<Rightarrow> life \<Rightarrow> life" where
  "closed_from pc l =
     l\<lparr>lf_up := lf_up l \<and> pc \<noteq> CMark, lf_shutdown := lf_shutdown l + (if pc = CCloseSocket then 0 else 1), lf_socket := False\<rparr>"

lemma eof_closes:
  "lf_eof l = Closing pc \<Longrightarrow> pc = CCloseSocket \<or> lf_shutdown l < shutdown_room \<Longrightarrow>
     life_run [EofTurn, EofTurn, EofTurn] l = (closed_from pc l)\<lparr>lf_eof := Done\<rparr>"
  by (cases pc) (simp_all add: life_step_def after_close_def closed_from_def)

lemma data_closes:
  "lf_data l = Closing pc \<Longrightarrow> pc = CCloseSocket \<or> lf_shutdown l < shutdown_room \<Longrightarrow>
     life_run [DataTurn, DataTurn, DataTurn] l = (closed_from pc l)\<lparr>lf_data := Done\<rparr>"
  by (cases pc) (simp_all add: life_step_def after_close_def closed_from_def)

lemma data_idles: "lf_data l = Working \<or> lf_data l = Done \<Longrightarrow> life_run [DataTurn, DataTurn, DataTurn] l = l"
  by (auto simp: life_step_def)

lemma caller_closes:
  assumes "closing (lf_caller l)" and "caller_pushed (lf_caller l) = 0 \<longrightarrow> lf_shutdown l < shutdown_room"
  shows "(let l' = life_run [CallerTurn, CallerTurn, CallerTurn] l
    in lf_caller l' \<in> {CloseWait, CloseReturned} \<and> lf_eof l' = lf_eof l \<and> lf_data l' = lf_data l \<and> lf_taken l' = lf_taken l \<and>
       (lf_caller l' = CloseReturned \<longrightarrow> lf_caller l = CloseReturned \<or> lf_data l = Done \<and> lf_eof l = Done) \<and>
       lf_shutdown l' + caller_pushed (lf_caller l) = lf_shutdown l + 1)"
proof (cases "lf_caller l")
  case (InClose pc)
  then show ?thesis using assms by (cases pc) (auto simp: life_step_def closing_def Let_def)
qed (use assms in \<open>auto simp: life_step_def closing_def Let_def\<close>)

definition ending :: "life_event list" where
  "ending = [DataTurn, DataTurn, DataTurn, EofReads False, EofTurn, EofTurn, EofTurn, DataShutdown]"

lemma eof_ends:
  assumes "lf_eof l = Done \<longrightarrow> \<not> lf_socket l" and "go_pushed (lf_eof l) = 0 \<longrightarrow> lf_shutdown l < shutdown_room"
  shows "lf_eof (life_run [EofReads False, EofTurn, EofTurn, EofTurn] l) = Done \<and>
    \<not> lf_socket (life_run [EofReads False, EofTurn, EofTurn, EofTurn] l) \<and>
    lf_data (life_run [EofReads False, EofTurn, EofTurn, EofTurn] l) = lf_data l \<and>
    lf_taken (life_run [EofReads False, EofTurn, EofTurn, EofTurn] l) = lf_taken l \<and>
    lf_caller (life_run [EofReads False, EofTurn, EofTurn, EofTurn] l) = lf_caller l \<and>
    lf_shutdown l + 1 = lf_shutdown (life_run [EofReads False, EofTurn, EofTurn, EofTurn] l) + go_pushed (lf_eof l)"
proof (cases "lf_eof l")
  case Working
  let ?l = "life_step (EofReads False) l"
  have "lf_eof ?l = Closing CMark" "lf_shutdown ?l = lf_shutdown l" using Working by (simp_all add: life_step_def)
  with eof_closes [of ?l CMark] assms(2) Working show ?thesis
    by (simp del: life_run_simps add: life_run_simps(2) [of "EofReads False"]) (simp add: life_step_def closed_from_def)
next
  case (Closing pc)
  have "life_step (EofReads False) l = l" using Closing by (simp add: life_step_def)
  with eof_closes [OF Closing] assms Closing show ?thesis
    by (cases pc) (simp_all del: life_run_simps add: life_run_simps(2) [of "EofReads False"] closed_from_def)
qed (use assms in \<open>auto simp: life_step_def\<close>)

lemma ends_by_itself:
  assumes "life_inv l" and "lf_eof l \<noteq> Working \<or> lf_data l \<noteq> Working" and "\<not> closing (lf_caller l)"
  shows "lf_eof (life_run ending l) = Done \<and> lf_data (life_run ending l) = Done \<and> \<not> lf_socket (life_run ending l)"
proof -
  let ?l1 = "life_run [DataTurn, DataTurn, DataTurn] l"
  let ?l2 = "life_run [EofReads False, EofTurn, EofTurn, EofTurn] ?l1"
  have c: "caller_pushed (lf_caller l) = 0" using assms(3) by (auto simp: closing_def)
  have le: "go_pushed pc \<le> 1" for pc by (cases pc rule: go_pushed.cases) simp_all
  have l1: "life_inv ?l1" "lf_eof ?l1 = lf_eof l" "lf_data ?l1 = (if lf_data l = Working then Working else Done)"
    "lf_taken ?l1 = lf_taken l" "lf_caller ?l1 = lf_caller l"
  proof -
    show "life_inv ?l1" by (rule life_run_inv [OF assms(1)])
    have "pc = CCloseSocket \<or> lf_shutdown l < shutdown_room" if "lf_data l = Closing pc" for pc
      using that assms(1) c le [of "lf_eof l"] by (cases pc) (auto simp: life_inv_def shutdown_room_def)
    then show "lf_eof ?l1 = lf_eof l" "lf_data ?l1 = (if lf_data l = Working then Working else Done)"
      "lf_taken ?l1 = lf_taken l" "lf_caller ?l1 = lf_caller l"
      using data_closes [of l] data_idles [of l] by (cases "lf_data l"; simp add: closed_from_def)+
  qed
  have "lf_eof (life_run [EofReads False, EofTurn, EofTurn, EofTurn] ?l1) = Done \<and> \<not> lf_socket ?l2 \<and> lf_data ?l2 = lf_data ?l1 \<and>
      lf_shutdown ?l1 + 1 = lf_shutdown ?l2 + go_pushed (lf_eof ?l1)"
    using eof_ends [of ?l1] l1(1,3,4,5) c by (auto simp: life_inv_def shutdown_room_def split: if_splits simp del: life_run_simps)
  moreover have "lf_shutdown ?l2 = 1" if "lf_data l = Working"
    using calculation l1 c that by (auto simp: life_inv_def simp del: life_run_simps)
  moreover have "life_run ending l = life_step DataShutdown ?l2" by (simp add: ending_def)
  ultimately show ?thesis
    using l1(3) by (cases "lf_data l = Working") (simp_all add: life_step_def [of DataShutdown] del: life_run_simps)
qed

definition closing_turns :: "life_event list" where
  "closing_turns = [CallerTurn, CallerTurn, CallerTurn, DataShutdown, EofReads False, EofTurn, EofTurn, EofTurn, CallerTurn]"

lemma close_returns:
  assumes "life_inv l" and "closing (lf_caller l)" and "lf_data l = Working \<or> lf_taken l"
  shows "lf_caller (life_run closing_turns l) = CloseReturned"
proof -
  let ?l1 = "life_run [CallerTurn, CallerTurn, CallerTurn] l"
  let ?l2 = "life_step DataShutdown ?l1"
  let ?l3 = "life_run [EofReads False, EofTurn, EofTurn, EofTurn] ?l2"
  have le: "go_pushed pc \<le> 1" for pc by (cases pc rule: go_pushed.cases) simp_all
  have room: "caller_pushed (lf_caller l) = 0 \<longrightarrow> lf_shutdown l < shutdown_room"
    using assms(1,3) le [of "lf_eof l"] by (auto simp: life_inv_def shutdown_room_def)
  note l1 = caller_closes [OF assms(2) room, unfolded Let_def]
  have inv: "life_inv ?l1" "life_inv ?l2" using assms(1) life_run_inv life_step_inv by blast+
  have pushed: "caller_pushed (lf_caller ?l1) = 1" using l1 by (auto simp del: life_run_simps)
  have l2: "lf_data ?l2 = Done" "lf_taken ?l2" "lf_caller ?l2 = lf_caller ?l1" "lf_eof ?l2 = lf_eof ?l1"
    using inv(1) assms(3) l1 pushed assms(1) by (auto simp: life_step_def [of DataShutdown] life_inv_def simp del: life_run_simps)
  have l3: "lf_eof ?l3 = Done" "lf_data ?l3 = Done" "lf_caller ?l3 = lf_caller ?l1"
    using eof_ends [of ?l2] inv(2) l2 pushed by (auto simp: life_inv_def shutdown_room_def simp del: life_run_simps)
  have "life_run closing_turns l = life_step CallerTurn ?l3" by (simp add: closing_turns_def)
  then show ?thesis using l1 l3 by (auto simp: life_step_def [of CallerTurn] simp del: life_run_simps)
qed

lemma close_never_returns:
  assumes "life_inv l" and "lf_data l \<noteq> Working" and "\<not> lf_taken l"
  shows "lf_caller (life_run es l) \<noteq> CloseReturned"
  using life_run_inv [OF assms(1), of es] own_close_stays [OF assms(2,3), of es]
  by (auto simp: life_inv_def shutdown_room_def)

text \<open>C37: A connection that nobody closes from outside ends by itself: once either goroutine has seen an error or the end, both
  return and the socket is closed. A \<open>Close\<close> returns when \<open>HandleData\<close> receives its shutdown; but when \<open>HandleData\<close> itself has
  run into an error, there are three to send to a channel with room for two, and \<open>Close\<close> never returns, nor
  does a \<open>Flush\<close> that waits for \<open>HandleData\<close>.\<close>

theorem connection_ends_unless_closed_after_error:
  assumes "l = life_run es new_life"
  shows "((lf_eof l \<noteq> Working \<or> lf_data l \<noteq> Working) \<and> \<not> closing (lf_caller l) \<longrightarrow>
      (let l' = life_run ending l in lf_eof l' = Done \<and> lf_data l' = Done \<and> \<not> lf_socket l')) \<and>
    (closing (lf_caller l) \<and> (lf_data l = Working \<or> lf_taken l) \<longrightarrow> lf_caller (life_run closing_turns l) = CloseReturned) \<and>
    (lf_data l \<noteq> Working \<and> \<not> lf_taken l \<longrightarrow>
      lf_caller (life_run es' l) \<noteq> CloseReturned \<and> (lf_caller l = FlushSend \<longrightarrow> lf_caller (life_run es' l) = FlushSend))"
proof -
  have inv: "life_inv l" using assms life_run_inv new_life_inv by simp
  show ?thesis
    unfolding Let_def using ends_by_itself [OF inv] close_returns [OF inv] close_never_returns [OF inv] flush_waits by blast
qed

theorem connection_ends_unless_closed_after_error_witness:
  "lf_data (life_run ([EofReads False] @ ending) new_life) = Done \<and>
   lf_caller (life_run ([CallFlush, DataFlush True, CallClose] @ closing_turns) new_life) = CloseReturned \<and>
   lf_caller (life_run [DataWorks False, CallClose, CallerTurn, CallerTurn, CallerTurn, DataTurn, DataTurn, DataTurn,
     EofReads False, EofTurn, EofTurn, EofTurn, CallerTurn] new_life) \<noteq> CloseReturned"
proof -
  have "lf_eof (life_run [EofReads False] new_life) \<noteq> Working" "\<not> closing (lf_caller (life_run [EofReads False] new_life))"
    "closing (lf_caller (life_run [CallFlush, DataFlush True, CallClose] new_life))"
    "lf_data (life_run [CallFlush, DataFlush True, CallClose] new_life) = Working"
    "lf_data (life_run [DataWorks False] new_life) \<noteq> Working" "\<not> lf_taken (life_run [DataWorks False] new_life)"
    by (simp_all add: life_step_def new_life_def closing_def)
  with connection_ends_unless_closed_after_error [OF refl, of "[EofReads False]" "[]"]
    connection_ends_unless_closed_after_error [OF refl, of "[CallFlush, DataFlush True, CallClose]" "[]"]
    connection_ends_unless_closed_after_error [OF refl, of "[DataWorks False]"
      "[CallClose, CallerTurn, CallerTurn, CallerTurn, DataTurn, DataTurn, DataTurn, EofReads False, EofTurn, EofTurn, EofTurn, CallerTurn]"]
  show ?thesis unfolding Let_def by (metis life_run_simps append_Cons append_Nil)
qed

text \<open>The run in which \<open>Close\<close> is called on a connection without errors, but \<open>HandleData\<close> writes once more before it looks at the
  channel: \<open>checkEOF\<close> is the third to send, and \<open>Close\<close> waits for it for ever.\<close>

theorem close_can_wait_for_ever:
  "(let l = life_run [CallClose, CallerTurn, CallerTurn, CallerTurn, DataWorks False, DataTurn, DataTurn, DataTurn,
       EofReads False, EofTurn, EofTurn] new_life
    in lf_caller l = CloseWait \<and> lf_eof l = Closing CPush \<and> life_step EofTurn l = l \<and> lf_caller (life_run es l) \<noteq> CloseReturned)"
proof -
  let ?es = "[CallClose, CallerTurn, CallerTurn, CallerTurn, DataWorks False, DataTurn, DataTurn, DataTurn,
       EofReads False, EofTurn, EofTurn]"
  have l: "lf_caller (life_run ?es new_life) = CloseWait" "lf_eof (life_run ?es new_life) = Closing CPush"
    "life_step EofTurn (life_run ?es new_life) = life_run ?es new_life" "lf_data (life_run ?es new_life) \<noteq> Working"
    "\<not> lf_taken (life_run ?es new_life)"
    by (simp_all add: life_step_def new_life_def after_close_def shutdown_room_def)
  have "lf_caller (life_run es (life_run ?es new_life)) \<noteq> CloseReturned"
    by (rule close_never_returns [OF life_run_inv [OF new_life_inv] l(4,5)])
  with l show ?thesis unfolding Let_def by blast
qed

end
