(* ===== verification/Input_Handlers.thy ===== *)
theory Input_Handlers
  imports Dest_Conn Nsqd_Correct
begin

text \<open>
  \<^verbatim>\<open>input/plain.go\<close>, \<^verbatim>\<open>input/pickle.go\<close>, the handling of UDP packets of \<^verbatim>\<open>input/listen.go\<close> and of
  deliveries of \<^verbatim>\<open>input/amqp.go\<close>: from the bytes that arrive to the calls of the dispatcher.

  \<^item> A reader is the bytes it gives and the error, if any, that it gives instead of the end. The handlers look
    at it through \<open>bufio\<close>, whose \<open>Scanner\<close> (with the buffer limit of 65536 bytes) and \<open>ReadLine\<close> (4096
    bytes) are written out; how the bytes were cut into reads makes no difference to them.
  \<^item> A handler gives the calls it makes of the dispatcher, in order, and its error.
  \<^item> The pickle decoder is a third-party package: \<open>decode\<close> gives the first value of a payload.
\<close>

datatype read_error = ReadFailed bytes
datatype decode_error = DecodeUnexpectedEOF | DecodeFailed

datatype handle_error = TokenTooLong | ReaderError read_error | LengthUnreadable | PayloadTooLong int
  | PrefixUnreadable | InvalidPrefix | PayloadUnreadable | BadPickle | NotAList

datatype dcall = CallDispatch bytes | CallIncNumInvalid

definition newline :: char where
  "newline = CHR 0x0A"

definition drop_cr :: "bytes \<Rightarrow> bytes" where
  "drop_cr s = (if s \<noteq> [] \<and> last s = CHR 0x0D then butlast s else s)"

subsection \<open>Plain text\<close>

definition max_token :: nat where
  "max_token = 65536"

function scan_lines :: "bytes \<Rightarrow> read_error option \<Rightarrow> bytes list \<times> handle_error option" where
  "scan_lines s e =
     (case index_byte s newline of
        Some i \<Rightarrow>
          if i < max_token
          then (case scan_lines (drop (Suc i) s) e of (ls, err) \<Rightarrow> (drop_cr (take i s) # ls, err))
          else ([], Some TokenTooLong)
      | None \<Rightarrow>
          if max_token \<le> length s then ([], Some TokenTooLong)
          else ((if s = [] then [] else [drop_cr s]), map_option ReaderError e))"
  by pat_completeness auto
termination by (relation "measure (\<lambda>(s, e). length s)") (auto dest: index_byte_SomeD)

declare scan_lines.simps [simp del]

definition plain_Handle :: "bytes \<Rightarrow> read_error option \<Rightarrow> dcall list \<times> handle_error option" where
  "plain_Handle s e = (case scan_lines s e of (ls, err) \<Rightarrow> (map CallDispatch ls, err))"

text \<open>A UDP packet, read into a buffer of 65535 bytes, is handled like a connection of its own.\<close>

definition handleData :: "(bytes \<Rightarrow> read_error option \<Rightarrow> 'a) \<Rightarrow> bytes \<Rightarrow> 'a" where
  "handleData handler packet = handler (take 65535 packet) None"

subsection \<open>AMQP deliveries\<close>

definition amqp_buf :: nat where
  "amqp_buf = 4096"

function amqp_lines :: "bytes \<Rightarrow> bytes list" where
  "amqp_lines s =
     (if s = [] then []
      else case index_byte s newline of
             Some i \<Rightarrow>
               if i < amqp_buf then drop_cr (take i s) # amqp_lines (drop (Suc i) s)
               else if s ! (amqp_buf - 1) = CHR 0x0D then take (amqp_buf - 1) s # amqp_lines (drop (amqp_buf - 1) s)
               else take amqp_buf s # amqp_lines (drop amqp_buf s)
           | None \<Rightarrow>
               if length s < amqp_buf then [s]
               else if s ! (amqp_buf - 1) = CHR 0x0D then take (amqp_buf - 1) s # amqp_lines (drop (amqp_buf - 1) s)
               else take amqp_buf s # amqp_lines (drop amqp_buf s))"
  by pat_completeness auto
termination by (relation "measure length") (auto simp: amqp_buf_def dest: index_byte_SomeD)

declare amqp_lines.simps [simp del]

definition amqp_delivery :: "bytes \<Rightarrow> dcall list" where
  "amqp_delivery body = map CallDispatch (amqp_lines body)"

subsection \<open>Pickle\<close>

datatype pvalue = PTuple "pvalue list" | PList "pvalue list" | PString bytes | PInt int | PFloat real | POther

definition seq_of :: "pvalue \<Rightarrow> pvalue list option" where
  "seq_of v = (case v of PTuple xs \<Rightarrow> Some xs | PList xs \<Rightarrow> Some xs | _ \<Rightarrow> None)"

text \<open>The verb \<open>%.0f\<close>.\<close>

definition format_float0 :: "real \<Rightarrow> bytes" where
  "format_float0 x = (if x < 0 then ''-'' else []) @ format_nat (nat (round_half_even \<bar>x\<bar>))"

definition value_text :: "pvalue \<Rightarrow> bytes option" where
  "value_text v = (case v of PString s \<Rightarrow> Some s | PInt i \<Rightarrow> Some (format_int i) | PFloat x \<Rightarrow> Some (format_float6 x) | _ \<Rightarrow> None)"

definition time_text :: "pvalue \<Rightarrow> bytes option" where
  "time_text v = (case v of PString s \<Rightarrow> Some s | PInt i \<Rightarrow> Some (format_int i) | PFloat x \<Rightarrow> Some (format_float0 x) | _ \<Rightarrow> None)"

definition handle_item :: "pvalue \<Rightarrow> dcall" where
  "handle_item raw =
     (case seq_of raw of
        Some [PString metric, d] \<Rightarrow>
          (case seq_of d of
             Some [ts, val] \<Rightarrow>
               (case value_text val of
                  None \<Rightarrow> CallIncNumInvalid
                | Some v \<Rightarrow>
                    (case time_text ts of
                       None \<Rightarrow> CallIncNumInvalid
                     | Some t \<Rightarrow> CallDispatch (metric @ '' '' @ v @ '' '' @ t)))
           | _ \<Rightarrow> CallIncNumInvalid)
      | _ \<Rightarrow> CallIncNumInvalid)"

text \<open>The first bytes of a payload, peeked at in the stream.\<close>

definition checkProtocol :: "bytes \<Rightarrow> handle_error option" where
  "checkProtocol s =
     (if length s < 1 then Some PrefixUnreadable
      else if s ! 0 = CHR '']'' then None
      else if length s < 2 then Some PrefixUnreadable
      else if s ! 0 = CHR ''('' \<and> s ! 1 = CHR ''l'' then None
      else if length s < 3 then Some PrefixUnreadable
      else if s ! 0 = CHR 0x80 \<and> s ! 2 = CHR '']'' then None
      else if s ! 0 = CHR 0x80 \<and> s ! 2 = CHR 0x95 then None
      else Some InvalidPrefix)"

definition max_payload :: int where
  "max_payload = 500 * 1024 * 1024"

function pickle_Handle :: "(bytes \<Rightarrow> decode_error + pvalue) \<Rightarrow> bytes \<Rightarrow> read_error option \<Rightarrow> dcall list \<times> handle_error option" where
  "pickle_Handle decode s e =
     (if length s < 4 then ([], if s = [] \<and> e = None then None else Some LengthUnreadable)
      else
        let n = be_val (take 4 s); s1 = drop 4 s
        in if max_payload < n then ([], Some (PayloadTooLong n))
           else case checkProtocol s1 of
                  Some err \<Rightarrow> ([], Some err)
                | None \<Rightarrow>
                    if length s1 < nat n then ([], Some PayloadUnreadable)
                    else
                      (case decode (take (nat n) s1) of
                         Inl err \<Rightarrow> ([], if err = DecodeUnexpectedEOF then None else Some BadPickle)
                       | Inr (PList items) \<Rightarrow>
                           (case pickle_Handle decode (drop (nat n) s1) e of
                              (calls, err) \<Rightarrow> (map handle_item items @ calls, err))
                       | Inr _ \<Rightarrow> ([], Some NotAList)))"
  by pat_completeness auto
termination by (relation "measure (\<lambda>(d, s, e). length s)") auto

declare pickle_Handle.simps [simp del]

subsection \<open>Lines\<close>

definition clean_line :: "nat \<Rightarrow> bytes \<Rightarrow> bool" where
  "clean_line n l \<longleftrightarrow> newline \<notin> set l \<and> length l < n \<and> (l \<noteq> [] \<longrightarrow> last l \<noteq> CHR 0x0D)"

definition terminated :: "bytes list \<Rightarrow> bytes" where
  "terminated ls = concat (map (\<lambda>l. l @ [newline]) ls)"

lemma terminated_Cons: "terminated (l # ls) @ s = l @ newline # terminated ls @ s"
  by (simp add: terminated_def)

lemma clean_line_drop_cr: "clean_line n l \<Longrightarrow> drop_cr l = l"
  by (auto simp: clean_line_def drop_cr_def)

lemma scan_lines_terminated:
  assumes "\<forall>l \<in> set ls. clean_line max_token l"
  shows "scan_lines (terminated ls @ s) e = (case scan_lines s e of (ls', err) \<Rightarrow> (ls @ ls', err))"
  using assms
proof (induction ls)
  case (Cons l ls)
  moreover from this have "drop_cr l = l" by (auto intro: clean_line_drop_cr)
  ultimately show ?case
    by (subst scan_lines.simps) (simp add: terminated_Cons index_byte_append_stop clean_line_def split: prod.splits)
qed (simp add: terminated_def)

lemma amqp_lines_terminated:
  assumes "\<forall>l \<in> set ls. clean_line amqp_buf l"
  shows "amqp_lines (terminated ls @ s) = ls @ amqp_lines s"
  using assms
proof (induction ls)
  case (Cons l ls)
  moreover from this have "drop_cr l = l" by (auto intro: clean_line_drop_cr)
  ultimately show ?case
    by (subst amqp_lines.simps) (simp add: terminated_Cons index_byte_append_stop clean_line_def)
qed (simp add: terminated_def)



text \<open>A line longer than 65535 bytes ends the connection, with all lines behind it.\<close>

theorem long_line_ends_connection:
  assumes "\<forall>l \<in> set ls. clean_line max_token l" and "newline \<notin> set l" and "max_token \<le> length l"
  shows "plain_Handle (terminated ls @ l @ newline # s) e = (map CallDispatch ls, Some TokenTooLong)"
  using assms
  by (simp add: plain_Handle_def scan_lines_terminated scan_lines.simps [of "l @ newline # s"] index_byte_append_stop)

text \<open>A delivery with lines of up to 4095 bytes is dispatched line by line; of a longer line every 4096 bytes are
  dispatched as a line of their own.\<close>

theorem amqp_dispatches_lines:
  assumes "\<forall>l \<in> set ls. clean_line amqp_buf l"
  shows "amqp_delivery (terminated ls) = map CallDispatch ls"
  using amqp_lines_terminated [OF assms, of "[]"] by (simp add: amqp_delivery_def amqp_lines.simps [of "[]"])

theorem amqp_cuts_long_lines:
  assumes "newline \<notin> set (take amqp_buf s)" and "CHR 0x0D \<notin> set s" and "amqp_buf \<le> length s"
  shows "amqp_delivery s = CallDispatch (take amqp_buf s) # amqp_delivery (drop amqp_buf s)"
proof -
  have "amqp_buf - 1 < length s" using assms(3) by (simp add: amqp_buf_def)
  then have "s \<noteq> []" "s ! (amqp_buf - 1) \<noteq> CHR 0x0D" using assms(2) nth_mem by fastforce+
  moreover have "amqp_buf \<le> i" if "index_byte s newline = Some i" for i
  proof (rule ccontr)
    assume "\<not> amqp_buf \<le> i"
    then have "newline \<in> set (take amqp_buf s)"
      using index_byte_SomeD [OF that] by (metis in_set_conv_nth length_take min_less_iff_conj not_le nth_take)
    with assms(1) show False by simp
  qed
  ultimately show ?thesis
    using assms(3) by (simp add: amqp_delivery_def amqp_lines.simps [of s] split: option.splits) force
qed

subsection \<open>Pickles\<close>

definition frame_of :: "bytes \<Rightarrow> bytes" where
  "frame_of payload = be32 (int (length payload)) @ payload"

lemma checkProtocol_append:
  "3 \<le> length p \<Longrightarrow> checkProtocol (p @ s) = checkProtocol p"
proof -
  assume "3 \<le> length p"
  then obtain a b c q where "p = a # b # c # q" by (metis (no_types) Suc_le_length_iff numeral_3_eq_3)
  then show ?thesis by (simp add: checkProtocol_def)
qed

definition good_payload :: "(bytes \<Rightarrow> decode_error + pvalue) \<Rightarrow> bytes \<Rightarrow> pvalue list \<Rightarrow> bool" where
  "good_payload decode p items \<longleftrightarrow>
     3 \<le> length p \<and> int (length p) \<le> max_payload \<and> checkProtocol p = None \<and> decode p = Inr (PList items)"

lemma pickle_frame:
  assumes "good_payload decode p items"
  shows "pickle_Handle decode (frame_of p @ s) e =
    (case pickle_Handle decode s e of (calls, err) \<Rightarrow> (map handle_item items @ calls, err))"
proof -
  have n: "int (length p) < 2 ^ 32" "be_val (be32 (int (length p))) = int (length p)"
    using assms be_val_be32 [of "int (length p)"] by (auto simp: good_payload_def max_payload_def)
  then show ?thesis
    using assms checkProtocol_append [of p s]
    by (subst pickle_Handle.simps) (simp add: frame_of_def good_payload_def Let_def)
qed

text \<open>Every item of every pickle received leads to one call of the dispatcher, in order: the line of a well-formed
  item, and a count of an invalid one for any other.\<close>

theorem pickles_are_dispatched_item_by_item:
  assumes "list_all2 (good_payload decode) ps itemss"
  shows "pickle_Handle decode (concat (map frame_of ps)) None = (map handle_item (concat itemss), None)"
  using assms
proof (induction rule: list_all2_induct)
  case Nil
  show ?case by (simp add: pickle_Handle.simps)
next
  case (Cons p ps items itemss)
  then show ?case using pickle_frame [of decode p items "concat (map frame_of ps)" None] by simp
qed

theorem pickles_are_dispatched_item_by_item_witness:
  "pickle_Handle (\<lambda>p. Inr (PList [PTuple [PString ''a'', PTuple [PInt 10, PString ''1.5'']], POther])) (concat (map frame_of [''](.''])) None =
    ([CallDispatch ''a 1.5 10'', CallIncNumInvalid], None)"
proof -
  let ?items = "[PTuple [PString ''a'', PTuple [PInt 10, PString ''1.5'']], POther]"
  have "handle_item (PTuple [PString ''a'', PTuple [PInt 10, PString ''1.5'']]) = CallDispatch ''a 1.5 10''"
    "handle_item POther = CallIncNumInvalid"
    by code_simp+
  moreover have "list_all2 (good_payload (\<lambda>p. Inr (PList ?items))) [''](.''] [?items]"
    by (simp add: good_payload_def max_payload_def checkProtocol_def)
  ultimately show ?thesis
    using pickles_are_dispatched_item_by_item [of "\<lambda>p. Inr (PList ?items)" "[''](.'']" "[?items]"] by simp
qed

subsection \<open>From relay to relay\<close>

text \<open>What the code relies on of the encoder and the decoder, for one data point.\<close>

definition pickles_well :: "(Datapoint \<Rightarrow> bytes) \<Rightarrow> (bytes \<Rightarrow> decode_error + pvalue) \<Rightarrow> Datapoint \<Rightarrow> bool" where
  "pickles_well encode decode dp \<longleftrightarrow>
     good_payload decode (encode dp) [PTuple [PString (dp_Name dp), PTuple [PInt (uint (dp_Time dp)), PFloat (dp_Val dp)]]]"

definition pickled_line :: "Datapoint \<Rightarrow> bytes" where
  "pickled_line dp = dp_Name dp @ '' '' @ format_float6 (dp_Val dp) @ '' '' @ format_int (uint (dp_Time dp))"



text \<open>The value goes through \<open>%f\<close>: what is smaller than half a millionth arrives as zero.\<close>

theorem small_pickled_values_are_lost:
  assumes "0 \<le> x" and "x < 1 / 2000000"
  shows "value_text (PFloat x) = Some ''0.000000''"
proof -
  have "\<lfloor>x * 1000000\<rfloor> = 0" using assms by (simp add: floor_eq_iff)
  then have "round_half_even (x * 1000000) = 0" using assms by (simp add: round_half_even_def Let_def)
  moreover have "format_nat 0 = ''0''" "pad_left 6 CHR ''0'' ''0'' = ''000000''" by code_simp+
  ultimately show ?thesis using assms by (simp add: value_text_def format_float6_def)
qed

end
