(* ===== verification/Input_Listener.thy ===== *)
theory Input_Listener
  imports Input_Handlers
begin

text \<open>
  \<^verbatim>\<open>input/listen.go\<close>: the goroutine of a listener for one protocol, which consumes from a socket, opens it
  again when it fails, and is stopped; the consumption of \<^verbatim>\<open>input/amqp.go\<close>; the deadlines of
  \<^verbatim>\<open>input/timeout_conn.go\<close>; and \<^verbatim>\<open>input/manager/manager.go\<close>, which stops the inputs.

  \<^item> The sockets that a listener has opened are numbered; \<open>l_sock\<close> is the current one. The goroutine that
    waits for the shutdown closes the socket that \<open>run\<close> was given, number 0.
  \<^item> \<open>LError\<close> is a failure of an accept or a read: of the network, or because the socket is closed.
\<close>

datatype listener_state = Consuming | Reopening | Returned

record listener =
  l_state :: listener_state
  l_sock :: nat
  l_sock_closed :: bool
  l_shutdown :: bool
  l_attempt :: nat

definition listener_run :: listener where
  "listener_run = \<lparr>l_state = Consuming, l_sock = 0, l_sock_closed = False, l_shutdown = False, l_attempt = 0\<rparr>"

datatype listener_event = LStop | LCloser | LError | LListen bool

text \<open>\<open>consumeUdp\<close> and \<open>acceptTcp\<close> return when the socket fails, closing it unless the shutdown has begun; \<open>run\<close> then
  returns or opens the socket again, with growing pauses (\<open>l_attempt\<close>) between failures.\<close>

definition listener_step :: "listener_event \<Rightarrow> listener \<Rightarrow> listener" where
  "listener_step e l =
     (case e of
        LStop \<Rightarrow> l\<lparr>l_shutdown := True\<rparr>
      | LCloser \<Rightarrow> if l_shutdown l \<and> l_sock l = 0 then l\<lparr>l_sock_closed := True\<rparr> else l
      | LError \<Rightarrow>
          if l_state l = Consuming
          then (if l_shutdown l then l\<lparr>l_state := Returned\<rparr> else l\<lparr>l_sock_closed := True, l_state := Reopening\<rparr>)
          else l
      | LListen ok \<Rightarrow>
          if l_state l = Reopening
          then (if ok
                then l\<lparr>l_state := Consuming, l_sock := l_sock l + 1, l_sock_closed := False, l_attempt := 0\<rparr>
                else if l_shutdown l then l\<lparr>l_state := Returned\<rparr>
                else l\<lparr>l_attempt := l_attempt l + 1\<rparr>)
          else l)"

definition listener_runs :: "listener_event list \<Rightarrow> listener \<Rightarrow> listener" where
  "listener_runs es l = fold listener_step es l"

subsection \<open>Other inputs\<close>

text \<open>\<open>consumeAMQP\<close>: a delivery, the closed channel, which gives empty deliveries for ever, or the shutdown.\<close>

datatype amqp_event = ADelivery bytes | AChannelClosed | AShutdown

fun consumeAMQP :: "amqp_event list \<Rightarrow> dcall list \<times> bool" where
  "consumeAMQP [] = ([], False)"
| "consumeAMQP (ADelivery body # es) = (case consumeAMQP es of (calls, returned) \<Rightarrow> (amqp_delivery body @ calls, returned))"
| "consumeAMQP (AChannelClosed # es) = (case consumeAMQP es of (calls, returned) \<Rightarrow> (amqp_delivery [] @ calls, returned))"
| "consumeAMQP (AShutdown # es) = ([], True)"

text \<open>\<open>TimeoutConn.Read\<close>: the deadline that is set before a read, if any; setting it may fail.\<close>

definition TimeoutConn_Read :: "int \<Rightarrow> int \<Rightarrow> (int \<Rightarrow> 'e option) \<Rightarrow> (int option \<Rightarrow> nat \<times> 'e option) \<Rightarrow> nat \<times> 'e option" where
  "TimeoutConn_Read readTimeout now set_deadline read =
     (if 0 < readTimeout
      then (case set_deadline (now + readTimeout) of
              Some err \<Rightarrow> (0, Some err)
            | None \<Rightarrow> read (Some (now + readTimeout)))
      else read None)"

text \<open>\<open>manager.Stop\<close>: the results of \<open>n\<close> plugins that arrive before the timeout, in the order in which they do.\<close>

fun collect_results :: "nat \<Rightarrow> bool list \<Rightarrow> nat \<Rightarrow> bool \<Rightarrow> bool option" where
  "collect_results n [] cnt success = None"
| "collect_results n (res # rs) cnt success =
     (if Suc cnt = n then Some (success \<and> res) else collect_results n rs (Suc cnt) (success \<and> res))"

definition manager_Stop :: "nat \<Rightarrow> bool list \<Rightarrow> bool" where
  "manager_Stop n results = (case collect_results n results 0 True of Some res \<Rightarrow> res | None \<Rightarrow> False)"

subsection \<open>Properties\<close>

lemma listener_runs_simps [simp]:
  "listener_runs [] l = l" "listener_runs (e # es) l = listener_runs es (listener_step e l)"
  by (simp_all add: listener_runs_def)

lemma returned_stays: "l_state l = Returned \<Longrightarrow> l_state (listener_runs es l) = Returned"
proof (induction es arbitrary: l)
  case (Cons e es)
  then show ?case by (cases e) (simp_all add: listener_step_def)
qed simp

text \<open>A listener that keeps its first socket returns when it is stopped: its socket is closed and the
  next accept or read fails.\<close>

lemma first_socket_stops:
  assumes "l_sock l = 0" and "l_state l = Consuming"
  shows "l_sock_closed (listener_runs [LStop, LCloser] l) \<and> l_state (listener_runs [LStop, LCloser, LError] l) = Returned"
  using assms by (simp add: listener_step_def)

text \<open>A listener that has opened its socket again is not stopped: whatever the goroutines do after \<open>Stop\<close>, the socket
  stays open and the listener consumes, until the network makes an accept or a read fail; only then, or when it
  had not yet been opened again, the listener returns.\<close>

theorem reopened_listener_is_not_stopped:
  assumes "l_state l = Consuming" and "0 < l_sock l" and "\<not> l_sock_closed l" and "LError \<notin> set es"
  shows "l_state (listener_runs (LStop # es) l) = Consuming \<and> \<not> l_sock_closed (listener_runs (LStop # es) l) \<and>
    (l_sock l' = 0 \<and> l_state l' = Consuming \<longrightarrow> l_state (listener_runs [LStop, LCloser, LError] l') = Returned)"
proof -
  have "l_state (listener_runs es m) = Consuming \<and> \<not> l_sock_closed (listener_runs es m)"
    if "l_state m = Consuming" "0 < l_sock m" "\<not> l_sock_closed m" for m
    using that assms(4)
  proof (induction es arbitrary: m)
    case (Cons e es)
    then have "listener_step e m = m \<or> listener_step e m = m\<lparr>l_shutdown := True\<rparr>"
      by (cases e) (simp_all add: listener_step_def)
    with Cons show ?case by fastforce
  qed simp
  from this [of "l\<lparr>l_shutdown := True\<rparr>"] assms(1-3) first_socket_stops [of l']
  show ?thesis by (simp add: listener_step_def)
qed

theorem reopened_listener_is_not_stopped_witness:
  "l_state (listener_runs [LError, LListen False, LListen True, LStop, LCloser, LCloser] listener_run) = Consuming"
proof -
  let ?l = "listener_runs [LError, LListen False, LListen True] listener_run"
  have "l_state ?l = Consuming" "0 < l_sock ?l" "\<not> l_sock_closed ?l" "LError \<notin> set [LCloser, LCloser]"
    by (simp_all add: listener_step_def listener_run_def)
  from reopened_listener_is_not_stopped [OF this, of listener_run] show ?thesis by simp
qed

text \<open>Without the shutdown the consumption of AMQP deliveries goes on for ever, also when the channel is closed, which
  its caller relies on to reconnect.\<close>

theorem closed_amqp_channel_is_not_noticed:
  assumes "AShutdown \<notin> set es"
  shows "\<not> snd (consumeAMQP es) \<and> fst (consumeAMQP (es @ replicate n AChannelClosed)) = fst (consumeAMQP es)"
  using assms
proof (induction es)
  case Nil
  have "consumeAMQP (replicate n AChannelClosed) = ([], False)"
    by (induction n) (simp_all add: amqp_delivery_def amqp_lines.simps)
  then show ?case by simp
next
  case (Cons e es)
  then show ?case by (cases e) (auto split: prod.splits)
qed

text \<open>The inputs have been stopped when all of them say so in time; but with no inputs at all the
  manager waits for the timeout and reports a failure.\<close>

theorem manager_reports_all:
  "(0 < length results \<longrightarrow> manager_Stop (length results) results = (\<forall>res \<in> set results. res)) \<and> \<not> manager_Stop 0 []"
proof -
  have "collect_results (cnt + length rs) rs cnt success = (if rs = [] then None else Some (success \<and> (\<forall>res \<in> set rs. res)))"
    for rs cnt success
  proof (induction rs arbitrary: cnt success)
    case (Cons r rs)
    then show ?case using Cons.IH [of "Suc cnt" "success \<and> r"] by (cases rs) auto
  qed simp
  from this [of 0 results True] show ?thesis by (simp add: manager_Stop_def)
qed

end
