(* ===== verification/Input_Amqp.thy ===== *)
theory Input_Amqp
  imports Input_Listener
begin

text \<open>
  \<^verbatim>\<open>input/amqp.go\<close>: the goroutines of an AMQP input: \<open>start\<close>, which connects and consumes, and for every connection
  one that waits for its end and, with \<open>amqp_retry\<close>, connects again.

  \<^item> Connections are numbered in the order of the dials. \<open>conn\<close>, \<open>channel\<close> and \<open>delivery\<close> are the fields of \<open>Amqp\<close>, which all
    goroutines share: a channel and the deliveries of a consumer go by the number of their connection.
  \<^item> The broker and its client library are the events: their answers, the messages that they push to a consumer, the end
    of a connection. As the library documents, the notice of the end also comes when the connection is closed here,
    messages are acknowledged when they are delivered (\<open>autoAck\<close>), whether they are received or not, and those that were
    delivered before the end can still be received.
  \<^item> \<open>am_log\<close>, \<open>am_pushed\<close> and \<open>am_received\<close> record the calls of the library, and the messages pushed and received.
\<close>

record AmqpConfig =
  Amqp_host :: bytes
  Amqp_port :: int
  Amqp_vhost :: bytes
  Amqp_user :: bytes
  Amqp_password :: bytes
  Amqp_exchange :: bytes
  Amqp_queue :: bytes
  Amqp_key :: bytes
  Amqp_durable :: bool
  Amqp_exclusive :: bool
  Amqp_heartbeat :: int
  Amqp_retry :: bool
  Amqp_retrydelay :: int

record amqp_uri =
  Scheme :: bytes
  uri_Host :: bytes
  uri_Port :: int
  Username :: bytes
  uri_Password :: bytes
  Vhost :: bytes

datatype broker_call = DialConfig amqp_uri int | OpenChannel nat | QueueDeclare nat bytes bool bool
  | QueueBind nat bytes bytes bytes | Consume nat bytes bytes bool | Pause int

datatype connector = Dialing | HasConn nat | HasChannel nat | Declared nat bytes | Bound nat bytes

datatype amqp_main = Connecting connector | Pausing | AConsuming | AReturned

record amqp =
  am_config :: AmqpConfig
  am_uri :: amqp_uri
  am_conn :: "nat option"
  am_channel :: "nat option"
  am_delivery :: "nat option"
  am_shutdown :: bool
  am_main :: amqp_main
  am_monitors :: "nat list"
  am_connectors :: "connector list"
  am_open :: "nat list"
  am_consuming :: "nat list"
  am_buffered :: "(nat \<times> bytes) list"
  am_dials :: nat
  am_log :: "broker_call list"
  am_pushed :: "bytes list"
  am_received :: "bytes list"
  am_calls :: "dcall list"

definition NewAMQP :: "AmqpConfig \<Rightarrow> amqp" where
  "NewAMQP config =
     \<lparr>am_config = config,
      am_uri = \<lparr>Scheme = ''amqp'', uri_Host = Amqp_host config, uri_Port = Amqp_port config, Username = Amqp_user config,
        uri_Password = Amqp_password config, Vhost = Amqp_vhost config\<rparr>,
      am_conn = None, am_channel = None, am_delivery = None, am_shutdown = False, am_main = Connecting Dialing, am_monitors = [],
      am_connectors = [], am_open = [], am_consuming = [], am_buffered = [], am_dials = 0, am_log = [], am_pushed = [],
      am_received = [], am_calls = []\<rparr>"

text \<open>Closing a connection also ends the consumer on its channel.\<close>

definition close_channel :: "amqp \<Rightarrow> amqp" where
  "close_channel a = a\<lparr>am_consuming := filter (\<lambda>i. Some i \<noteq> am_channel a) (am_consuming a)\<rparr>"

definition end_conn :: "nat \<Rightarrow> amqp \<Rightarrow> amqp" where
  "end_conn i a = a\<lparr>am_open := removeAll i (am_open a), am_consuming := removeAll i (am_consuming a)\<rparr>"

definition close_conn :: "amqp \<Rightarrow> amqp" where
  "close_conn a = (case am_conn a of None \<Rightarrow> a | Some i \<Rightarrow> end_conn i a)"

definition amqp_close :: "amqp \<Rightarrow> amqp" where
  "amqp_close a = close_conn (close_channel a)"

definition am_called :: "broker_call \<Rightarrow> amqp \<Rightarrow> amqp" where
  "am_called c a = a\<lparr>am_log := am_log a @ [c]\<rparr>"

text \<open>\<open>AMQPConnector\<close>, one call of the library at a time with its answer: an error, or success with, for the declaration
  of the queue, its name. A call on a connection that is not open fails. The result is the rest of the connector,
  or whether it has succeeded.\<close>

fun connector_step :: "bytes option \<Rightarrow> connector \<Rightarrow> amqp \<Rightarrow> (connector + bool) \<times> amqp" where
  "connector_step ans Dialing a =
     (let a = am_called (DialConfig (am_uri a) (Amqp_heartbeat (am_config a) * 10 ^ 9)) a
      in if ans \<noteq> None
         then (Inl (HasConn (am_dials a)),
               a\<lparr>am_conn := Some (am_dials a), am_open := am_open a @ [am_dials a], am_dials := am_dials a + 1,
                 am_monitors := am_monitors a @ [am_dials a]\<rparr>)
         else if \<not> Amqp_retry (am_config a) then (Inr False, a)
         else (Inl Dialing, am_called (Pause (Amqp_retrydelay (am_config a) * 10 ^ 9)) a))"
| "connector_step ans (HasConn i) a =
     (let a = am_called (OpenChannel i) a
      in if ans \<noteq> None \<and> i \<in> set (am_open a) then (Inl (HasChannel i), a\<lparr>am_channel := Some i\<rparr>)
         else (Inr False, close_conn a))"
| "connector_step ans (HasChannel i) a =
     (let a = am_called (QueueDeclare i (Amqp_queue (am_config a)) (Amqp_durable (am_config a)) (Amqp_exclusive (am_config a))) a
      in case ans of
           Some q \<Rightarrow> if i \<in> set (am_open a) then (Inl (Declared i q), a) else (Inr False, amqp_close a)
         | None \<Rightarrow> (Inr False, amqp_close a))"
| "connector_step ans (Declared i q) a =
     (let a = am_called (QueueBind i q (Amqp_key (am_config a)) (Amqp_exchange (am_config a))) a
      in if ans \<noteq> None \<and> i \<in> set (am_open a) then (Inl (Bound i q), a) else (Inr False, amqp_close a))"
| "connector_step ans (Bound i q) a =
     (let a = am_called (Consume i q ''carbon-relay-ng'' (Amqp_exclusive (am_config a))) a
      in if ans \<noteq> None \<and> i \<in> set (am_open a)
         then (Inr True, a\<lparr>am_delivery := Some i, am_consuming := am_consuming a @ [i]\<rparr>)
         else (Inr False, amqp_close (a\<lparr>am_delivery := None\<rparr>)))"

text \<open>A turn of \<open>consumeAMQP\<close>: the next message of the current consumer, the empty delivery of one that has ended, or
  nothing, when it waits.\<close>

definition receive :: "amqp \<Rightarrow> amqp" where
  "receive a =
     (case am_delivery a of
        None \<Rightarrow> a
      | Some i \<Rightarrow>
          (case filter (\<lambda>(j, _). j = i) (am_buffered a) of
             (j, body) # _ \<Rightarrow>
               a\<lparr>am_buffered := remove1 (j, body) (am_buffered a), am_received := am_received a @ [body],
                 am_calls := am_calls a @ amqp_delivery body\<rparr>
           | [] \<Rightarrow> if i \<in> set (am_consuming a) then a else a\<lparr>am_calls := am_calls a @ amqp_delivery []\<rparr>))"

datatype amqp_step_event = EMain "bytes option" | EPauseOver | EReceive | EStopSeen | EStop | ENotice nat
  | EConnector nat "bytes option" | EPush nat bytes | EBrokerCloses nat

text \<open>\<open>start\<close> (\<open>EMain\<close>, \<open>EPauseOver\<close>, \<open>EReceive\<close>, \<open>EStopSeen\<close>), the goroutines that wait for the end of a connection
  (\<open>ENotice\<close>) and then connect (\<open>EConnector\<close>), \<open>Stop\<close>, and the broker.\<close>

definition amqp_step :: "amqp_step_event \<Rightarrow> amqp \<Rightarrow> amqp" where
  "amqp_step e a =
     (case e of
        EMain ans \<Rightarrow>
          (case am_main a of
             Connecting c \<Rightarrow>
               (case connector_step ans c a of
                  (Inl c', a') \<Rightarrow> a'\<lparr>am_main := Connecting c'\<rparr>
                | (Inr True, a') \<Rightarrow> a'\<lparr>am_main := AConsuming\<rparr>
                | (Inr False, a') \<Rightarrow> a'\<lparr>am_main := if am_shutdown a' then AReturned else Pausing\<rparr>)
           | _ \<Rightarrow> a)
      | EPauseOver \<Rightarrow> if am_main a = Pausing then a\<lparr>am_main := Connecting Dialing\<rparr> else a
      | EReceive \<Rightarrow> if am_main a = AConsuming then receive a else a
      | EStopSeen \<Rightarrow> if am_main a = AConsuming \<and> am_shutdown a then (amqp_close a)\<lparr>am_main := AReturned\<rparr> else a
      | EStop \<Rightarrow> a\<lparr>am_shutdown := True\<rparr>
      | ENotice i \<Rightarrow>
          if i \<in> set (am_monitors a) \<and> i \<notin> set (am_open a)
          then a\<lparr>am_monitors := removeAll i (am_monitors a),
                 am_connectors := am_connectors a @ (if Amqp_retry (am_config a) then [Dialing] else [])\<rparr>
          else a
      | EConnector k ans \<Rightarrow>
          if k < length (am_connectors a)
          then (case connector_step ans (am_connectors a ! k) a of
                  (Inl c', a') \<Rightarrow> a'\<lparr>am_connectors := (am_connectors a')[k := c']\<rparr>
                | (Inr _, a') \<Rightarrow> a'\<lparr>am_connectors := remove_nth k (am_connectors a')\<rparr>)
          else a
      | EPush i body \<Rightarrow>
          if i \<in> set (am_consuming a)
          then a\<lparr>am_buffered := am_buffered a @ [(i, body)], am_pushed := am_pushed a @ [body]\<rparr>
          else a
      | EBrokerCloses i \<Rightarrow> end_conn i a)"

definition amqp_run :: "amqp_step_event list \<Rightarrow> amqp \<Rightarrow> amqp" where
  "amqp_run = fold amqp_step"

subsection \<open>Properties\<close>

definition idle :: "amqp \<Rightarrow> bool" where
  "idle a \<longleftrightarrow> am_open a = [] \<and> am_consuming a = [] \<and> am_buffered a = []"

definition only_conn :: "nat \<Rightarrow> amqp \<Rightarrow> bool" where
  "only_conn i a \<longleftrightarrow> am_conn a = Some i \<and> (am_open a = [] \<or> am_open a = [i])"

text \<open>Without \<open>amqp_retry\<close>: only the goroutine of \<open>start\<close> connects, and its connection is the only one.\<close>

definition amqp_inv :: "amqp \<Rightarrow> bool" where
  "amqp_inv a \<longleftrightarrow>
     \<not> Amqp_retry (am_config a) \<and> am_connectors a = [] \<and>
     am_pushed a = am_received a @ map snd (am_buffered a) \<and> am_calls a = concat (map amqp_delivery (am_received a)) \<and>
     (case am_main a of
        Connecting Dialing \<Rightarrow> idle a
      | Pausing \<Rightarrow> idle a
      | Connecting (HasConn i) \<Rightarrow> only_conn i a \<and> am_consuming a = [] \<and> am_buffered a = []
      | Connecting (HasChannel i) \<Rightarrow> only_conn i a \<and> am_channel a = Some i \<and> am_consuming a = [] \<and> am_buffered a = []
      | Connecting (Declared i q) \<Rightarrow> only_conn i a \<and> am_channel a = Some i \<and> am_consuming a = [] \<and> am_buffered a = []
      | Connecting (Bound i q) \<Rightarrow> only_conn i a \<and> am_channel a = Some i \<and> am_consuming a = [] \<and> am_buffered a = []
      | AConsuming \<Rightarrow>
          (\<exists>i. only_conn i a \<and> am_channel a = Some i \<and> am_delivery a = Some i \<and> (am_consuming a = [] \<or> am_consuming a = [i]) \<and>
               (\<forall>x \<in> set (am_buffered a). fst x = i))
      | AReturned \<Rightarrow> am_open a = [] \<and> am_consuming a = [])"

lemmas amqp_defs = amqp_inv_def idle_def only_conn_def amqp_close_def close_conn_def close_channel_def end_conn_def am_called_def

lemma empty_delivery [simp]: "amqp_delivery [] = []"
  by (simp add: amqp_delivery_def amqp_lines.simps)

lemma receive_inv:
  assumes "amqp_inv a" and "am_main a = AConsuming"
  shows "amqp_inv (receive a) \<and> am_main (receive a) = AConsuming \<and> length (am_buffered (receive a)) = length (am_buffered a) - 1 \<and>
    am_pushed (receive a) = am_pushed a"
proof -
  obtain i where i: "only_conn i a" "am_channel a = Some i" "am_delivery a = Some i" "am_consuming a = [] \<or> am_consuming a = [i]"
    "\<forall>x \<in> set (am_buffered a). fst x = i"
    using assms by (auto simp: amqp_inv_def)
  then have f: "filter (\<lambda>(j, _). j = i) (am_buffered a) = am_buffered a"
    by (auto simp: filter_id_conv)
  show ?thesis
  proof (cases "am_buffered a")
    case Nil
    then show ?thesis using i f assms by (simp add: receive_def amqp_inv_def only_conn_def)
  next
    case (Cons x xs)
    then show ?thesis using i f assms by (cases x) (simp add: receive_def amqp_inv_def only_conn_def)
  qed
qed

lemma main_inv:
  assumes "amqp_inv a"
  shows "amqp_inv (amqp_step (EMain ans) a)"
proof (cases "am_main a")
  case (Connecting c)
  then show ?thesis
    using assms by (cases c; cases ans) (auto simp: amqp_step_def amqp_defs Let_def)
qed (use assms in \<open>simp_all add: amqp_step_def\<close>)

lemma amqp_step_inv: "amqp_inv a \<Longrightarrow> amqp_inv (amqp_step e a)"
proof (cases e)
  case (EMain ans)
  then show "amqp_inv a \<Longrightarrow> ?thesis" using main_inv by simp
next
  case EPauseOver
  then show "amqp_inv a \<Longrightarrow> ?thesis" by (auto simp: amqp_step_def amqp_defs)
next
  case EReceive
  then show "amqp_inv a \<Longrightarrow> ?thesis" using receive_inv [of a] by (simp add: amqp_step_def)
next
  case EStopSeen
  then show "amqp_inv a \<Longrightarrow> ?thesis" by (auto simp: amqp_step_def amqp_defs)
next
  case EStop
  then show "amqp_inv a \<Longrightarrow> ?thesis" by (simp add: amqp_step_def amqp_inv_def idle_def only_conn_def cong: amqp_main.case_cong connector.case_cong)
next
  case (ENotice i)
  then show "amqp_inv a \<Longrightarrow> ?thesis" by (simp add: amqp_step_def amqp_inv_def idle_def only_conn_def cong: amqp_main.case_cong connector.case_cong)
next
  case (EConnector k ans)
  then show "amqp_inv a \<Longrightarrow> ?thesis" by (simp add: amqp_step_def amqp_inv_def)
next
  case (EPush i body)
  then show "amqp_inv a \<Longrightarrow> ?thesis"
    by (auto simp: amqp_step_def amqp_defs split: amqp_main.splits connector.splits)
next
  case (EBrokerCloses i)
  then show "amqp_inv a \<Longrightarrow> ?thesis"
    by (auto simp: amqp_step_def amqp_defs split: amqp_main.splits connector.splits if_splits)
qed

lemma amqp_run_inv: "amqp_inv a \<Longrightarrow> amqp_inv (amqp_run es a)"
  by (induction es arbitrary: a) (auto simp: amqp_run_def amqp_step_inv)

lemma new_inv: "\<not> Amqp_retry config \<Longrightarrow> amqp_inv (NewAMQP config)"
  by (simp add: NewAMQP_def amqp_inv_def idle_def)

lemma receives_all:
  assumes "amqp_inv a" and "am_main a = AConsuming"
  shows "am_calls (amqp_run (replicate (length (am_buffered a)) EReceive) a) = concat (map amqp_delivery (am_pushed a))"
  using assms
proof (induction "length (am_buffered a)" arbitrary: a)
  case 0
  then show ?case by (simp add: amqp_run_def amqp_inv_def)
next
  case (Suc n)
  have s: "amqp_step EReceive a = receive a" using Suc.prems by (simp add: amqp_step_def)
  have r: "amqp_inv (receive a)" "am_main (receive a) = AConsuming" "n = length (am_buffered (receive a))"
    "am_pushed (receive a) = am_pushed a"
    using receive_inv [OF Suc.prems] Suc.hyps(2) by simp_all
  have "amqp_run (replicate (Suc n) EReceive) a = amqp_run (replicate n EReceive) (receive a)"
    by (simp add: amqp_run_def s)
  then show ?case
    using Suc.hyps(1) [OF r(3,1,2)] r(3,4) Suc.hyps(2) by metis
qed


definition example_amqp :: "bool \<Rightarrow> AmqpConfig" where
  "example_amqp retry = \<lparr>Amqp_host = ''localhost'', Amqp_port = 5672, Amqp_vhost = ''/graphite'', Amqp_user = ''guest'',
     Amqp_password = ''guest'', Amqp_exchange = ''metrics'', Amqp_queue = ''relay'', Amqp_key = ''#'', Amqp_durable = False,
     Amqp_exclusive = False, Amqp_heartbeat = 10, Amqp_retry = retry, Amqp_retrydelay = 30\<rparr>"

definition connects :: "(bytes option \<Rightarrow> amqp_step_event) \<Rightarrow> amqp_step_event list" where
  "connects e = replicate 5 (e (Some ''relay''))"


text \<open>With \<open>amqp_retry\<close> an attempt that fails after the dial closes its connection, for which its goroutine connects again,
  as \<open>start\<close> does too: two consumers share the queue, and the messages delivered to the one that is not \<open>delivery\<close> are lost.\<close>

definition failed_setup :: "amqp_step_event list" where
  "failed_setup = [EMain (Some []), EMain None, ENotice 0] @ connects (EConnector 0) @ [EPauseOver] @ connects EMain"

theorem failed_setup_doubles_consumers:
  "(let a = amqp_run (failed_setup @ [EPush 1 ''a 1 2'', EReceive]) (NewAMQP (example_amqp True))
    in am_main a = AConsuming \<and> am_consuming a = [1, 2] \<and> am_pushed a = [''a 1 2''] \<and> am_calls a = [] \<and>
       amqp_run (replicate n EReceive) a = a)"
proof -
  let ?a = "amqp_run (failed_setup @ [EPush 1 ''a 1 2'', EReceive]) (NewAMQP (example_amqp True))"
  have a: "am_main ?a = AConsuming" "am_consuming ?a = [1, 2]" "am_pushed ?a = [''a 1 2'']" "am_calls ?a = []"
    "am_delivery ?a = Some 2" "am_buffered ?a = [(1, ''a 1 2'')]"
    by (simp_all add: failed_setup_def connects_def numeral_eq_Suc amqp_run_def amqp_step_def NewAMQP_def example_amqp_def
        am_called_def receive_def close_conn_def end_conn_def remove_nth_def)
  then have "amqp_step EReceive ?a = ?a" by (simp add: amqp_step_def receive_def)
  then have "amqp_run (replicate n EReceive) ?a = ?a" by (induction n) (simp_all add: amqp_run_def)
  with a show ?thesis by (simp add: Let_def)
qed

text \<open>An input that has been stopped connects again, and takes messages from the queue that no one receives.\<close>

theorem stopped_input_connects_again:
  "(let a = amqp_run (connects EMain @ [EStop, EStopSeen, ENotice 0] @ connects (EConnector 0)) (NewAMQP (example_amqp True))
    in am_main a = AReturned \<and> am_open a = [1] \<and> am_consuming a = [1])"
  by (simp add: connects_def numeral_eq_Suc amqp_run_def amqp_step_def NewAMQP_def example_amqp_def
      am_called_def amqp_close_def close_channel_def close_conn_def end_conn_def remove_nth_def Let_def)

text \<open>While the broker cannot be reached, a stop is noticed after the next attempt without \<open>amqp_retry\<close>, and never with it.\<close>

theorem dialing_with_retry_ignores_stop:
  "am_main (amqp_run (EStop # replicate n (EMain None)) (NewAMQP config)) =
     (if Amqp_retry config \<or> n = 0 then Connecting Dialing else AReturned)"
proof -
  let ?a = "amqp_step EStop (NewAMQP config)"
  have retry: "am_main (fold amqp_step (replicate n (EMain None)) a) = Connecting Dialing"
    if "am_main a = Connecting Dialing" "Amqp_retry (am_config a)" for a
    using that by (induction n arbitrary: a) (simp_all add: amqp_step_def Let_def am_called_def)
  have returned: "am_main (fold amqp_step (replicate m (EMain None)) a) = AReturned" if "am_main a = AReturned" for m a
    using that by (induction m arbitrary: a) (simp_all add: amqp_step_def)
  show ?thesis
  proof (cases "Amqp_retry config \<or> n = 0")
    case True
    then show ?thesis using retry [of ?a] by (auto simp: amqp_run_def amqp_step_def NewAMQP_def)
  next
    case False
    then obtain m where "n = Suc m" by (cases n) auto
    then show ?thesis
      using False returned [of "amqp_step (EMain None) ?a" m] by (simp add: amqp_run_def) (simp add: amqp_step_def NewAMQP_def am_called_def)
  qed
qed

end
