(* ===== verification/Input_Sockets.thy ===== *)
theory Input_Sockets
  imports Input_Listener
begin

text \<open>
  \<^verbatim>\<open>input/listen.go\<close>: a listener as a whole, from \<open>Start\<close> to the return of \<open>Stop\<close>: the goroutines of its two protocols
  (\<open>listener_step\<close>), one for every TCP connection, which handles it, and one that closes it at the shutdown.

  \<^item> \<open>Stop\<close> closes \<open>shutdown\<close>, which all goroutines see, and waits for the wait group: the goroutines of the protocols and
    of the connections.
  \<^item> Connections are numbered as they are accepted; a handler returns at the end of its connection, or an error, or because
    the connection has been closed.
\<close>

record input_listener =
  il_tcp :: listener
  il_udp :: listener
  il_conns :: "nat list"
  il_closing :: "nat list"
  il_accepted :: nat
  il_closed :: "nat list"

text \<open>The outcome of \<open>Start\<close>: the listener, or the error of opening a socket with the number of sockets left open.\<close>

definition Listener_Start :: "bool \<Rightarrow> bool \<Rightarrow> nat + input_listener" where
  "Listener_Start tcp_ok udp_ok =
     (if \<not> tcp_ok then Inl 0
      else if \<not> udp_ok then Inl 1
      else Inr \<lparr>il_tcp = listener_run, il_udp = listener_run, il_conns = [], il_closing = [], il_accepted = 0, il_closed = []\<rparr>)"

datatype input_event = ITcp listener_event | IUdp listener_event | IStop | IAccept | ICloser nat | IHandled nat

definition input_step :: "input_event \<Rightarrow> input_listener \<Rightarrow> input_listener" where
  "input_step e l =
     (case e of
        ITcp ev \<Rightarrow> if ev = LStop then l else l\<lparr>il_tcp := listener_step ev (il_tcp l)\<rparr>
      | IUdp ev \<Rightarrow> if ev = LStop then l else l\<lparr>il_udp := listener_step ev (il_udp l)\<rparr>
      | IStop \<Rightarrow> l\<lparr>il_tcp := listener_step LStop (il_tcp l), il_udp := listener_step LStop (il_udp l)\<rparr>
      | IAccept \<Rightarrow>
          if l_state (il_tcp l) = Consuming \<and> \<not> l_sock_closed (il_tcp l)
          then l\<lparr>il_conns := il_conns l @ [il_accepted l], il_accepted := il_accepted l + 1\<rparr>
          else l
      | ICloser i \<Rightarrow>
          if l_shutdown (il_tcp l) \<and> i \<in> set (il_conns l) \<and> i \<notin> set (il_closing l)
          then l\<lparr>il_closing := il_closing l @ [i]\<rparr>
          else l
      | IHandled i \<Rightarrow>
          if i \<in> set (il_conns l)
          then l\<lparr>il_conns := removeAll i (il_conns l), il_closing := removeAll i (il_closing l), il_closed := il_closed l @ [i]\<rparr>
          else l)"

definition input_run :: "input_event list \<Rightarrow> input_listener \<Rightarrow> input_listener" where
  "input_run = fold input_step"

definition Stop_returns :: "input_listener \<Rightarrow> bool" where
  "Stop_returns l \<longleftrightarrow>
     l_shutdown (il_tcp l) \<and> l_state (il_tcp l) = Returned \<and> l_state (il_udp l) = Returned \<and> il_conns l = []"

subsection \<open>Properties\<close>

lemma input_run_simps [simp]:
  "input_run [] l = l" "input_run (e # es) l = input_run es (input_step e l)" "input_run (es @ es') l = input_run es' (input_run es l)"
  by (simp_all add: input_run_def)

text \<open>Every connection is accounted for: it is being handled or has been closed, once.\<close>

definition conns_ok :: "input_listener \<Rightarrow> bool" where
  "conns_ok l \<longleftrightarrow> distinct (il_conns l @ il_closed l) \<and> set (il_conns l @ il_closed l) = {..<il_accepted l} \<and>
     set (il_closing l) \<subseteq> set (il_conns l) \<and> distinct (il_closing l)"

lemma input_step_ok: "conns_ok l \<Longrightarrow> conns_ok (input_step e l)"
  by (cases e) (auto simp: conns_ok_def input_step_def distinct_removeAll)

lemma input_run_ok: "conns_ok l \<Longrightarrow> conns_ok (input_run es l)"
  by (induction es arbitrary: l) (simp_all add: input_step_ok)

text \<open>The turns that are left after a stop: the sockets are closed, the accept and the read fail, and the handlers of the
  closed connections return.\<close>

definition stopping :: "nat list \<Rightarrow> input_event list" where
  "stopping conns = [ITcp LCloser, ITcp LError, IUdp LCloser, IUdp LError] @ concat (map (\<lambda>i. [ICloser i, IHandled i]) conns)"

lemma handlers_return:
  "distinct conns \<Longrightarrow> il_conns l = conns \<Longrightarrow>
     (let l' = input_run (concat (map (\<lambda>i. [ICloser i, IHandled i]) conns)) l
      in il_conns l' = [] \<and> il_tcp l' = il_tcp l \<and> il_udp l' = il_udp l \<and> il_accepted l' = il_accepted l)"
proof (induction conns arbitrary: l)
  case (Cons i conns)
  let ?l = "input_run [ICloser i, IHandled i] l"
  have "il_conns ?l = conns" "il_tcp ?l = il_tcp l" "il_udp ?l = il_udp l" "il_accepted ?l = il_accepted l"
    using Cons.prems by (auto simp: input_step_def removeAll_id)
  with Cons.IH [of ?l] Cons.prems(1) show ?case by (simp add: Let_def)
qed simp

lemma stop_returns_in:
  assumes "conns_ok l" "l_sock (il_tcp l) = 0" "l_sock (il_udp l) = 0" "l_state (il_tcp l) = Consuming" "l_state (il_udp l) = Consuming"
    and "l_shutdown (il_tcp l)" "l_shutdown (il_udp l)"
  shows "Stop_returns (input_run (stopping (il_conns l)) l) \<and> il_accepted (input_run (stopping (il_conns l)) l) = il_accepted l"
proof -
  let ?l = "input_run [ITcp LCloser, ITcp LError, IUdp LCloser, IUdp LError] l"
  have l: "il_conns ?l = il_conns l" "il_accepted ?l = il_accepted l" "l_state (il_tcp ?l) = Returned" "l_state (il_udp ?l) = Returned"
    "l_shutdown (il_tcp ?l)"
    using assms by (simp_all add: input_step_def listener_step_def)
  have "distinct (il_conns l)" using assms(1) by (simp add: conns_ok_def)
  from handlers_return [OF this l(1)] l show ?thesis
    by (simp only: stopping_def input_run_simps Stop_returns_def Let_def)
qed

text \<open>Every connection is handled, and closed, exactly once, and \<open>Stop\<close> returns after as many turns as the sockets and the
  open connections need, with all connections closed, if neither socket has been opened again.\<close>

theorem stopped_listener_closes_everything:
  assumes "Listener_Start True True = Inr l0" and "l = input_run (es @ [IStop]) l0"
    and "l_sock (il_tcp l) = 0" "l_state (il_tcp l) = Consuming" "l_sock (il_udp l) = 0" "l_state (il_udp l) = Consuming"
  shows "(let l' = input_run (stopping (il_conns l)) l
    in Stop_returns l' \<and> distinct (il_closed l') \<and> set (il_closed l') = {..<il_accepted l} \<and>
       length (stopping (il_conns l)) = 4 + 2 * length (il_conns l))"
proof -
  have "conns_ok l0" using assms(1) by (auto simp: Listener_Start_def conns_ok_def)
  then have ok: "conns_ok l" "conns_ok (input_run (stopping (il_conns l)) l)"
    using assms(2) input_run_ok by blast+
  have sh: "l_shutdown (il_tcp l)" "l_shutdown (il_udp l)"
    using assms(2) by (simp_all add: input_step_def listener_step_def)
  have "length (concat (map (\<lambda>i. [ICloser i, IHandled i]) cs)) = 2 * length cs" for cs
    by (induction cs) simp_all
  then have n: "length (stopping (il_conns l)) = 4 + 2 * length (il_conns l)" by (simp add: stopping_def)
  have r: "Stop_returns (input_run (stopping (il_conns l)) l)" "il_accepted (input_run (stopping (il_conns l)) l) = il_accepted l"
    using stop_returns_in [OF ok(1) assms(3,5,4,6) sh] by blast+
  then have "il_conns (input_run (stopping (il_conns l)) l) = []" by (simp add: Stop_returns_def)
  with ok(2) r n show ?thesis unfolding Let_def conns_ok_def by simp
qed

theorem stopped_listener_closes_everything_witness:
  "\<exists>l0. Listener_Start True True = Inr l0 \<and>
     Stop_returns (input_run [ITcp LCloser, ITcp LError, IUdp LCloser, IUdp LError, ICloser 1, IHandled 1]
       (input_run ([IAccept, IAccept, IHandled 0] @ [IStop]) l0))"
proof -
  obtain l0 where l0: "Listener_Start True True = Inr l0" by (simp add: Listener_Start_def)
  let ?l = "input_run ([IAccept, IAccept, IHandled 0] @ [IStop]) l0"
  have l: "l_sock (il_tcp ?l) = 0" "l_state (il_tcp ?l) = Consuming" "l_sock (il_udp ?l) = 0" "l_state (il_udp ?l) = Consuming"
    "il_conns ?l = [1]"
    using l0 by (auto simp: Listener_Start_def input_step_def listener_step_def listener_run_def)
  from stopped_listener_closes_everything [OF l0 refl l(1-4)] l0 show ?thesis
    unfolding l(5) Let_def by (auto simp: stopping_def simp del: input_run_simps)
qed

end
