(* ===== verification/Cfg_Table.thy ===== *)
theory Cfg_Table
  imports Cmd_Correct Go_Duration
begin

text \<open>
  \<^verbatim>\<open>cfg/cfg.go\<close> and \<^verbatim>\<open>cfg/table.go\<close>: the configuration file, as the records the TOML library decodes it
  into, and the initialisation of the table from it.

  \<^item> \<open>toml_meta\<close> is the part of the library's metadata that the code reads: the values under each top-level
    key as written in the file, where a table is the list of its keys and values in the order in which Go goes
    through the map. Keys are ASCII for \<open>strings.ToLower\<close>.
  \<^item> A result is like that of a command: a table and an error, a panic, or \<open>Ok None\<close> when the
    initialisation does not return. Whether the AWS client can be configured for a profile and a
    region is \<open>cg_aws\<close>.
  \<^item> \<open>Config\<close> holds the fields that the table depends on; the addresses, the AMQP and the process
    settings are left to the inputs and the main program.
\<close>

subsection \<open>The configuration\<close>

record AggregationConfig =
  ac_Function :: bytes
  ac_Regex :: bytes
  ac_NotRegex :: bytes
  ac_Prefix :: bytes
  ac_NotPrefix :: bytes
  ac_Substr :: bytes
  ac_Sub :: bytes
  ac_NotSub :: bytes
  ac_Format :: bytes
  ac_Cache :: bool
  ac_Interval :: int
  ac_Wait :: int
  ac_DropRaw :: bool

record RouteConfig =
  rc_Key :: bytes
  rc_Type :: bytes
  rc_Prefix :: bytes
  rc_NotPrefix :: bytes
  rc_Substr :: bytes
  rc_Sub :: bytes
  rc_NotSub :: bytes
  rc_Regex :: bytes
  rc_NotRegex :: bytes
  rc_Destinations :: "bytes list"
  rc_SchemasFile :: bytes
  rc_OrgId :: int
  rc_BufSize :: int
  rc_FlushMaxNum :: int
  rc_FlushMaxWait :: int
  rc_Timeout :: int
  rc_Blocking :: bool
  rc_Addr :: bytes
  rc_AggregationFile :: bytes
  rc_ApiKey :: bytes
  rc_Concurrency :: int
  rc_ErrBackoffMin :: int
  rc_ErrBackoffFactor :: real
  rc_Brokers :: "bytes list"
  rc_Topic :: bytes
  rc_Codec :: bytes
  rc_PartitionBy :: bytes
  rc_TLSEnabled :: bool
  rc_TLSSkipVerify :: bool
  rc_TLSClientCert :: bytes
  rc_TLSClientKey :: bytes
  rc_SASLEnabled :: bool
  rc_SASLMechanism :: bytes
  rc_SASLUsername :: bytes
  rc_SASLPassword :: bytes
  rc_Project :: bytes
  rc_Format :: bytes
  rc_FlushMaxSize :: int
  rc_Profile :: bytes
  rc_Region :: bytes
  rc_Namespace :: bytes
  rc_Dimensions :: "bytes list list"
  rc_StorageResolution :: int

text \<open>The zero values, which the TOML library leaves where an entry gives none.\<close>

definition zero_route :: RouteConfig where
  "zero_route =
     \<lparr>rc_Key = [], rc_Type = [], rc_Prefix = [], rc_NotPrefix = [], rc_Substr = [], rc_Sub = [],
      rc_NotSub = [], rc_Regex = [], rc_NotRegex = [], rc_Destinations = [], rc_SchemasFile = [], rc_OrgId = 0,
      rc_BufSize = 0, rc_FlushMaxNum = 0, rc_FlushMaxWait = 0, rc_Timeout = 0, rc_Blocking = False,
      rc_Addr = [], rc_AggregationFile = [], rc_ApiKey = [], rc_Concurrency = 0, rc_ErrBackoffMin = 0,
      rc_ErrBackoffFactor = 0, rc_Brokers = [], rc_Topic = [], rc_Codec = [], rc_PartitionBy = [],
      rc_TLSEnabled = False, rc_TLSSkipVerify = False, rc_TLSClientCert = [], rc_TLSClientKey = [],
      rc_SASLEnabled = False, rc_SASLMechanism = [], rc_SASLUsername = [], rc_SASLPassword = [],
      rc_Project = [], rc_Format = [], rc_FlushMaxSize = 0, rc_Profile = [], rc_Region = [], rc_Namespace = [],
      rc_Dimensions = [], rc_StorageResolution = 0\<rparr>"

record RewriterConfig =
  wc_Old :: bytes
  wc_New :: bytes
  wc_Not :: bytes
  wc_Max :: int

record Config =
  cf_Plain_read_timeout :: int
  cf_Pickle_read_timeout :: int
  cf_Spool_dir :: bytes
  cf_Cmds :: "bytes list"
  cf_Bad_metrics_max_age :: bytes
  cf_Validation_level_legacy :: level_legacy
  cf_Validation_level_m20 :: level_m20
  cf_Validate_order :: bool
  cf_BlackList :: "bytes list"
  cf_BlockList :: "bytes list"
  cf_Aggregation :: "AggregationConfig list"
  cf_Route :: "RouteConfig list"
  cf_Rewriter :: "RewriterConfig list"

definition NewConfig :: Config where
  "NewConfig =
     \<lparr>cf_Plain_read_timeout = 120000000000, cf_Pickle_read_timeout = 120000000000, cf_Spool_dir = [], cf_Cmds = [],
      cf_Bad_metrics_max_age = [], cf_Validation_level_legacy = MediumLegacy, cf_Validation_level_m20 = MediumM20,
      cf_Validate_order = False, cf_BlackList = [], cf_BlockList = [], cf_Aggregation = [], cf_Route = [],
      cf_Rewriter = []\<rparr>"

text \<open>\<open>UnmarshalText\<close> of a duration, and the configuration of the table.\<close>

definition duration_UnmarshalText :: "bytes \<Rightarrow> duration_error + int" where
  "duration_UnmarshalText txt = ParseDuration txt"

definition Config_TableConfig :: "Config \<Rightarrow> 'r TableConfig option" where
  "Config_TableConfig c =
     NewTableConfig (cf_Spool_dir c)
       (case ParseDuration (cf_Bad_metrics_max_age c) of Inl _ \<Rightarrow> None | Inr d \<Rightarrow> Some d)
       (cf_Validation_level_legacy c) (cf_Validation_level_m20 c) (cf_Validate_order c)"

datatype toml_value = TomlBool bool | TomlString bytes | TomlTables "(bytes \<times> toml_value) list list" | TomlOther

type_synonym toml_meta = "bytes \<Rightarrow> toml_value option"

datatype cfg_error =
    CmdFailed nat | InvalidBlocklist nat | InvalidBlocklistMethod nat bytes | BlocklistFailed nat
  | MatcherFailed regexp_error | AggregationFailed nat | RewriterFailed nat
  | DestinationsFailed bytes | TooFewDestinations nat bytes | RouteFailed bytes | PartitionerFailed bytes
  | UnrecognizedRoute bytes

record cfg_env =
  cg_cmd :: cmd_env
  cg_aws :: "bytes \<Rightarrow> bytes \<Rightarrow> bool"

type_synonym cfg_result = "cfg_error result_of"

subsection \<open>Going through the entries\<close>

definition then_init :: "'e result_of \<Rightarrow> (tbl \<Rightarrow> 'e result_of) \<Rightarrow> 'e result_of" where
  "then_init r f = (case r of Ok (Some (t, None)) \<Rightarrow> f t | _ \<Rightarrow> r)"

fun init_each :: "(nat \<Rightarrow> 'a \<Rightarrow> tbl \<Rightarrow> 'e result_of) \<Rightarrow> nat \<Rightarrow> 'a list \<Rightarrow> tbl \<Rightarrow> 'e result_of" where
  "init_each step i [] t = cmd_done t"
| "init_each step i (x # xs) t = then_init (step i x t) (init_each step (Suc i) xs)"

definition cfg_matcher :: "match_opts \<Rightarrow> cfg_error + Matcher" where
  "cfg_matcher m = (case new_matcher m of (_, Some e) \<Rightarrow> Inl (MatcherFailed e) | (mt, None) \<Rightarrow> Inr mt)"

text \<open>For backwards compatibility both \<open>sub\<close> and \<open>substr\<close> are read; \<open>sub\<close> is preferred.\<close>

definition sub_or_substr :: "bytes \<Rightarrow> bytes \<Rightarrow> bytes" where
  "sub_or_substr sub substr = (if 0 < length sub then sub else substr)"

definition int_or :: "int \<Rightarrow> int \<Rightarrow> int" where
  "int_or i d = (if i \<noteq> 0 then i else d)"

definition bytes_or :: "bytes \<Rightarrow> bytes \<Rightarrow> bytes" where
  "bytes_or s d = (if s \<noteq> [] then s else d)"

subsection \<open>Commands, blocklist, aggregations, rewriters\<close>

definition init_cmd :: "cfg_env \<Rightarrow> nat \<Rightarrow> bytes \<Rightarrow> tbl \<Rightarrow> cfg_result" where
  "init_cmd env i cmd t =
     (case Apply (cg_cmd env) cmd t of
        Panic p \<Rightarrow> Panic p
      | Ok None \<Rightarrow> Ok None
      | Ok (Some (t', None)) \<Rightarrow> cmd_done t'
      | Ok (Some (t', Some _)) \<Rightarrow> cmd_fail (CmdFailed (Suc i)) t')"

definition InitCmd :: "cfg_env \<Rightarrow> Config \<Rightarrow> tbl \<Rightarrow> cfg_result" where
  "InitCmd env c t = init_each (init_cmd env) 0 (cf_Cmds c) t"

definition init_block :: "nat \<Rightarrow> bytes \<Rightarrow> tbl \<Rightarrow> cfg_result" where
  "init_block i entry t =
     (let parts = split_n entry '' '' 2
      in if length parts < 2 then cmd_fail (InvalidBlocklist (Suc i)) t
         else case block_opts (parts ! 0) (parts ! 1) of
                None \<Rightarrow> cmd_fail (InvalidBlocklistMethod (Suc i) (parts ! 1)) t
              | Some m \<Rightarrow>
                  (case new_matcher m of
                     (_, Some _) \<Rightarrow> cmd_fail (BlocklistFailed (Suc i)) t
                   | (mt, None) \<Rightarrow> cmd_done (tbl_AddBlocklist mt t)))"

definition InitBlocklist :: "Config \<Rightarrow> tbl \<Rightarrow> cfg_result" where
  "InitBlocklist c t = init_each init_block 0 (cf_BlockList c @ cf_BlackList c) t"

definition agg_match_opts :: "AggregationConfig \<Rightarrow> match_opts" where
  "agg_match_opts a =
     \<lparr>mo_prefix = ac_Prefix a, mo_notPrefix = ac_NotPrefix a, mo_sub = sub_or_substr (ac_Sub a) (ac_Substr a),
      mo_notSub = ac_NotSub a, mo_regex = ac_Regex a, mo_notRegex = ac_NotRegex a\<rparr>"

definition init_agg :: "cfg_env \<Rightarrow> nat \<Rightarrow> AggregationConfig \<Rightarrow> tbl \<Rightarrow> cfg_result" where
  "init_agg env i a t =
     with_arg (cfg_matcher (agg_match_opts a)) t (\<lambda>mt.
     with_call (agg_New (ac_Function a) mt (ac_Format a) (ac_Cache a) (word_of_int (ac_Interval a))
                  (word_of_int (ac_Wait a)) (ac_DropRaw a) (ce_now (cg_cmd env))) (\<lambda>_. AggregationFailed (Suc i)) t (\<lambda>agg.
     cmd_done (tbl_AddAggregator agg t)))"

definition InitAggregation :: "cfg_env \<Rightarrow> Config \<Rightarrow> tbl \<Rightarrow> cfg_result" where
  "InitAggregation env c t = init_each (init_agg env) 0 (cf_Aggregation c) t"

definition init_rewriter :: "nat \<Rightarrow> RewriterConfig \<Rightarrow> tbl \<Rightarrow> cfg_result" where
  "init_rewriter i w t =
     (case rewriter_New (wc_Old w) (wc_New w) (wc_Not w) (wc_Max w) of
        Inl _ \<Rightarrow> cmd_fail (RewriterFailed (Suc i)) t
      | Inr rw \<Rightarrow> cmd_done (tbl_AddRewriter rw t))"

definition InitRewrite :: "Config \<Rightarrow> tbl \<Rightarrow> cfg_result" where
  "InitRewrite c t = init_each init_rewriter 0 (cf_Rewriter c) t"

subsection \<open>Routes\<close>

definition route_match_opts :: "RouteConfig \<Rightarrow> match_opts" where
  "route_match_opts r =
     \<lparr>mo_prefix = rc_Prefix r, mo_notPrefix = rc_NotPrefix r, mo_sub = sub_or_substr (rc_Sub r) (rc_Substr r),
      mo_notSub = rc_NotSub r, mo_regex = rc_Regex r, mo_notRegex = rc_NotRegex r\<rparr>"

text \<open>A carbon route: its destinations, of which there must be a least number, and its constructor.\<close>

definition init_carbon ::
  "cfg_env \<Rightarrow> RouteConfig \<Rightarrow> bool \<Rightarrow> nat \<Rightarrow> (Destination list \<Rightarrow> Route option outcome) \<Rightarrow> tbl \<Rightarrow> cfg_result" where
  "init_carbon env r allowMatcher least constructor t =
     (case ParseDestinations (ce_scan (cg_cmd env)) (t_SpoolDir t) allowMatcher (rc_Key r) (rc_Destinations r) of
        Inl _ \<Rightarrow> cmd_fail (DestinationsFailed (rc_Key r)) t
      | Inr ds \<Rightarrow>
          if length ds < least then cmd_fail (TooFewDestinations least (rc_Key r)) t
          else add_carbon (constructor ds) t)"

text \<open>The options of a grafanaNet route that are looked up in the metadata, because false can not be told from
  unset in the record.\<close>

definition lower :: "bytes \<Rightarrow> bytes" where
  "lower = map (\<lambda>c. if 65 \<le> (of_char c :: nat) \<and> (of_char c :: nat) \<le> 90 then char_of ((of_char c :: nat) + 32) else c)"

definition as_bool :: "toml_value \<Rightarrow> bool outcome" where
  "as_bool v = (case v of TomlBool b \<Rightarrow> Ok b | _ \<Rightarrow> Panic TypeAssertion)"

definition meta_option :: "bytes \<times> toml_value \<Rightarrow> GrafanaNetConfig \<Rightarrow> GrafanaNetConfig outcome" where
  "meta_option kv cfg =
     (let k = lower (fst kv); v = snd kv
      in if k = ''sslverify'' then bind_outcome (as_bool v) (\<lambda>b. Ok (cfg\<lparr>SSLVerify := b\<rparr>))
         else if k = ''spool'' then bind_outcome (as_bool v) (\<lambda>b. Ok (cfg\<lparr>gc_Spool := b\<rparr>))
         else if k = ''blocking'' then bind_outcome (as_bool v) (\<lambda>b. Ok (cfg\<lparr>Blocking := b\<rparr>))
         else Ok cfg)"

fun fold_outcome :: "('a \<Rightarrow> 's \<Rightarrow> 's outcome) \<Rightarrow> 'a list \<Rightarrow> 's \<Rightarrow> 's outcome" where
  "fold_outcome f [] s = Ok s"
| "fold_outcome f (x # xs) s = bind_outcome (f x s) (fold_outcome f xs)"

definition meta_table :: "bytes \<Rightarrow> (bytes \<times> toml_value) list \<Rightarrow> GrafanaNetConfig \<Rightarrow> GrafanaNetConfig outcome" where
  "meta_table key tab =
     fold_outcome (\<lambda>(k, v) cfg.
       if lower k = ''key'' \<and> v = TomlString key then fold_outcome meta_option tab cfg else Ok cfg) tab"

definition meta_options :: "toml_meta \<Rightarrow> bytes \<Rightarrow> GrafanaNetConfig \<Rightarrow> GrafanaNetConfig outcome" where
  "meta_options meta key cfg =
     (case meta ''route'' of
        Some (TomlTables tabs) \<Rightarrow> fold_outcome (meta_table key) tabs cfg
      | _ \<Rightarrow> Panic TypeAssertion)"

definition grafana_overrides :: "RouteConfig \<Rightarrow> GrafanaNetConfig \<Rightarrow> GrafanaNetConfig" where
  "grafana_overrides r cfg =
     cfg\<lparr>BufSize := int_or (rc_BufSize r) (BufSize cfg), FlushMaxNum := int_or (rc_FlushMaxNum r) (FlushMaxNum cfg),
         FlushMaxWait := (if rc_FlushMaxWait r \<noteq> 0 then wrap64 (rc_FlushMaxWait r * 1000000) else FlushMaxWait cfg),
         Timeout := (if rc_Timeout r \<noteq> 0 then wrap64 (1000000 * rc_Timeout r) else Timeout cfg),
         Concurrency := int_or (rc_Concurrency r) (Concurrency cfg), OrgID := int_or (rc_OrgId r) (OrgID cfg),
         ErrBackoffMin := (if rc_ErrBackoffMin r \<noteq> 0 then wrap64 (1000000 * rc_ErrBackoffMin r) else ErrBackoffMin cfg),
         ErrBackoffFactor := (if rc_ErrBackoffFactor r \<noteq> 0 then rc_ErrBackoffFactor r else ErrBackoffFactor cfg)\<rparr>"

definition init_grafana :: "cfg_env \<Rightarrow> toml_meta \<Rightarrow> RouteConfig \<Rightarrow> Matcher \<Rightarrow> tbl \<Rightarrow> cfg_result" where
  "init_grafana env meta r mt t =
     with_call (NewGrafanaNetConfig (ce_files (cg_cmd env)) (rc_Addr r) (rc_ApiKey r) (rc_SchemasFile r) (rc_AggregationFile r))
         (\<lambda>_. RouteFailed (rc_Key r)) t (\<lambda>cfg0.
     case meta_options meta (rc_Key r) cfg0 of
       Panic p \<Rightarrow> Panic p
     | Ok cfg \<Rightarrow>
         with_call (NewGrafanaNet (ce_files (cg_cmd env)) (rc_Key r) mt (grafana_overrides r cfg))
             (\<lambda>_. RouteFailed (rc_Key r)) t (\<lambda>g.
         cmd_done (tbl_AddRoute (Grafana g) t)))"

definition kafka_of_config :: "RouteConfig \<Rightarrow> Matcher \<Rightarrow> KafkaArgs" where
  "kafka_of_config r mt =
     \<lparr>ka_key = rc_Key r, ka_matcher = mt, ka_topic = rc_Topic r, ka_codec = rc_Codec r, ka_schemasFile = rc_SchemasFile r,
      ka_partitionBy = rc_PartitionBy r, ka_brokers = rc_Brokers r, ka_bufSize = int_or (rc_BufSize r) 10000000,
      ka_orgId = int_or (rc_OrgId r) 1, ka_flushMaxNum = int_or (rc_FlushMaxNum r) 10000,
      ka_flushMaxWait = int_or (rc_FlushMaxWait r) 500, ka_timeout = int_or (rc_Timeout r) 2000,
      ka_blocking = rc_Blocking r, ka_tlsEnabled = rc_TLSEnabled r, ka_tlsSkipVerify = rc_TLSSkipVerify r,
      ka_tlsClientCert = rc_TLSClientCert r, ka_tlsClientKey = rc_TLSClientKey r, ka_saslEnabled = rc_SASLEnabled r,
      ka_saslMechanism = rc_SASLMechanism r, ka_saslUsername = rc_SASLUsername r, ka_saslPassword = rc_SASLPassword r\<rparr>"

definition init_kafka :: "cfg_env \<Rightarrow> RouteConfig \<Rightarrow> Matcher \<Rightarrow> tbl \<Rightarrow> cfg_result" where
  "init_kafka env r mt t =
     (if \<not> partitioner_ok (ce_kafka (cg_cmd env)) (rc_PartitionBy r) then cmd_fail (PartitionerFailed (rc_Key r)) t
      else with_call (NewKafkaMdm (ce_kafka (cg_cmd env)) (kafka_of_config r mt)) (\<lambda>_. RouteFailed (rc_Key r)) t (\<lambda>k.
             cmd_done (tbl_AddRoute (Kafka k) t)))"

definition pubsub_of_config :: "RouteConfig \<Rightarrow> Matcher \<Rightarrow> PubSubArgs" where
  "pubsub_of_config r mt =
     \<lparr>pa_key = rc_Key r, pa_matcher = mt, pa_project = rc_Project r, pa_topic = rc_Topic r,
      pa_format = bytes_or (rc_Format r) ''plain'', pa_codec = bytes_or (rc_Codec r) ''gzip'',
      pa_bufSize = int_or (rc_BufSize r) 10000000, pa_flushMaxSize = int_or (rc_FlushMaxSize r) (10000000 - 4096),
      pa_flushMaxWait = int_or (rc_FlushMaxWait r) 1000, pa_blocking = rc_Blocking r\<rparr>"

definition init_pubsub :: "cfg_env \<Rightarrow> RouteConfig \<Rightarrow> Matcher \<Rightarrow> tbl \<Rightarrow> cfg_result" where
  "init_pubsub env r mt t =
     (case NewPubSub (ce_pubsub (cg_cmd env)) (pubsub_of_config r mt) of
        Panic p \<Rightarrow> Panic p
      | Ok p \<Rightarrow> cmd_done (tbl_AddRoute (Pubsub p) t))"

definition cloudwatch_of_config :: "RouteConfig \<Rightarrow> Matcher \<Rightarrow> CloudWatchArgs" where
  "cloudwatch_of_config r mt =
     \<lparr>wa_key = rc_Key r, wa_matcher = mt, wa_namespace = rc_Namespace r, wa_dimensions = rc_Dimensions r,
      wa_bufSize = int_or (rc_BufSize r) 10000000, wa_flushMaxSize = int_or (rc_FlushMaxSize r) 20,
      wa_flushMaxWait = int_or (rc_FlushMaxWait r) 10000, wa_storageResolution = int_or (rc_StorageResolution r) 60,
      wa_blocking = rc_Blocking r\<rparr>"

definition init_cloudwatch :: "cfg_env \<Rightarrow> RouteConfig \<Rightarrow> Matcher \<Rightarrow> tbl \<Rightarrow> cfg_result" where
  "init_cloudwatch env r mt t =
     with_call (NewCloudWatch (cg_aws env (rc_Profile r) (rc_Region r)) (cloudwatch_of_config r mt))
         (\<lambda>_. RouteFailed (rc_Key r)) t (\<lambda>w.
     cmd_done (tbl_AddRoute (Cloudwatch w) t))"

definition init_route :: "cfg_env \<Rightarrow> toml_meta \<Rightarrow> nat \<Rightarrow> RouteConfig \<Rightarrow> tbl \<Rightarrow> cfg_result" where
  "init_route env meta i r t =
     with_arg (cfg_matcher (route_match_opts r)) t (\<lambda>mt.
       if rc_Type r = ''sendAllMatch''
       then init_carbon env r True 1 (\<lambda>ds. map_outcome Some (NewSendAllMatch (rc_Key r) mt ds)) t
       else if rc_Type r = ''sendFirstMatch''
       then init_carbon env r True 1 (\<lambda>ds. map_outcome Some (NewSendFirstMatch (rc_Key r) mt ds)) t
       else if rc_Type r = ''consistentHashing'' \<or> rc_Type r = ''consistentHashing-v2''
       then init_carbon env r False 2
              (\<lambda>ds. NewConsistentHashing (rc_Key r) mt ds (rc_Type r = ''consistentHashing-v2'')) t
       else if rc_Type r = ''grafanaNet'' then init_grafana env meta r mt t
       else if rc_Type r = ''kafkaMdm'' then init_kafka env r mt t
       else if rc_Type r = ''pubsub'' then init_pubsub env r mt t
       else if rc_Type r = ''cloudWatch'' then init_cloudwatch env r mt t
       else cmd_fail (UnrecognizedRoute (rc_Type r)) t)"

definition InitRoutes :: "cfg_env \<Rightarrow> toml_meta \<Rightarrow> Config \<Rightarrow> tbl \<Rightarrow> cfg_result" where
  "InitRoutes env meta c t = init_each (init_route env meta) 0 (cf_Route c) t"

definition InitTable :: "cfg_env \<Rightarrow> toml_meta \<Rightarrow> Config \<Rightarrow> tbl \<Rightarrow> cfg_result" where
  "InitTable env meta c t =
     then_init (InitCmd env c t) (\<lambda>t1.
     then_init (InitBlocklist c t1) (\<lambda>t2.
     then_init (InitAggregation env c t2) (\<lambda>t3.
     then_init (InitRewrite c t3) (InitRoutes env meta c))))"

end
