(* ===== verification/Cfg_Correct.thy ===== *)
theory Cfg_Correct
  imports Cfg_Table
begin

text \<open>
  Correctness of the initialisation of the table: it loads the sections of the configuration file in their
  order, and within a section the entries in theirs, and stops at the first that fails. \<open>loads\<close> is what
  the loop over a section does, given what each entry may add.
\<close>

lemma post_then:
  "(\<And>t e. r = Ok (Some (t, Some e)) \<Longrightarrow> P t (Some e)) \<Longrightarrow> (\<And>t. r = Ok (Some (t, None)) \<Longrightarrow> post P (f t)) \<Longrightarrow>
     post P (then_init r f)"
  by (auto simp: post_def then_init_def split: outcome.splits option.splits)

definition loads :: "(tbl \<Rightarrow> 'b \<Rightarrow> tbl) \<Rightarrow> ('a \<Rightarrow> 'b \<Rightarrow> bool) \<Rightarrow> 'a list \<Rightarrow> tbl \<Rightarrow> tbl \<Rightarrow> 'e option \<Rightarrow> bool" where
  "loads add ok xs t t' e \<longleftrightarrow>
     (\<exists>ys. t' = foldl add t ys \<and> length ys \<le> length xs \<and> (e = None \<longleftrightarrow> length ys = length xs) \<and>
        list_all2 ok (take (length ys) xs) ys)"

lemma init_each_loads:
  assumes "\<And>i x t. post (adds add (ok x) t) (step i x t)"
  shows "post (loads add ok xs t) (init_each step i xs t)"
proof (induction xs arbitrary: i t)
  case Nil
  show ?case by (auto intro!: post_done simp: loads_def)
next
  case (Cons x xs)
  show ?case
    unfolding init_each.simps
  proof (rule post_then)
    fix t1 e assume "step i x t = Ok (Some (t1, Some e))"
    then have "t1 = t" using assms [of x t i] by (simp add: post_def adds_def)
    then show "loads add ok (x # xs) t t1 (Some e)" by (auto simp: loads_def intro!: exI [of _ "[]"])
  next
    fix t1 assume "step i x t = Ok (Some (t1, None))"
    then obtain y where y: "ok x y" "t1 = add t y" using assms [of x t i] by (auto simp: post_def adds_def)
    have "loads add ok (x # xs) t t' e" if "loads add ok xs t1 t' e" for t' and e :: "'d option"
    proof -
      from that obtain ys where "t' = foldl add t1 ys" "length ys \<le> length xs" "e = None \<longleftrightarrow> length ys = length xs"
        "list_all2 ok (take (length ys) xs) ys"
        unfolding loads_def by blast
      with y show ?thesis unfolding loads_def by (intro exI [of _ "y # ys"]) simp
    qed
    then show "post (loads add ok (x # xs) t) (init_each step (Suc i) xs t1)"
      using Cons.IH [of t1 "Suc i"] by (auto simp: post_def)
  qed
qed

lemma foldl_adds:
  "foldl (\<lambda>t m. tbl_AddBlocklist m t) t bs = t\<lparr>t_config := (t_config t)\<lparr>blocklist := blocklist (t_config t) @ bs\<rparr>\<rparr>"
  "foldl (\<lambda>t a. tbl_AddAggregator a t) t as = t\<lparr>t_config := (t_config t)\<lparr>aggregators := aggregators (t_config t) @ as\<rparr>\<rparr>"
  "foldl (\<lambda>t w. tbl_AddRewriter w t) t ws = t\<lparr>t_config := (t_config t)\<lparr>rewriters := rewriters (t_config t) @ ws\<rparr>\<rparr>"
  "foldl (\<lambda>t r. tbl_AddRoute r t) t rs = t\<lparr>t_config := (t_config t)\<lparr>routes := routes (t_config t) @ rs\<rparr>\<rparr>"
  by (induction bs arbitrary: t, simp_all add: tbl_AddBlocklist_def)
    (induction as arbitrary: t, simp_all add: tbl_AddAggregator_def,
     induction ws arbitrary: t, simp_all add: tbl_AddRewriter_def,
     induction rs arbitrary: t, simp_all add: tbl_AddRoute_def)

subsection \<open>What an entry adds\<close>

definition block_of_entry :: "bytes \<Rightarrow> Matcher \<Rightarrow> bool" where
  "block_of_entry entry m \<longleftrightarrow>
     (\<exists>meth v o'. entry = meth @ '' '' @ v \<and> CHR '' '' \<notin> set meth \<and> block_opts meth v = Some o' \<and> new_matcher o' = (m, None))"

definition agg_of_entry :: "AggregationConfig \<Rightarrow> Aggregator \<Rightarrow> bool" where
  "agg_of_entry c a \<longleftrightarrow>
     new_matcher (agg_match_opts c) = (a_Matcher a, None) \<and> Fun a = ac_Function c \<and> outFmt a = ac_Format c \<and>
     Interval a = word_of_int (ac_Interval c) \<and> Wait a = word_of_int (ac_Wait c) \<and> DropRaw a = ac_DropRaw c \<and>
     (reCache a \<noteq> None \<longleftrightarrow> ac_Cache c) \<and> (ac_Regex c \<noteq> [] \<longrightarrow> agg_inv a)"

definition rewriter_of_entry :: "RewriterConfig \<Rightarrow> RW \<Rightarrow> bool" where
  "rewriter_of_entry c rw \<longleftrightarrow> rewriter_New (wc_Old c) (wc_New c) (wc_Not c) (wc_Max c) = Inr rw"

definition route_of_entry :: "RouteConfig \<Rightarrow> relay_route \<Rightarrow> bool" where
  "route_of_entry c r \<longleftrightarrow>
     relay_Key r = rc_Key c \<and> new_route_ok r \<and>
     (\<exists>mt. new_matcher (route_match_opts c) = (mt, None) \<and> (\<forall>s. relay_Match s r = Match mt s))"

lemma cut_at_space: "cut_at '' '' s = Some (a, b) \<Longrightarrow> s = a @ '' '' @ b \<and> CHR '' '' \<notin> set a"
proof (induction s arbitrary: a b)
  case (Cons c cs)
  show ?case
  proof (cases "c = CHR '' ''")
    case False
    with Cons.prems obtain a' where "a = c # a'" "cut_at '' '' cs = Some (a', b)" by auto
    moreover have "cs = a' @ '' '' @ b \<and> CHR '' '' \<notin> set a'" by (rule Cons.IH) (rule calculation(2))
    ultimately show ?thesis using False by simp
  qed (use Cons.prems in simp)
qed simp

lemma split_two:
  assumes "2 \<le> length (split_n entry '' '' 2)"
  obtains a b where "split_n entry '' '' 2 = [a, b]" "entry = a @ '' '' @ b" "CHR '' '' \<notin> set a"
proof (cases "cut_at '' '' entry")
  case None
  then show ?thesis using assms by (simp add: split_n.simps [of entry "'' ''" 2])
next
  case (Some ab)
  then obtain a b where "cut_at '' '' entry = Some (a, b)" by (cases ab) auto
  moreover from this have "split_n entry '' '' 2 = [a, b]"
    by (simp add: split_n.simps [of entry "'' ''" 2] split_n.simps [of b "'' ''" 1])
  ultimately show ?thesis using that [of a b] cut_at_space [of entry a b] by blast
qed

lemma init_block_adds: "post (adds (\<lambda>t m. tbl_AddBlocklist m t) (block_of_entry entry) t) (init_block i entry t)"
proof (cases "2 \<le> length (split_n entry '' '' 2)")
  case False
  then show ?thesis by (auto simp: init_block_def Let_def intro!: cmd_rules)
next
  case True
  then obtain a b where s: "split_n entry '' '' 2 = [a, b]" "entry = a @ '' '' @ b" "CHR '' '' \<notin> set a"
    by (rule split_two)
  have "block_of_entry entry m" if "block_opts a b = Some o'" "new_matcher o' = (m, None)" for o' m
    using that s(2,3) unfolding block_of_entry_def by blast
  then show ?thesis
    by (auto simp: init_block_def Let_def s(1) intro!: cmd_rules adds_component split: option.splits prod.splits)
qed

lemma cfg_matcher_Inr: "cfg_matcher m = Inr mt \<longleftrightarrow> new_matcher m = (mt, None)"
  by (auto simp: cfg_matcher_def split: prod.splits option.splits)

lemma matcher_of_Inr: "matcher_of m = Inr mt \<longleftrightarrow> new_matcher m = (mt, None)"
  by (auto simp: matcher_of_def split: prod.splits option.splits)

lemma agg_New_fields:
  "agg_New f m fmt cache interval wait dropRaw now = Ok (Inr a) \<Longrightarrow>
     a_Matcher a = m \<and> Fun a = f \<and> outFmt a = fmt \<and> Interval a = interval \<and> Wait a = wait \<and> DropRaw a = dropRaw \<and>
     (reCache a \<noteq> None \<longleftrightarrow> cache)"
  by (auto simp: agg_New_def NewMocked_def split: outcome.splits sum.splits if_splits)

lemma init_agg_adds: "post (adds (\<lambda>t a. tbl_AddAggregator a t) (agg_of_entry c) t) (init_agg env i c t)"
proof -
  have "agg_of_entry c a"
    if "cfg_matcher (agg_match_opts c) = Inr mt"
      "agg_New (ac_Function c) mt (ac_Format c) (ac_Cache c) (word_of_int (ac_Interval c)) (word_of_int (ac_Wait c))
        (ac_DropRaw c) now = Ok (Inr a)" for mt now a
  proof -
    have "agg_inv a" if "ac_Regex c \<noteq> []"
      by (rule agg_of_command [of "agg_match_opts c" mt])
        (use \<open>cfg_matcher _ = _\<close> \<open>agg_New _ _ _ _ _ _ _ _ = _\<close> that in
          \<open>simp_all add: cfg_matcher_Inr matcher_of_Inr\<close>, simp add: agg_match_opts_def)
    with that agg_New_fields [OF that(2)] show ?thesis by (simp add: agg_of_entry_def cfg_matcher_Inr)
  qed
  then show ?thesis unfolding init_agg_def by (auto intro!: cmd_rules adds_component)
qed

lemma init_rewriter_adds:
  "post (adds (\<lambda>t w. tbl_AddRewriter w t) (rewriter_of_entry c) t) (init_rewriter i c t)"
  unfolding init_rewriter_def
  by (auto intro!: cmd_rules adds_component simp: rewriter_of_entry_def split: sum.splits)

lemma rt_Match_eq: "rt_Match s r = Match (rt_Matcher r) s"
  by (simp add: rt_Match_def)

lemma init_carbon_adds:
  assumes "\<And>ds x. constructor ds = Ok (Some x) \<Longrightarrow> least \<le> length ds \<Longrightarrow> route_of_entry c (Carbon (x, []))"
  shows "post (adds (\<lambda>t r. tbl_AddRoute r t) (route_of_entry c) t) (init_carbon env c allow least constructor t)"
  using assms
  by (auto simp: init_carbon_def add_carbon_def intro!: cmd_rules adds_component
      split: sum.splits outcome.splits option.splits)

lemma new_grafana_entry:
  "NewGrafanaNet fenv key m cfg = Ok (Inr g) \<Longrightarrow> gn_key g = key \<and> gn_Matcher g = m"
  by (auto simp: NewGrafanaNet_def split: if_splits)

lemma init_grafana_adds:
  assumes "new_matcher (route_match_opts c) = (mt, None)"
  shows "post (adds (\<lambda>t r. tbl_AddRoute r t) (route_of_entry c) t) (init_grafana env meta c mt t)"
proof -
  have "route_of_entry c (Grafana g)" if "NewGrafanaNet fenv (rc_Key c) mt cfg = Ok (Inr g)" for fenv cfg g
    using that assms new_grafana_entry [OF that] NewGrafanaNet_new [OF that] by (simp add: route_of_entry_def)
  then show ?thesis
    unfolding init_grafana_def by (auto intro!: cmd_rules adds_component split: outcome.splits)
qed

lemma init_kafka_adds:
  assumes "new_matcher (route_match_opts c) = (mt, None)"
  shows "post (adds (\<lambda>t r. tbl_AddRoute r t) (route_of_entry c) t) (init_kafka env c mt t)"
proof -
  have "route_of_entry c (Kafka k)" if "NewKafkaMdm kenv (kafka_of_config c mt) = Ok (Inr k)" for kenv k
    using that assms
    by (auto simp: NewKafkaMdm_def new_route_ok_def fatal_def route_of_entry_def kafka_of_config_def split: if_splits)
  then show ?thesis unfolding init_kafka_def by (auto intro!: cmd_rules adds_component)
qed

lemma init_pubsub_adds:
  assumes "new_matcher (route_match_opts c) = (mt, None)"
  shows "post (adds (\<lambda>t r. tbl_AddRoute r t) (route_of_entry c) t) (init_pubsub env c mt t)"
proof -
  have "route_of_entry c (Pubsub p)" if "NewPubSub penv (pubsub_of_config c mt) = Ok p" for penv p
    using that assms
    by (auto simp: NewPubSub_def new_route_ok_def route_of_entry_def pubsub_of_config_def split: if_splits option.splits)
  then show ?thesis unfolding init_pubsub_def by (auto intro!: cmd_rules adds_component split: outcome.splits)
qed

lemma init_cloudwatch_adds:
  assumes "new_matcher (route_match_opts c) = (mt, None)"
  shows "post (adds (\<lambda>t r. tbl_AddRoute r t) (route_of_entry c) t) (init_cloudwatch env c mt t)"
proof -
  have "route_of_entry c (Cloudwatch w)" if "NewCloudWatch ok (cloudwatch_of_config c mt) = Ok (Inr w)" for ok w
    using that assms
    by (auto simp: NewCloudWatch_def new_route_ok_def route_of_entry_def cloudwatch_of_config_def split: if_splits)
  then show ?thesis unfolding init_cloudwatch_def by (auto intro!: cmd_rules adds_component)
qed

lemma new_carbon_entry:
  "NewSendAllMatch key m ds = Ok r \<Longrightarrow> rt_key r = key \<and> rt_Matcher r = m"
  "NewSendFirstMatch key m ds = Ok r \<Longrightarrow> rt_key r = key \<and> rt_Matcher r = m"
  "NewConsistentHashing key m ds fixd = Ok (Some r) \<Longrightarrow> rt_key r = key \<and> rt_Matcher r = m"
  by (auto simp: NewSendAllMatch_def NewSendFirstMatch_def NewConsistentHashing_def split: outcome.splits option.splits)

lemma init_route_adds: "post (adds (\<lambda>t r. tbl_AddRoute r t) (route_of_entry c) t) (init_route env meta i c t)"
proof -
  have carbon: "route_of_entry c (Carbon (x, []))"
    if "new_matcher (route_match_opts c) = (mt, None)"
      "NewSendAllMatch (rc_Key c) mt ds = Ok x \<or> NewSendFirstMatch (rc_Key c) mt ds = Ok x \<or>
        NewConsistentHashing (rc_Key c) mt ds fixd = Ok (Some x) \<and> 2 \<le> length ds"
    for mt x ds fixd
  proof -
    have "rt_key x = rc_Key c \<and> rt_Matcher x = mt" using that(2) new_carbon_entry by blast
    moreover have "new_route_ok (Carbon (x, []))" using that(2) new_carbon_ready by fastforce
    ultimately show ?thesis using that(1) by (auto simp: route_of_entry_def rt_Match_eq)
  qed
  show ?thesis
    unfolding init_route_def
    by (auto intro!: cmd_rules init_carbon_adds init_grafana_adds init_kafka_adds init_pubsub_adds init_cloudwatch_adds
        simp: cfg_matcher_Inr) (blast intro: carbon)+
qed

subsection \<open>The whole file\<close>

lemma then_initE:
  assumes "then_init r f = Ok (Some (t', e))"
  obtains "r = Ok (Some (t', e))" "e \<noteq> None" | t where "r = Ok (Some (t, None))" "f t = Ok (Some (t', e))"
  using assms by (auto simp: then_init_def split: outcome.splits option.splits)

lemma loadsE:
  assumes "loads add ok xs t t' e"
  obtains ys where "t' = foldl add t ys" "length ys \<le> length xs" "e = None \<longleftrightarrow> length ys = length xs"
    "list_all2 ok (take (length ys) xs) ys"
  using assms unfolding loads_def by blast

lemma sections_load:
  "InitBlocklist c t = Ok (Some (t', e)) \<Longrightarrow>
     loads (\<lambda>t m. tbl_AddBlocklist m t) block_of_entry (cf_BlockList c @ cf_BlackList c) t t' e"
  "InitAggregation env c t = Ok (Some (t', e)) \<Longrightarrow> loads (\<lambda>t a. tbl_AddAggregator a t) agg_of_entry (cf_Aggregation c) t t' e"
  "InitRewrite c t = Ok (Some (t', e)) \<Longrightarrow> loads (\<lambda>t w. tbl_AddRewriter w t) rewriter_of_entry (cf_Rewriter c) t t' e"
  "InitRoutes env meta c t = Ok (Some (t', e)) \<Longrightarrow> loads (\<lambda>t r. tbl_AddRoute r t) route_of_entry (cf_Route c) t t' e"
  using init_each_loads [of "\<lambda>t m. tbl_AddBlocklist m t" block_of_entry init_block, OF init_block_adds]
    init_each_loads [of "\<lambda>t a. tbl_AddAggregator a t" agg_of_entry "init_agg env", OF init_agg_adds]
    init_each_loads [of "\<lambda>t w. tbl_AddRewriter w t" rewriter_of_entry init_rewriter, OF init_rewriter_adds]
    init_each_loads [of "\<lambda>t r. tbl_AddRoute r t" route_of_entry "init_route env meta", OF init_route_adds]
  unfolding InitBlocklist_def InitAggregation_def InitRewrite_def InitRoutes_def post_def by blast+

text \<open>After the commands: the table with what the sections added, and, of an error, that the section it
  occurred in was the last one begun.\<close>

definition file_loaded :: "Config \<Rightarrow> tbl \<Rightarrow> tbl \<Rightarrow> cfg_error option \<Rightarrow> bool" where
  "file_loaded c t t' e \<longleftrightarrow>
     (let blocks = cf_BlockList c @ cf_BlackList c
      in \<exists>bs as ws rs.
        t' = t\<lparr>t_config := (t_config t)\<lparr>blocklist := blocklist (t_config t) @ bs,
            aggregators := aggregators (t_config t) @ as, rewriters := rewriters (t_config t) @ ws,
            routes := routes (t_config t) @ rs\<rparr>\<rparr> \<and>
        list_all2 block_of_entry (take (length bs) blocks) bs \<and>
        list_all2 agg_of_entry (take (length as) (cf_Aggregation c)) as \<and>
        list_all2 rewriter_of_entry (take (length ws) (cf_Rewriter c)) ws \<and>
        list_all2 route_of_entry (take (length rs) (cf_Route c)) rs \<and>
        (as \<noteq> [] \<or> ws \<noteq> [] \<or> rs \<noteq> [] \<longrightarrow> length bs = length blocks) \<and>
        (ws \<noteq> [] \<or> rs \<noteq> [] \<longrightarrow> length as = length (cf_Aggregation c)) \<and>
        (rs \<noteq> [] \<longrightarrow> length ws = length (cf_Rewriter c)) \<and>
        (e = None \<longleftrightarrow> length bs = length blocks \<and> length as = length (cf_Aggregation c) \<and>
           length ws = length (cf_Rewriter c) \<and> length rs = length (cf_Route c)))"

lemma file_loadedI:
  assumes "t' = foldl (\<lambda>t r. tbl_AddRoute r t) (foldl (\<lambda>t w. tbl_AddRewriter w t)
      (foldl (\<lambda>t a. tbl_AddAggregator a t) (foldl (\<lambda>t m. tbl_AddBlocklist m t) t bs) as) ws) rs"
    and "list_all2 block_of_entry (take (length bs) (cf_BlockList c @ cf_BlackList c)) bs"
    and "list_all2 agg_of_entry (take (length as) (cf_Aggregation c)) as"
    and "list_all2 rewriter_of_entry (take (length ws) (cf_Rewriter c)) ws"
    and "list_all2 route_of_entry (take (length rs) (cf_Route c)) rs"
    and "as \<noteq> [] \<or> ws \<noteq> [] \<or> rs \<noteq> [] \<longrightarrow> length bs = length (cf_BlockList c @ cf_BlackList c)"
    and "ws \<noteq> [] \<or> rs \<noteq> [] \<longrightarrow> length as = length (cf_Aggregation c)"
    and "rs \<noteq> [] \<longrightarrow> length ws = length (cf_Rewriter c)"
    and "e = None \<longleftrightarrow> length bs = length (cf_BlockList c @ cf_BlackList c) \<and> length as = length (cf_Aggregation c) \<and>
           length ws = length (cf_Rewriter c) \<and> length rs = length (cf_Route c)"
  shows "file_loaded c t t' e"
  using assms unfolding file_loaded_def Let_def foldl_adds
  by (intro exI [of _ bs] exI [of _ as] exI [of _ ws] exI [of _ rs]) simp

lemma InitTable_file_loaded:
  assumes "InitTable env meta c t = Ok (Some (t', e))" and "InitCmd env c t = Ok (Some (t1, None))"
  shows "file_loaded c t1 t' e"
proof -
  note L = loadsE [OF sections_load(1)] loadsE [OF sections_load(2)] loadsE [OF sections_load(3)] loadsE [OF sections_load(4)]
  have "then_init (InitBlocklist c t1) (\<lambda>t2. then_init (InitAggregation env c t2) (\<lambda>t3.
      then_init (InitRewrite c t3) (InitRoutes env meta c))) = Ok (Some (t', e))"
    using assms by (simp add: InitTable_def then_init_def)
  then show ?thesis
  proof (cases rule: then_initE)
    case 1
    then show ?thesis by (elim L(1)) (rule file_loadedI [where as = "[]" and ws = "[]" and rs = "[]"], auto)
  next
    case (2 t2)
    then obtain bs where bs: "t2 = foldl (\<lambda>t m. tbl_AddBlocklist m t) t1 bs"
      "length bs = length (cf_BlockList c @ cf_BlackList c)"
      "list_all2 block_of_entry (take (length bs) (cf_BlockList c @ cf_BlackList c)) bs"
      by (elim L(1)) blast
    from 2(2) show ?thesis
    proof (cases rule: then_initE)
      case 1
      then show ?thesis using bs by (elim L(2)) (rule file_loadedI [of _ _ bs _ "[]" "[]"], auto)
    next
      case (2 t3)
      then obtain as where as: "t3 = foldl (\<lambda>t a. tbl_AddAggregator a t) t2 as" "length as = length (cf_Aggregation c)"
        "list_all2 agg_of_entry (take (length as) (cf_Aggregation c)) as"
        by (elim L(2)) blast
      from 2(2) show ?thesis
      proof (cases rule: then_initE)
        case 1
        then show ?thesis using bs as by (elim L(3)) (rule file_loadedI [of _ _ bs as _ "[]"], auto)
      next
        case (2 t4)
        then obtain ws where ws: "t4 = foldl (\<lambda>t w. tbl_AddRewriter w t) t3 ws" "length ws = length (cf_Rewriter c)"
          "list_all2 rewriter_of_entry (take (length ws) (cf_Rewriter c)) ws"
          by (elim L(3)) blast
        from 2(2) show ?thesis using bs as ws by (elim L(4)) (rule file_loadedI [of _ _ bs as ws], auto)
      qed
    qed
  qed
qed

subsection \<open>Properties\<close>


definition example_config :: Config where
  "example_config = NewConfig\<lparr>cf_BlackList := [''prefix foo''],
     cf_Route := [zero_route\<lparr>rc_Key := ''cw'', rc_Type := ''cloudWatch''\<rparr>, zero_route\<lparr>rc_Key := ''r'', rc_Type := ''other''\<rparr>]\<rparr>"

definition example_cfg_env :: cfg_env where
  "example_cfg_env = \<lparr>cg_cmd = example_cmd_env, cg_aws = (\<lambda>_ _. True)\<rparr>"

lemma example_block: "init_block i ''prefix foo'' t = cmd_done (tbl_AddBlocklist (prefix_matcher ''foo'') t)"
proof -
  have "split_n ''prefix foo'' '' '' 2 = [''prefix'', ''foo'']" by code_simp
  moreover have "new_matcher (no_match_opts\<lparr>mo_prefix := ''foo''\<rparr>) = (prefix_matcher ''foo'', None)"
    by (simp add: new_matcher_def no_match_opts_def prefix_matcher_def matcher_New_def updateInternals_def)
  ultimately show ?thesis by (simp add: init_block_def block_opts_def)
qed

lemma no_matcher: "cfg_matcher (route_match_opts (zero_route\<lparr>rc_Key := k, rc_Type := ty\<rparr>)) = Inr (prefix_matcher [])"
  by (simp add: cfg_matcher_def new_matcher_def route_match_opts_def zero_route_def sub_or_substr_def prefix_matcher_def
      matcher_New_def updateInternals_def)

lemma example_cloudwatch:
  "\<exists>w. init_route example_cfg_env meta i (zero_route\<lparr>rc_Key := ''cw'', rc_Type := ''cloudWatch''\<rparr>) t =
     cmd_done (tbl_AddRoute (Cloudwatch w) t)"
proof -
  have "0 < millis 10000" by code_simp
  moreover have "wa_bufSize (cloudwatch_of_config (zero_route\<lparr>rc_Key := k, rc_Type := ty\<rparr>) mt) = 10000000"
    "wa_flushMaxWait (cloudwatch_of_config (zero_route\<lparr>rc_Key := k, rc_Type := ty\<rparr>) mt) = 10000" for k ty mt
    by (simp_all add: zero_route_def cloudwatch_of_config_def int_or_def)
  ultimately show ?thesis
    by (simp add: init_route_def no_matcher init_cloudwatch_def NewCloudWatch_def example_cfg_env_def) blast
qed

lemma example_init:
  "\<exists>t'. InitTable example_cfg_env (\<lambda>_. None) example_config (relay_table [] []) = Ok (Some (t', Some (UnrecognizedRoute ''other'')))"
proof -
  obtain w where w: "init_route example_cfg_env (\<lambda>_. None) 0 (zero_route\<lparr>rc_Key := ''cw'', rc_Type := ''cloudWatch''\<rparr>)
      (tbl_AddBlocklist (prefix_matcher ''foo'') (relay_table [] [])) =
      cmd_done (tbl_AddRoute (Cloudwatch w) (tbl_AddBlocklist (prefix_matcher ''foo'') (relay_table [] [])))"
    using example_cloudwatch by blast
  have "init_route example_cfg_env (\<lambda>_. None) i (zero_route\<lparr>rc_Key := ''r'', rc_Type := ''other''\<rparr>) t =
      cmd_fail (UnrecognizedRoute ''other'') t" for i t
    by (simp add: init_route_def no_matcher)
  with w show ?thesis
    by (simp add: InitTable_def InitCmd_def InitBlocklist_def InitAggregation_def InitRewrite_def InitRoutes_def
        example_config_def NewConfig_def then_init_def example_block cmd_done_def cmd_fail_def)
qed


text \<open>An aggregation without a regular expression is accepted, unlike by \<open>addAgg\<close>, which asks for one; the
  aggregator panics on the first line that passes its other conditions.\<close>

theorem aggregation_without_regex_panics:
  assumes "init_agg env i c t = Ok (Some (t', None))" and "ac_Regex c = []"
  shows "\<exists>a. aggregators (t_config t') = aggregators (t_config t) @ [a] \<and>
    (PreMatch (a_Matcher a) (hd buf) \<longrightarrow> agg_run [AddCall buf val ts now, Msg now'] a = Panic NilDereference)"
proof -
  obtain mt a where a: "new_matcher (agg_match_opts c) = (mt, None)" "t' = tbl_AddAggregator a t"
    "NewMocked (ac_Function c) mt (ac_Format c) (ac_Cache c) (word_of_int (ac_Interval c)) (word_of_int (ac_Wait c))
      (ac_DropRaw c) = Inr a"
    using assms(1)
    by (cases "cfg_matcher (agg_match_opts c)")
      (auto simp: init_agg_def cmd_fail_def cmd_done_def cfg_matcher_Inr agg_New_def AlignedTick_diff_def
        split: outcome.splits sum.splits if_splits)
  have "iregex mt = None" "a_Matcher a = mt"
    using a(1,3) assms(2)
    by (auto simp: new_matcher_def agg_match_opts_def matcher_New_def updateInternals_def NewMocked_def Let_def
        split: if_splits sum.splits prod.splits option.splits)
  then show ?thesis using aggregator_without_regex_panics [OF a(3)] a(2) by (simp add: tbl_AddAggregator_def)
qed

text \<open>The metadata is looked up under \<open>route\<close>, although the library takes the section in any case: with
  \<open>[[Route]]\<close> a grafanaNet route panics.\<close>

theorem capitalized_route_section_panics:
  assumes "meta ''route'' = None"
    and "NewGrafanaNetConfig (ce_files (cg_cmd env)) (rc_Addr r) (rc_ApiKey r) (rc_SchemasFile r) (rc_AggregationFile r) =
      Ok (Inr cfg)"
  shows "init_grafana env meta r mt t = Panic TypeAssertion"
  using assms by (simp add: init_grafana_def meta_options_def)

end
