(* ===== verification/Relay_System.thy ===== *)
theory Relay_System
  imports Cfg_Correct Admin_Web Admin_Telnet
begin

text \<open>
  The relay as a whole: a table that is initialised from a configuration file, that commands change, that
  inputs give lines to, whose aggregators and routes run concurrently. \<open>reachable\<close> is the set of the
  tables that any interleaving of these leads to from a file that is loaded without error; its invariant gives that
  no reachable table panics on a line.

  \<^item> A turn of an aggregator's goroutine appends its lines to the channel that the table serves; a turn
    of a route's goroutine changes that route.
  \<^item> Shutdowns of routes happen only through \<open>delRoute\<close>, which takes the route out of the table first.
  \<^item> Commands and requests of the web interface come at any time, so that the clock of their environment is arbitrary.
    Two requests are left out (\<open>sound_request\<close>): the deletion of a single destination can leave a
    consistent hashing route without destinations (\<open>consistent_hashing_dispatches_to_one\<close>), and an aggregator that is
    posted without a regular expression panics (\<open>aggregator_without_regex_panics\<close>).
\<close>

definition relay_ms :: "cmd_env \<Rightarrow> relay_route route_methods" where
  "relay_ms env = relay_methods (ce_dial env) (ce_flush env)"

definition set_agg :: "nat \<Rightarrow> Aggregator \<Rightarrow> tbl \<Rightarrow> tbl" where
  "set_agg i a t =
     t\<lparr>t_config := (t_config t)\<lparr>aggregators := (aggregators (t_config t))[i := a]\<rparr>,
       t_In := t_In t @ drop (length (a_out (aggregators (t_config t) ! i))) (a_out a)\<rparr>"

definition set_route :: "nat \<Rightarrow> relay_route \<Rightarrow> tbl \<Rightarrow> tbl" where
  "set_route i r t = t\<lparr>t_config := (t_config t)\<lparr>routes := (routes (t_config t))[i := r]\<rparr>\<rparr>"

definition sound_request :: "web_request \<Rightarrow> bool" where
  "sound_request req \<longleftrightarrow>
     (case req of
        DeleteDestination key index \<Rightarrow> False
      | PostAggregator (Some b) \<Rightarrow> mo_regex (aq_Match b) \<noteq> []
      | _ \<Rightarrow> True)"

text \<open>A turn of the goroutine of a route.\<close>

inductive route_turn :: "relay_route \<Rightarrow> relay_route \<Rightarrow> bool" where
  grafana: "gn_step valid (Shard i ev) g = Ok g' \<Longrightarrow> route_turn (Grafana g) (Grafana g')"
| kafka: "kafka_step valid part e k = Ok k' \<Longrightarrow> e \<noteq> KClose \<Longrightarrow> route_turn (Kafka k) (Kafka k')"
| pubsub: "pubsub_step gzip encode e p = Ok p' \<Longrightarrow> e \<noteq> PClose \<Longrightarrow> route_turn (Pubsub p) (Pubsub p')"
| cloudwatch: "cw_step e w = Ok w' \<Longrightarrow> e \<noteq> WClose \<Longrightarrow> route_turn (Cloudwatch w) (Cloudwatch w')"

inductive reachable :: "cfg_env \<Rightarrow> toml_meta \<Rightarrow> Config \<Rightarrow> validator \<Rightarrow> tbl \<Rightarrow> bool" for env meta conf vp where
  start: "Config_TableConfig conf = Some tc \<Longrightarrow> InitTable env meta conf (table_New tc ord) = Ok (Some (t, None)) \<Longrightarrow>
    reachable env meta conf vp t"
| command: "reachable env meta conf vp t \<Longrightarrow> Apply ((cg_cmd env)\<lparr>ce_now := now\<rparr>) cmd t = Ok (Some (t', e)) \<Longrightarrow>
    reachable env meta conf vp t'"
| request: "reachable env meta conf vp t \<Longrightarrow> we_cmd wenv = (cg_cmd env)\<lparr>ce_now := now\<rparr> \<Longrightarrow> sound_request req \<Longrightarrow>
    serve wenv req t = Ok (Some (t', reply)) \<Longrightarrow> reachable env meta conf vp t'"
| line: "reachable env meta conf vp t \<Longrightarrow> Dispatch (relay_ms (cg_cmd env)) vp now buf t = Ok t' \<Longrightarrow> reachable env meta conf vp t'"
| invalid: "reachable env meta conf vp t \<Longrightarrow> reachable env meta conf vp (IncNumInvalid t)"
| aggregate: "reachable env meta conf vp t \<Longrightarrow> serve_In (relay_ms (cg_cmd env)) t = Ok t' \<Longrightarrow> reachable env meta conf vp t'"
| agg_turn: "reachable env meta conf vp t \<Longrightarrow> i < length (aggregators (t_config t)) \<Longrightarrow>
    agg_step ev (aggregators (t_config t) ! i) = Ok a \<Longrightarrow> reachable env meta conf vp (set_agg i a t)"
| turn: "reachable env meta conf vp t \<Longrightarrow> i < length (routes (t_config t)) \<Longrightarrow>
    route_turn (routes (t_config t) ! i) r \<Longrightarrow> reachable env meta conf vp (set_route i r t)"

subsection \<open>The invariant\<close>

definition system_inv :: "tbl \<Rightarrow> bool" where
  "system_inv t \<longleftrightarrow> (\<forall>a \<in> set (aggregators (t_config t)). agg_inv a) \<and>
     (\<forall>r \<in> set (routes (t_config t)). new_route_ok r) \<and>
     numInvalid t + numOutOfOrder t + numBlocklist t \<le> t_numIn t"

lemma system_inv_update:
  assumes "system_inv t" "aggregators (t_config t') = aggregators (t_config t)" "routes (t_config t') = routes (t_config t)"
    "numInvalid t' = numInvalid t" "numOutOfOrder t' = numOutOfOrder t" "numBlocklist t' = numBlocklist t"
    "t_numIn t' = t_numIn t"
  shows "system_inv t'"
  using assms by (simp add: system_inv_def)

lemma relay_Dispatch_keeps: "relay_Dispatch buf r = Ok r' \<Longrightarrow> new_route_ok r \<Longrightarrow> new_route_ok r'"
proof (cases r)
  case (Carbon c)
  assume "relay_Dispatch buf r = Ok r'" "new_route_ok r"
  then show ?thesis
    using Carbon by (auto simp: new_route_ok_def carbon_Dispatch_def carbon_ready_def split: outcome.splits)
next
  case (Grafana g)
  assume "relay_Dispatch buf r = Ok r'" "new_route_ok r"
  then show ?thesis
    using Grafana by (auto simp: new_route_ok_def gn_Dispatch_def Let_def split: option.splits if_splits prod.splits)
qed (auto simp: new_route_ok_def km_Dispatch_def ps_Dispatch_def cw_Dispatch_def dispatch_closed split: prod.splits if_splits)

lemma send_to_routes_keeps:
  assumes "send_to_routes (relay_ms env) key buf rs = Ok (rs', routed)" "\<forall>r \<in> set rs. new_route_ok r"
  shows "\<forall>r \<in> set rs'. new_route_ok r"
  using assms
proof (induction rs arbitrary: rs' routed)
  case (Cons r rs)
  then show ?case
    by (fastforce simp: relay_ms_def relay_methods_def dest: relay_Dispatch_keeps split: if_splits outcome.splits)
qed simp

lemma kafka_flush_closed: "kafka_flush part oks k = Ok k' \<Longrightarrow> k_closed k' = k_closed k"
  by (auto simp: kafka_flush_def split: option.splits)

lemma kafka_turn_closed:
  assumes "kafka_turn valid part oks k = Ok k'"
  shows "k_closed k' = k_closed k"
proof (cases "take_msg k")
  case None
  show ?thesis
  proof (cases "k_closed k \<and> k_metrics k \<noteq> []")
    case True
    then obtain k1 where "kafka_flush part oks k = Ok k1" "k' = (if k_stuck k1 then k1 else k1\<lparr>k_running := False\<rparr>)"
      using assms None by (auto simp: kafka_turn_def)
    then show ?thesis using kafka_flush_closed by simp
  next
    case False
    then show ?thesis using assms None by (auto simp: kafka_turn_def split: if_splits)
  qed
next
  case (Some x)
  then obtain buf k0 where t: "take_msg k = Some (buf, k0)" by (cases x) auto
  then have k0: "k_closed k0 = k_closed k" using take_msg_other [OF t] by auto
  let ?k1 = "k0\<lparr>k_numBuffered := k_numBuffered k0 - 1\<rparr>"
  obtain r where r: "parseMetric valid buf (k_schemas ?k1) (k_orgId ?k1) = Ok r"
    using assms t by (auto simp: kafka_turn_def Let_def)
  show ?thesis
  proof (cases r)
    case (Inl e)
    then show ?thesis using assms t r k0 by (auto simp: kafka_turn_def)
  next
    case (Inr md)
    then have "k' = ?k1\<lparr>k_metrics := k_metrics ?k1 @ [md]\<rparr> \<or> kafka_flush part oks (?k1\<lparr>k_metrics := k_metrics ?k1 @ [md]\<rparr>) = Ok k'"
      using assms t r by (simp add: kafka_turn_def Let_def split: if_splits)
    then show ?thesis using k0 kafka_flush_closed by fastforce
  qed
qed

lemma kafka_step_closed:
  assumes "kafka_step valid part e k = Ok k'" "e \<noteq> KClose"
  shows "k_closed k' = k_closed k"
proof (cases e)
  case (KTurn oks)
  then show ?thesis using assms kafka_turn_closed by (auto simp: kafka_step_def split: if_splits)
next
  case (KTick oks)
  then show ?thesis using assms kafka_flush_closed by (auto simp: kafka_step_def split: if_splits)
next
  case (KConnect r)
  then show ?thesis
    using assms
    by (auto simp: kafka_step_def kafka_connect_def fatal_def Let_def split: if_splits option.splits client_result.splits)
qed (use assms in \<open>auto simp: kafka_step_def km_Dispatch_def dispatch_closed split: if_splits prod.splits\<close>)

lemma route_turn_keeps: "route_turn r r' \<Longrightarrow> new_route_ok r \<Longrightarrow> new_route_ok r'"
proof (induction rule: route_turn.induct)
  case (grafana valid i ev g g')
  then show ?case by (auto simp: new_route_ok_def gn_step_def split: if_splits prod.splits)
next
  case (kafka valid part e k k')
  then show ?case using kafka_step_closed [of valid part e k k'] by (simp add: new_route_ok_def)
next
  case (pubsub gzip encode e p p')
  have "p_closed p0 = p_closed p" if "take_msg p = Some (buf, p0)" for buf p0
    using take_msg_other [OF that] by auto
  moreover have "p_closed (pubsub_flush gzip ok q) = p_closed q" for ok q
    by (simp add: pubsub_flush_def publish_def split: option.splits)
  moreover have "p_closed (pubsub_write encode buf q) = p_closed q" for buf q
    by (simp add: pubsub_write_def split: sum.splits)
  ultimately show ?case
    using pubsub
    by (cases e) (auto simp: new_route_ok_def pubsub_step_def ps_Dispatch_def pubsub_turn_def dispatch_closed Let_def
        split: if_splits prod.splits option.splits)
next
  case (cloudwatch e w w')
  have "w_closed w0 = w_closed w" if "take_msg w = Some (buf, w0)" for buf w0
    using take_msg_other [OF that] by auto
  moreover have "w_closed (cw_flush ok v) = w_closed v" for ok v
    by (simp add: cw_flush_def cw_publish_def)
  ultimately show ?case
    using cloudwatch
    by (cases e) (auto simp: new_route_ok_def cw_step_def cw_Dispatch_def cw_turn_def dispatch_closed Let_def
        split: if_splits prod.splits option.splits)
qed

text \<open>What a dispatch does to the configuration and to the counters of bad lines.\<close>

lemma Dispatch_parts:
  assumes "Dispatch ms vp now buf t = Ok t'"
  shows "(aggregators (t_config t') = aggregators (t_config t) \<or>
      (\<exists>fs val ts d. offer_aggregators fs val ts now (aggregators (t_config t)) = Ok (aggregators (t_config t'), d))) \<and>
    (routes (t_config t') = routes (t_config t) \<or>
      (\<exists>k l b. send_to_routes ms k l (routes (t_config t)) = Ok (routes (t_config t'), b))) \<and>
    t_numIn t' = t_numIn t + 1 \<and>
    numInvalid t' + numOutOfOrder t' + numBlocklist t' \<le> numInvalid t + numOutOfOrder t + numBlocklist t + 1"
proof -
  obtain key val ts err where
    v: "vp buf (Validation_level_legacy (t_config t)) (Validation_level_m20 (t_config t)) = (key, val, ts, err)"
    by (metis prod.collapse)
  show ?thesis
  proof (cases err)
    case (Some e)
    then show ?thesis using assms v by (auto simp: Dispatch_def add_bad_def Let_def)
  next
    case None
    obtain ord late where co: "check_order (Validate_order (t_config t)) key ts (t_order t) = (ord, late)"
      by fastforce
    let ?fs = "Go_Strings.fields buf" and ?c = "t_config t"
    show ?thesis
    proof (cases "late \<noteq> None \<or> blocked_by (blocklist ?c) ?fs = Ok True")
      case True
      then show ?thesis
        using assms v None co
        by (cases "late = None") (auto simp: Dispatch_def add_bad_def Let_def simp del: bind_outcome_eq_Ok)
    next
      case False
      then obtain fs as' dropped where fs: "blocked_by (blocklist ?c) ?fs = Ok False"
        "rewrite_fields (rewriters ?c) ?fs = Ok fs" "offer_aggregators fs val ts now (aggregators ?c) = Ok (as', dropped)"
        using assms v None co by (auto simp: Dispatch_def Let_def)
      show ?thesis
      proof (cases dropped)
        case True
        then show ?thesis
          using assms v None co False fs by (auto simp: Dispatch_def Let_def simp del: bind_outcome_eq_Ok)
      next
        case nodrop: False
        then have "\<not> (fs = [] \<and> routes ?c \<noteq> [])"
          using assms v None co False fs
          by (auto simp: Dispatch_def Let_def simp del: bind_outcome_eq_Ok split: if_splits)
        then obtain rs routed where rs: "send_to_routes ms (hd fs) (go_join fs '' '') (routes ?c) = Ok (rs, routed)"
          using assms v None co False fs nodrop
          by (cases "send_to_routes ms (hd fs) (go_join fs '' '') (routes ?c)")
            (auto simp: Dispatch_def Let_def simp del: bind_outcome_eq_Ok)
        then have "routes (t_config t') = rs" "aggregators (t_config t') = as'" "t_numIn t' = t_numIn t + 1"
          "numInvalid t' = numInvalid t" "numOutOfOrder t' = numOutOfOrder t" "numBlocklist t' = numBlocklist t"
          using assms v None co False fs nodrop \<open>\<not> (fs = [] \<and> routes ?c \<noteq> [])\<close>
          by (auto simp: Dispatch_def Let_def simp del: bind_outcome_eq_Ok)
        then show ?thesis using rs fs(3) by auto
      qed
    qed
  qed
qed

lemma offer_aggregators_keeps:
  assumes "offer_aggregators fs val ts now as = Ok (as', d)" "\<forall>a \<in> set as. agg_inv a"
  shows "\<forall>a \<in> set as'. agg_inv a"
proof (cases "fs = []")
  case True
  then show ?thesis using assms by (cases as) auto
next
  case False
  then show ?thesis using offer_aggregators_ok [OF False assms(2), of val ts now] assms(1) by auto
qed

lemma Dispatch_keeps:
  assumes "Dispatch (relay_ms env) vp now buf t = Ok t'" "system_inv t"
  shows "system_inv t'"
proof -
  note D = Dispatch_parts [OF assms(1)]
  have "\<forall>a \<in> set (aggregators (t_config t')). agg_inv a"
    using D assms(2) offer_aggregators_keeps unfolding system_inv_def by metis
  moreover have "\<forall>r \<in> set (routes (t_config t')). new_route_ok r"
    using D assms(2) send_to_routes_keeps unfolding system_inv_def by metis
  ultimately show ?thesis using D assms(2) by (auto simp: system_inv_def)
qed

lemma serve_In_keeps:
  assumes "serve_In (relay_ms env) t = Ok t'" "system_inv t"
  shows "system_inv t'"
proof (cases "t_In t")
  case Nil
  then show ?thesis using assms by (simp add: serve_In_def)
next
  case (Cons buf rest)
  then obtain rs b where rs: "send_to_routes (relay_ms env) buf buf (routes (t_config t)) = Ok (rs, b)"
    "t_config t' = (t_config t)\<lparr>routes := rs\<rparr>" "numInvalid t' = numInvalid t" "numOutOfOrder t' = numOutOfOrder t"
    "numBlocklist t' = numBlocklist t" "t_numIn t' = t_numIn t"
    using assms(1) by (auto simp: serve_In_def DispatchAggregate_def Let_def split: if_splits)
  then show ?thesis using assms(2) send_to_routes_keeps [OF rs(1)] by (simp add: system_inv_def)
qed

lemma DelRoute_keeps: "system_inv t \<Longrightarrow> system_inv (fst (tbl_DelRoute ms key t))"
  using set_remove_nth_subset by (fastforce simp: tbl_DelRoute_def system_inv_def Let_def split: option.splits)

lemma Apply_keeps:
  assumes "Apply env cmd t = Ok (Some (t', e))" "system_inv t"
  shows "system_inv t'"
proof -
  have nth: "(\<forall>x \<in> set xs. P x) \<longleftrightarrow> (\<forall>i < length xs. P (xs ! i))" for xs and P :: "relay_route \<Rightarrow> bool"
    by (rule all_set_conv_all_nth)
  have changed: "system_inv t'" if "routes_changed key t t'" for key
    using that assms(2) by (auto simp: routes_changed_def system_inv_def nth changed_ok_def)
  note DelRoute_keeps [OF assms(2)]
  with changed assms(2) Apply_effect [OF assms(1)] show ?thesis
    by (auto simp: effect_def adds_def tbl_AddAggregator_def tbl_AddBlocklist_def tbl_AddRewriter_def tbl_AddRoute_def
        system_inv_def split: token.splits cmd_token.splits if_splits)
qed

lemma serve_keeps:
  assumes "serve wenv req t = Ok (Some (t', reply))" "sound_request req" "system_inv t"
  shows "system_inv t'"
proof -
  have "system_inv t'" if e: "web_effect (we_cmd wenv) req t t'"
  proof (cases req)
    case (DeleteAggregator index)
    then show ?thesis
      using e assms(3) set_remove_nth_subset [of "nat (index_of index)" "aggregators (t_config t)"]
      by (auto simp: web_effect_def DelAggregator_def system_inv_def Let_def subset_iff split: if_splits)
  next
    case (DeleteOneRoute key)
    then show ?thesis using e DelRoute_keeps [OF assms(3)] by (simp add: web_effect_def)
  next
    case (PostAggregator body)
    then show ?thesis
      using e assms(2,3)
      by (auto simp: web_effect_def sound_request_def tbl_AddAggregator_def system_inv_def split: option.splits)
  qed (use e assms(2,3) in \<open>auto simp: web_effect_def sound_request_def tbl_AddRewriter_def DelBlocklist_def DelRewriter_def
        system_inv_def Let_def split: option.splits if_splits\<close>)
  with assms(3) requests_change [OF assms(1)] show ?thesis by blast
qed

lemma init_each_inv:
  assumes "\<And>i x t. I t \<Longrightarrow> post (\<lambda>t' _. I t') (step i x t)" and "I t"
  shows "post (\<lambda>t' _. I t') (init_each step i xs t)"
  using assms(2)
proof (induction xs arbitrary: i t)
  case (Cons x xs)
  then show ?case
    unfolding init_each.simps using assms(1) [of t i x]
    by (intro post_then) (auto simp: post_def)
qed (auto intro!: cmd_rules)

lemma InitCmd_keeps: "InitCmd env c t = Ok (Some (t', e)) \<Longrightarrow> system_inv t \<Longrightarrow> system_inv t'"
proof -
  have "post (\<lambda>t' _. system_inv t') (init_cmd env i cmd t)" if "system_inv t" for i cmd t
    using that Apply_keeps [of "cg_cmd env" cmd t]
    by (auto simp: init_cmd_def intro!: cmd_rules split: outcome.splits option.splits)
  from init_each_inv [of system_inv "init_cmd env", OF this]
  show "InitCmd env c t = Ok (Some (t', e)) \<Longrightarrow> system_inv t \<Longrightarrow> system_inv t'"
    unfolding InitCmd_def post_def by blast
qed

lemma file_loaded_keeps:
  assumes "file_loaded c t t' e" "system_inv t" "\<forall>a \<in> set (cf_Aggregation c). ac_Regex a \<noteq> []"
  shows "system_inv t'"
proof -
  obtain bs as ws rs where l: "t' = t\<lparr>t_config := (t_config t)\<lparr>blocklist := blocklist (t_config t) @ bs,
            aggregators := aggregators (t_config t) @ as, rewriters := rewriters (t_config t) @ ws,
            routes := routes (t_config t) @ rs\<rparr>\<rparr>"
    "list_all2 agg_of_entry (take (length as) (cf_Aggregation c)) as"
    "list_all2 route_of_entry (take (length rs) (cf_Route c)) rs"
    using assms(1) unfolding file_loaded_def Let_def by blast
  have "agg_inv a" if as: "a \<in> set as" for a
  proof -
    obtain x where "x \<in> set (cf_Aggregation c)" "agg_of_entry x a"
      using list_all2_source [OF l(2) as] in_set_takeD by fast
    then show ?thesis using assms(3) by (simp add: agg_of_entry_def)
  qed
  moreover have "new_route_ok r" if "r \<in> set rs" for r
    using list_all2_source [OF l(3) that] by (auto simp: route_of_entry_def)
  ultimately show ?thesis using assms(2) l(1) by (auto simp: system_inv_def)
qed

lemma InitTable_keeps:
  assumes "InitTable env meta c t = Ok (Some (t', e))" "system_inv t" "\<forall>a \<in> set (cf_Aggregation c). ac_Regex a \<noteq> []"
  shows "system_inv t'"
proof -
  from assms(1) [unfolded InitTable_def] show ?thesis
  proof (cases rule: then_initE)
    case 1
    then show ?thesis using InitCmd_keeps assms(2) by blast
  next
    case (2 t1)
    then show ?thesis using InitCmd_keeps [OF 2(1) assms(2)] InitTable_file_loaded [OF assms(1) 2(1)] assms(3) file_loaded_keeps by blast
  qed
qed

lemma reachable_inv:
  "reachable env meta conf vp t \<Longrightarrow> \<forall>a \<in> set (cf_Aggregation conf). ac_Regex a \<noteq> [] \<Longrightarrow> system_inv t"
proof (induction rule: reachable.induct)
  case (start tc ord t)
  then have "system_inv (table_New tc ord)"
    by (auto simp: Config_TableConfig_def NewTableConfig_def table_New_def system_inv_def split: option.splits)
  then show ?case using InitTable_keeps start by blast
next
  case (command t now cmd t' e)
  then show ?case using Apply_keeps by blast
next
  case (request t wenv now req t' reply)
  then show ?case using serve_keeps by blast
next
  case (line t now buf t')
  then show ?case using Dispatch_keeps by blast
next
  case (invalid t)
  then show ?case by (simp add: IncNumInvalid_def system_inv_def)
next
  case (aggregate t t')
  then show ?case using serve_In_keeps by blast
next
  case (agg_turn t i ev a)
  then have "agg_inv (aggregators (t_config t) ! i)" by (simp add: system_inv_def)
  then obtain a' where "agg_step ev (aggregators (t_config t) ! i) = Ok a'" "agg_inv a'"
    using agg_step_inv by blast
  with agg_turn have "agg_inv a" by simp
  with agg_turn show ?case
    by (auto simp: set_agg_def system_inv_def dest: set_update_subset_insert [THEN subsetD])
next
  case (turn t i r)
  then have "new_route_ok r" using route_turn_keeps by (simp add: system_inv_def)
  with turn show ?case
    by (auto simp: set_route_def system_inv_def dest: set_update_subset_insert [THEN subsetD])
qed

text \<open>A session of the TCP interface leads from a reachable table to a reachable one.\<close>

lemma session_reachable:
  assumes "reachable env meta conf vp t" and "handleApiRequest ((cg_cmd env)\<lparr>ce_now := now\<rparr>) inp t = Ok (Some (t', rs))"
  shows "reachable env meta conf vp t'"
proof -
  have all: "reachable env meta conf vp t \<Longrightarrow> apply_all ((cg_cmd env)\<lparr>ce_now := now\<rparr>) cs t = Ok (Some t') \<Longrightarrow>
      reachable env meta conf vp t'" for cs t
  proof (induction cs arbitrary: t)
    case (Cons c cs)
    then obtain t1 e where "Apply ((cg_cmd env)\<lparr>ce_now := now\<rparr>) c t = Ok (Some (t1, e))"
      "apply_all ((cg_cmd env)\<lparr>ce_now := now\<rparr>) cs t1 = Ok (Some t')"
      by (auto split: outcome.splits option.splits)
    then show ?case using Cons.IH reachable.command Cons.prems(1) by blast
  qed simp
  have "apply_all ((cg_cmd env)\<lparr>ce_now := now\<rparr>) (filter is_change (map trim_space inp)) t = Ok (Some t')"
    using session_changes [OF assms(2)] by blast
  then show ?thesis using all assms(1) by blast
qed

subsection \<open>Properties\<close>

lemma reachable_takes_lines:
  assumes "reachable env meta conf vp t" and "accepts_lines vp" and "\<forall>a \<in> set (cf_Aggregation conf). ac_Regex a \<noteq> []"
    and "\<forall>g. Grafana g \<in> set (routes (t_config t)) \<longrightarrow> 0 < Concurrency (gn_Cfg g) \<and> Concurrency (gn_Cfg g) < 2 ^ 32"
  shows "(\<exists>t'. Dispatch (relay_ms (cg_cmd env)) vp now buf t = Ok t') \<and> (\<exists>t'. serve_In (relay_ms (cg_cmd env)) t = Ok t') \<and>
    numInvalid t + numOutOfOrder t + numBlocklist t \<le> t_numIn t"
proof -
  have inv: "system_inv t" by (rule reachable_inv [OF assms(1,3)])
  have "relay_ready r" if "r \<in> set (routes (t_config t))" for r
  proof -
    have "new_route_ok r" using that inv by (simp add: system_inv_def)
    then show ?thesis using that assms(4) by (cases r) (simp_all add: new_route_ok_def)
  qed
  with inv have ready: "table_ready relay_ready t" by (simp add: table_ready_def system_inv_def)
  obtain key val ts err where
    v: "vp buf (Validation_level_legacy (t_config t)) (Validation_level_m20 (t_config t)) = (key, val, ts, err)"
    by (metis prod.collapse)
  have "\<exists>t'. Dispatch (relay_ms (cg_cmd env)) vp now buf t = Ok t'"
    using relay.Dispatch_ok [OF ready assms(2) v, of "ce_dial (cg_cmd env)" "ce_flush (cg_cmd env)" now] unfolding relay_ms_def by blast
  moreover have "\<exists>t'. serve_In (relay_ms (cg_cmd env)) t = Ok t'"
  proof (cases "t_In t")
    case (Cons b rest)
    have "\<forall>r \<in> set (routes (t_config t)). relay_ready r" using ready by (simp add: table_ready_def)
    from relay.send_to_routes_ok [OF this, of "ce_dial (cg_cmd env)" "ce_flush (cg_cmd env)" b b] Cons show ?thesis
      by (simp add: serve_In_def DispatchAggregate_def relay_ms_def Let_def del: bind_outcome_eq_Ok)
  qed (simp add: serve_In_def)
  ultimately show ?thesis using inv by (simp add: system_inv_def)
qed

text \<open>C3: No reachable table panics on a line or on an aggregate, whatever was loaded from the configuration file,
  changed by commands and done by its goroutines, as long as the aggregations of the file have a regular expression
  and every GrafanaNet route has a concurrency between 1 and \<open>2 ^ 32 - 1\<close>; and the counters of lines kept from the routes never exceed the number received.\<close>

theorem reachable_tables_take_every_line:
  assumes "reachable env meta conf vp t" and "accepts_lines vp" and "\<forall>a \<in> set (cf_Aggregation conf). ac_Regex a \<noteq> []"
    and "\<forall>g. Grafana g \<in> set (routes (t_config t)) \<longrightarrow> 0 < Concurrency (gn_Cfg g) \<and> Concurrency (gn_Cfg g) < 2 ^ 32"
  shows "(\<exists>t'. Dispatch (relay_ms (cg_cmd env)) vp now buf t = Ok t') \<and> (\<exists>t'. serve_In (relay_ms (cg_cmd env)) t = Ok t') \<and>
    numInvalid t + numOutOfOrder t + numBlocklist t \<le> t_numIn t"
  by (rule reachable_takes_lines [OF assms])

definition small_config :: Config where
  "small_config = NewConfig\<lparr>cf_Bad_metrics_max_age := ''0'', cf_Validation_level_legacy := NoneLegacy,
     cf_Validation_level_m20 := NoneM20, cf_BlackList := [''prefix foo'']\<rparr>"

lemma small_config_loads:
  "Config_TableConfig small_config = Some (t_config (relay_table [] []))"
  "table_New (t_config (relay_table [] [])) (\<lambda>_. None) = relay_table [] []"
  "InitTable example_cfg_env (\<lambda>_. None) small_config (relay_table [] []) = Ok (Some (relay_table [prefix_matcher ''foo''] [], None))"
  by (simp add: Config_TableConfig_def small_config_def NewConfig_def ParseDuration_def NewTableConfig_def relay_table_def
      table_New_def)
    (simp add: relay_table_def table_New_def,
     simp add: InitTable_def InitCmd_def InitBlocklist_def InitAggregation_def InitRewrite_def InitRoutes_def
      small_config_def NewConfig_def then_init_def example_block cmd_done_def tbl_AddBlocklist_def relay_table_def table_New_def)

lemma small_config_reachable:
  "reachable example_cfg_env (\<lambda>_. None) small_config example_validator (relay_table [prefix_matcher ''foo''] [])"
  using small_config_loads by (metis reachable.start)

theorem reachable_tables_take_every_line_witness:
  "reachable example_cfg_env (\<lambda>_. None) small_config example_validator (relay_table [prefix_matcher ''foo''] []) \<and>
    (\<exists>t'. Dispatch (relay_ms example_cmd_env) example_validator 5 ''foo 1 10'' (relay_table [prefix_matcher ''foo''] []) = Ok t')"
proof -
  have "routes (t_config (relay_table [prefix_matcher ''foo''] [])) = []" "cf_Aggregation small_config = []"
    "cg_cmd example_cfg_env = example_cmd_env"
    by (simp_all add: relay_table_def table_New_def small_config_def NewConfig_def example_cfg_env_def)
  with reachable_tables_take_every_line [OF small_config_reachable example_validator_accepts, of 5 "''foo 1 10''"]
    small_config_reachable
  show ?thesis by auto
qed

text \<open>The concurrency is needed: \<open>addRoute grafanaNet\<close> accepts the option \<open>concurrency=0\<close>, and the next line
  with a key divides by it.\<close>

theorem zero_concurrency_panics:
  assumes "Concurrency (gn_Cfg g) = 0" and "index_byte (trim_space buf) CHR '' '' = Some i"
  shows "relay_Dispatch buf (Grafana g) = Panic DivisionByZero"
  using assms by (simp add: gn_Dispatch_def Let_def)

theorem zero_concurrency_panics_witness:
  "\<exists>g. NewGrafanaNet example_env ''r'' (fst (matcher_New [] [] [] [] [] [])) (example_cfg\<lparr>Concurrency := 0\<rparr>) = Ok (Inr g) \<and>
    relay_Dispatch ''a 1 1'' (Grafana g) = Panic DivisionByZero"
proof -
  have "\<exists>g. NewGrafanaNet example_env ''r'' (fst (matcher_New [] [] [] [] [] [])) (example_cfg\<lparr>Concurrency := 0\<rparr>) = Ok (Inr g)"
    by (rule example_new_net) (simp_all add: example_cfg_def)
  then obtain g where g: "NewGrafanaNet example_env ''r'' (fst (matcher_New [] [] [] [] [] [])) (example_cfg\<lparr>Concurrency := 0\<rparr>) = Ok (Inr g)"
    by blast
  have "Concurrency (gn_Cfg g) = 0" using NewGrafanaNet_ok [OF g, of "\<lambda>_. True"] by simp
  moreover have "index_byte (trim_space ''a 1 1'') CHR '' '' = Some 1" by code_simp
  ultimately show ?thesis using zero_concurrency_panics g by blast
qed

end
