(* ===== verification/Stats_Metrics.thy ===== *)
theory Stats_Metrics
  imports Go_Strconv
begin

text \<open>
  \<^verbatim>\<open>statsmt/\<close>: the metrics that the relay keeps about itself, and their lines for graphite.

  \<^item> A line has a prefix and a key, a value and a time in seconds; \<open>write_line\<close> is what the \<open>Write...\<close> functions append.
    \<open>ffmt\<close> stands for \<open>strconv.AppendFloat\<close> with the shortest precision, \<open>lin\<close> for the bin of a value in the
    third-party go-linlog.
  \<^item> Times are nanoseconds. The operations of a metric are atomic, or hold its lock.
  \<^item> A \<open>report\<close> gives the lines of \<open>ReportGraphite\<close> and the metric after it. The histograms of latencies, which wrap
    third-party ones, and the reporters of the memory and the process are \<open>MExternal\<close> with the name of their kind; their
    lines are the parameter \<open>ext\<close>.
\<close>

unbundle bit_operations_syntax

subsection \<open>Lines\<close>

definition unix :: "int \<Rightarrow> int" where
  "unix now = now div 10 ^ 9"

definition write_line :: "bytes \<Rightarrow> bytes \<Rightarrow> bytes \<Rightarrow> int \<Rightarrow> bytes" where
  "write_line prefix key val now = prefix @ key @ '' '' @ val @ '' '' @ format_int (unix now) @ [CHR 0x0A]"

definition WriteFloat64 :: "(real \<Rightarrow> bytes) \<Rightarrow> bytes \<Rightarrow> bytes \<Rightarrow> bytes \<Rightarrow> real \<Rightarrow> int \<Rightarrow> bytes" where
  "WriteFloat64 ffmt buf prefix key val now = buf @ write_line prefix key (ffmt val) now"

definition WriteUint32 :: "bytes \<Rightarrow> bytes \<Rightarrow> bytes \<Rightarrow> uint32 \<Rightarrow> int \<Rightarrow> bytes" where
  "WriteUint32 buf prefix key val now = buf @ write_line prefix key (format_nat (unat val)) now"

definition WriteUint64 :: "bytes \<Rightarrow> bytes \<Rightarrow> bytes \<Rightarrow> uint64 \<Rightarrow> int \<Rightarrow> bytes" where
  "WriteUint64 buf prefix key val now = buf @ write_line prefix key (format_nat (unat val)) now"

definition WriteInt32 :: "bytes \<Rightarrow> bytes \<Rightarrow> bytes \<Rightarrow> uint32 \<Rightarrow> int \<Rightarrow> bytes" where
  "WriteInt32 buf prefix key val now = buf @ write_line prefix key (format_int (sint val)) now"

subsection \<open>Counters, gauges, flags\<close>

definition add_word :: "int \<Rightarrow> 'a::len word \<Rightarrow> 'a word" where
  "add_word val g =
     (if val = 0 then g
      else if val > 0 then g + word_of_int val
      else g + (NOT (word_of_int (- 1 * val) - 1)))"

text \<open>\<open>Gauge32\<close> and \<open>Gauge64\<close>: adding an \<open>int\<close>, and one more or less.\<close>

definition Gauge32_Add :: "int \<Rightarrow> uint32 \<Rightarrow> uint32" where
  "Gauge32_Add val g = add_word val g"

definition Gauge32_Inc :: "uint32 \<Rightarrow> uint32" where
  "Gauge32_Inc g = g + 1"

definition Gauge32_Dec :: "uint32 \<Rightarrow> uint32" where
  "Gauge32_Dec g = g + NOT 0"

definition Gauge64_Add :: "int \<Rightarrow> uint64 \<Rightarrow> uint64" where
  "Gauge64_Add val g = add_word val g"

definition Gauge64_Inc :: "uint64 \<Rightarrow> uint64" where
  "Gauge64_Inc g = g + 1"

definition Gauge64_Dec :: "uint64 \<Rightarrow> uint64" where
  "Gauge64_Dec g = g + NOT 0"

definition Gauge32_Report :: "bytes \<Rightarrow> bytes \<Rightarrow> int \<Rightarrow> uint32 \<Rightarrow> bytes" where
  "Gauge32_Report prefix buf now g = WriteUint32 buf prefix ''gauge32'' g now"

definition Gauge64_Report :: "bytes \<Rightarrow> bytes \<Rightarrow> int \<Rightarrow> uint64 \<Rightarrow> bytes" where
  "Gauge64_Report prefix buf now g = WriteUint64 buf prefix ''gauge64'' g now"

definition Bool_Set :: "bool \<Rightarrow> uint32" where
  "Bool_Set val = (if val then 1 else 0)"

definition Bool_Peek :: "uint32 \<Rightarrow> bool" where
  "Bool_Peek b = (b \<noteq> 0)"

definition Bool_Report :: "bytes \<Rightarrow> bytes \<Rightarrow> int \<Rightarrow> uint32 \<Rightarrow> bytes" where
  "Bool_Report prefix buf now b = WriteUint32 buf prefix ''gauge1'' b now"

definition Counter32_Add :: "int \<Rightarrow> uint32 \<Rightarrow> uint32" where
  "Counter32_Add val c = c + word_of_int val"

definition Counter32_Report :: "bytes \<Rightarrow> bytes \<Rightarrow> int \<Rightarrow> uint32 \<Rightarrow> bytes" where
  "Counter32_Report prefix buf now c = WriteUint32 buf prefix ''counter32'' c now"

definition Counter64_AddUint64 :: "uint64 \<Rightarrow> uint64 \<Rightarrow> uint64" where
  "Counter64_AddUint64 val c = c + val"

definition Counter64_Report :: "bytes \<Rightarrow> bytes \<Rightarrow> int \<Rightarrow> uint64 \<Rightarrow> bytes" where
  "Counter64_Report prefix buf now c = WriteUint64 buf prefix ''counter64'' c now"

record CounterRate32 =
  cr_prev :: uint32
  cr_val :: uint32
  cr_since :: int

definition CounterRate32_Add :: "int \<Rightarrow> CounterRate32 \<Rightarrow> CounterRate32" where
  "CounterRate32_Add val c = c\<lparr>cr_val := cr_val c + word_of_int val\<rparr>"

definition seconds :: "int \<Rightarrow> real" where
  "seconds d = real_of_int d / 10 ^ 9"

definition CounterRate32_Report ::
  "(real \<Rightarrow> bytes) \<Rightarrow> bytes \<Rightarrow> bytes \<Rightarrow> int \<Rightarrow> CounterRate32 \<Rightarrow> bytes \<times> CounterRate32" where
  "CounterRate32_Report ffmt prefix buf now c =
     (let val = cr_val c;
          buf1 = WriteUint32 buf prefix ''counter32'' val now;
          buf2 = WriteFloat64 ffmt buf1 prefix ''rate32'' (real (unat (val - cr_prev c)) / seconds (now - cr_since c)) now
      in (buf2, c\<lparr>cr_prev := val, cr_since := now\<rparr>))"

definition TimeDiffReporter32_Report :: "bytes \<Rightarrow> bytes \<Rightarrow> int \<Rightarrow> uint32 \<Rightarrow> bytes" where
  "TimeDiffReporter32_Report prefix buf now target =
     (let now32 = word_of_int (unix now) :: uint32;
          report = (if now32 < target then target - now32 else 0)
      in WriteUint32 buf prefix ''gauge32'' report now)"

subsection \<open>Ranges\<close>

record Range32 =
  r_min :: uint32
  r_max :: uint32
  r_valid :: bool

definition NewRange32 :: Range32 where
  "NewRange32 = \<lparr>r_min = - 1, r_max = 0, r_valid = False\<rparr>"

definition Range32_Value :: "uint32 \<Rightarrow> Range32 \<Rightarrow> Range32" where
  "Range32_Value val r =
     (let r1 = (if val < r_min r then r\<lparr>r_min := val\<rparr> else r);
          r2 = (if val > r_max r1 then r1\<lparr>r_max := val\<rparr> else r1)
      in r2\<lparr>r_valid := True\<rparr>)"

definition Range32_Report :: "bytes \<Rightarrow> bytes \<Rightarrow> int \<Rightarrow> Range32 \<Rightarrow> bytes \<times> Range32" where
  "Range32_Report prefix buf now r =
     (if r_valid r
      then (WriteUint32 (WriteUint32 buf prefix ''min.gauge32'' (r_min r) now) prefix ''max.gauge32'' (r_max r) now,
            r\<lparr>r_min := - 1, r_max := 0, r_valid := False\<rparr>)
      else (buf, r))"

subsection \<open>Meters\<close>

record Meter32 =
  m_approx :: bool
  m_hist :: "(uint32 \<times> uint32) list"
  m_min :: uint32
  m_max :: uint32
  m_count :: uint32
  m_since :: int

definition NewMeter32 :: "bool \<Rightarrow> int \<Rightarrow> Meter32" where
  "NewMeter32 approx now = \<lparr>m_approx = approx, m_hist = [], m_min = - 1, m_max = 0, m_count = 0, m_since = now\<rparr>"

definition meter_clear :: "Meter32 \<Rightarrow> Meter32" where
  "meter_clear m = m\<lparr>m_hist := [], m_min := - 1, m_max := 0, m_count := 0\<rparr>"

definition hist_at :: "(uint32 \<times> uint32) list \<Rightarrow> uint32 \<Rightarrow> uint32" where
  "hist_at h bin = (case map_of h bin of None \<Rightarrow> 0 | Some n \<Rightarrow> n)"

definition ValuesUint32 :: "(uint32 \<Rightarrow> uint32) \<Rightarrow> uint32 \<Rightarrow> uint32 \<Rightarrow> Meter32 \<Rightarrow> Meter32" where
  "ValuesUint32 lin val num m =
     (let bin = (if m_approx m then lin val else val);
          m1 = (if val < m_min m then m\<lparr>m_min := val\<rparr> else m);
          m2 = (if val > m_max m1 then m1\<lparr>m_max := val\<rparr> else m1)
      in m2\<lparr>m_hist := AList.update bin (hist_at (m_hist m2) bin + num) (m_hist m2), m_count := m_count m2 + num\<rparr>)"

definition ValueUint32 :: "(uint32 \<Rightarrow> uint32) \<Rightarrow> uint32 \<Rightarrow> Meter32 \<Rightarrow> Meter32" where
  "ValueUint32 lin val m = ValuesUint32 lin val 1 m"

definition quantiles :: "(real \<times> bytes) list" where
  "quantiles = [(1 / 2, ''median.gauge32''), (3 / 4, ''p75.gauge32''), (9 / 10, ''p90.gauge32'')]"

text \<open>The loop over the sorted bins: the quantiles that are reached, and the sum.\<close>

fun meter_loop :: "(uint32 \<times> uint32) list \<Rightarrow> uint32 \<Rightarrow> uint32 list \<Rightarrow> (real \<times> bytes) list \<Rightarrow> uint32 \<Rightarrow> uint64 \<Rightarrow>
    (bytes \<times> uint32) list \<times> uint64" where
  "meter_loop h n [] qs runningcount runningsum = ([], runningsum)"
| "meter_loop h n (key # keys) qs runningcount runningsum =
     (let rc = runningcount + hist_at h key;
          rs = runningsum + ucast (hist_at h key) * ucast key;
          p = real (unat rc) / real (unat n);
          (out, total_sum) = meter_loop h n keys (dropWhile (\<lambda>q. fst q \<le> p) qs) rc rs
      in (map (\<lambda>q. (snd q, key)) (takeWhile (\<lambda>q. fst q \<le> p) qs) @ out, total_sum))"

definition meter_lines :: "Meter32 \<Rightarrow> (bytes \<times> uint32) list" where
  "meter_lines m =
     (case meter_loop (m_hist m) (m_count m) (sort (map fst (m_hist m))) quantiles 0 0 of
        (out, runningsum) \<Rightarrow>
          out @ [(''min.gauge32'', m_min m), (''mean.gauge32'', ucast (runningsum div ucast (m_count m))),
                 (''max.gauge32'', m_max m), (''values.count32'', m_count m)])"

definition Meter32_Report :: "(real \<Rightarrow> bytes) \<Rightarrow> bytes \<Rightarrow> bytes \<Rightarrow> int \<Rightarrow> Meter32 \<Rightarrow> bytes \<times> Meter32" where
  "Meter32_Report ffmt prefix buf now m =
     (if m_count m = 0 then (buf, m)
      else (WriteFloat64 ffmt (foldl (\<lambda>b (key, val). WriteUint32 b prefix key val now) buf (meter_lines m)) prefix ''values.rate32''
              (real (unat (m_count m)) / seconds (now - m_since m)) now,
            meter_clear (m\<lparr>m_since := now\<rparr>)))"

subsection \<open>The registry\<close>

datatype metric = MBool uint32 | MCounter32 uint32 | MCounter64 uint64 | MCounterRate32 CounterRate32 | MGauge32 uint32
  | MGauge64 uint64 | MRange32 Range32 | MMeter32 Meter32 | MTimeDiff uint32 | MExternal bytes

definition same_type :: "metric \<Rightarrow> metric \<Rightarrow> bool" where
  "same_type a b =
     (case (a, b) of
        (MBool _, MBool _) \<Rightarrow> True
      | (MCounter32 _, MCounter32 _) \<Rightarrow> True
      | (MCounter64 _, MCounter64 _) \<Rightarrow> True
      | (MCounterRate32 _, MCounterRate32 _) \<Rightarrow> True
      | (MGauge32 _, MGauge32 _) \<Rightarrow> True
      | (MGauge64 _, MGauge64 _) \<Rightarrow> True
      | (MRange32 _, MRange32 _) \<Rightarrow> True
      | (MMeter32 _, MMeter32 _) \<Rightarrow> True
      | (MTimeDiff _, MTimeDiff _) \<Rightarrow> True
      | (MExternal k, MExternal k') \<Rightarrow> k = k'
      | _ \<Rightarrow> False)"

type_synonym Registry = "(bytes \<times> metric) list"

text \<open>The metric of a name is a pointer: what is registered under the name afterwards. A clash of types panics, with the
  lock of the registry held.\<close>

definition GetOrAdd :: "bytes \<Rightarrow> metric \<Rightarrow> Registry \<Rightarrow> Registry outcome" where
  "GetOrAdd name m reg =
     (case map_of reg name of
        Some existing \<Rightarrow> if same_type existing m then Ok reg else Panic (ExplicitPanic ''metric already exists'')
      | None \<Rightarrow> Ok (AList.update name m reg))"

definition metric_Report :: "(real \<Rightarrow> bytes) \<Rightarrow> (bytes \<Rightarrow> bytes \<Rightarrow> int \<Rightarrow> bytes) \<Rightarrow> bytes \<Rightarrow> bytes \<Rightarrow> int \<Rightarrow> metric \<Rightarrow> bytes \<times> metric" where
  "metric_Report ffmt ext prefix buf now m =
     (case m of
        MBool b \<Rightarrow> (Bool_Report prefix buf now b, m)
      | MCounter32 c \<Rightarrow> (Counter32_Report prefix buf now c, m)
      | MCounter64 c \<Rightarrow> (Counter64_Report prefix buf now c, m)
      | MCounterRate32 c \<Rightarrow> map_prod id MCounterRate32 (CounterRate32_Report ffmt prefix buf now c)
      | MGauge32 g \<Rightarrow> (Gauge32_Report prefix buf now g, m)
      | MGauge64 g \<Rightarrow> (Gauge64_Report prefix buf now g, m)
      | MRange32 r \<Rightarrow> map_prod id MRange32 (Range32_Report prefix buf now r)
      | MMeter32 t \<Rightarrow> map_prod id MMeter32 (Meter32_Report ffmt prefix buf now t)
      | MTimeDiff t \<Rightarrow> (TimeDiffReporter32_Report prefix buf now t, m)
      | MExternal k \<Rightarrow> (buf @ ext k prefix now, m))"

subsection \<open>The names of the relay's own metrics\<close>

text \<open>\<open>expandKey\<close> of \<^verbatim>\<open>stats/metrics_wrapper.go\<close>, which counters, gauges, timers and histograms are registered under.\<close>

definition expandKey :: "bytes \<Rightarrow> bytes \<Rightarrow> bytes outcome" where
  "expandKey inst key =
     (if inst = [] then Panic (ExplicitPanic ''instance must be set in graphite expandKey!'')
      else Ok (go_replace (''service='' @ ''carbon-relay-ng'' @ ''.instance='' @ inst @ ''.'' @ key) ''='' ''_is_'' (- 1)))"

definition Counter_key :: "bytes \<Rightarrow> bytes \<Rightarrow> bytes outcome" where
  "Counter_key inst key = expandKey inst (''mtype=counter.'' @ key)"

definition Gauge_key :: "bytes \<Rightarrow> bytes \<Rightarrow> bytes outcome" where
  "Gauge_key inst key = expandKey inst (''mtype=gauge.'' @ key)"

definition Timer_key :: "bytes \<Rightarrow> bytes \<Rightarrow> bytes outcome" where
  "Timer_key inst key = expandKey inst (''mtype=gauge.unit=ns.'' @ key)"

lemma expanded_keys_have_no_equals: "expandKey inst key = Ok k \<Longrightarrow> CHR ''='' \<notin> set k"
proof -
  have "CHR ''='' \<notin> set (replace_old ''='' ''_is_'' s (- 1))" for s
    by (subst replace_old_single) (auto split: if_splits)
  then have all: "CHR ''='' \<notin> set (go_replace s ''='' ''_is_'' (- 1))" for s
    by (simp add: go_replace_def del: replace_old.simps)
  assume "expandKey inst key = Ok k"
  then obtain s where "k = go_replace s ''='' ''_is_'' (- 1)"
    unfolding expandKey_def by (metis outcome.distinct(1) outcome.inject(2))
  with all show "CHR ''='' \<notin> set k" by blast
qed

subsection \<open>Gauges and ranges\<close>

lemma NOT_word: "NOT (x - 1) = - (x :: 'a::len word)"
  by (simp add: minus_eq_not_minus_1)

lemma add_word: "add_word val g = g + word_of_int val"
proof (cases "val < 0")
  case True
  then have "add_word val g = g + - word_of_int (- 1 * val)"
    unfolding add_word_def NOT_word by simp
  then show ?thesis by simp
qed (simp add: add_word_def)

text \<open>A gauge after any sequence of additions, in any order, is their sum modulo its width.\<close>

theorem gauges_add_up:
  "fold Gauge32_Add vals g = g + word_of_int (sum_list vals)" "Gauge32_Dec (Gauge32_Inc g) = g"
proof -
  show "fold Gauge32_Add vals g = g + word_of_int (sum_list vals)"
    by (induction vals arbitrary: g) (simp_all add: Gauge32_Add_def add_word)
  show "Gauge32_Dec (Gauge32_Inc g) = g"
    by (simp add: Gauge32_Dec_def Gauge32_Inc_def)
qed

text \<open>A range reports the least and the greatest of the values since its last report, and nothing if there were none.\<close>

definition range_of :: "uint32 list \<Rightarrow> Range32" where
  "range_of vs = fold Range32_Value vs NewRange32"

lemma range_of_snoc: "range_of (vs @ [v]) = Range32_Value v (range_of vs)"
  by (simp add: range_of_def)

lemma Range32_Value_eq: "Range32_Value v r = r\<lparr>r_min := min v (r_min r), r_max := max v (r_max r), r_valid := True\<rparr>"
  by (cases r) (auto simp: Range32_Value_def Let_def min_def max_def)

lemma min_max_word: "min v (- 1 :: 'a::len word) = v" "max v (0 :: 'a::len word) = v"
  by (simp_all add: min_def max_def)

lemma range_of_eq:
  "vs \<noteq> [] \<Longrightarrow> range_of vs = \<lparr>r_min = Min (set vs), r_max = Max (set vs), r_valid = True\<rparr>"
proof (induction vs rule: rev_induct)
  case (snoc v vs)
  then show ?case
    by (cases "vs = []") (simp_all add: range_of_snoc Range32_Value_eq, simp add: range_of_def NewRange32_def Range32_Value_eq min_max_word)
qed simp

theorem ranges_report_extremes:
  "Range32_Report prefix buf now (range_of vs) =
     (if vs = [] then (buf, NewRange32)
      else (WriteUint32 (WriteUint32 buf prefix ''min.gauge32'' (Min (set vs)) now) prefix ''max.gauge32'' (Max (set vs)) now,
            NewRange32))"
  by (cases "vs = []") (simp_all add: range_of_eq, simp_all add: range_of_def Range32_Report_def NewRange32_def)

subsection \<open>Meters report order statistics\<close>

definition meter_of :: "int \<Rightarrow> uint32 list \<Rightarrow> Meter32" where
  "meter_of now vs = fold (ValueUint32 (\<lambda>_. 0)) vs (NewMeter32 False now)"

definition at_most :: "uint32 list \<Rightarrow> uint32 \<Rightarrow> nat" where
  "at_most vs v = length (filter (\<lambda>x. x \<le> v) vs)"

text \<open>The least value that at least the share \<open>p\<close> of the values does not exceed.\<close>

definition quantile :: "uint32 list \<Rightarrow> real \<Rightarrow> uint32" where
  "quantile vs p = Min {v \<in> set vs. p * real (length vs) \<le> real (at_most vs v)}"

lemma meter_of_snoc: "meter_of now (vs @ [v]) = ValueUint32 (\<lambda>_. 0) v (meter_of now vs)"
  by (simp add: meter_of_def)

lemma meter_of_fields:
  "m_approx (meter_of now vs) = False \<and> m_since (meter_of now vs) = now \<and>
   m_count (meter_of now vs) = of_nat (length vs) \<and> set (map fst (m_hist (meter_of now vs))) = set vs \<and>
   distinct (map fst (m_hist (meter_of now vs))) \<and> (\<forall>x. hist_at (m_hist (meter_of now vs)) x = of_nat (count_list vs x)) \<and>
   m_min (meter_of now vs) = r_min (range_of vs) \<and> m_max (meter_of now vs) = r_max (range_of vs)"
proof (induction vs rule: rev_induct)
  case Nil
  then show ?case by (simp add: meter_of_def NewMeter32_def hist_at_def range_of_def NewRange32_def)
next
  case (snoc v vs)
  let ?m = "meter_of now vs"
  have "hist_at (AList.update v (hist_at (m_hist ?m) v + 1) (m_hist ?m)) x = of_nat (count_list (vs @ [v]) x)" for x
    using snoc by (auto simp: hist_at_def update_conv')
  then show ?case
    using snoc
    by (auto simp: meter_of_snoc range_of_snoc ValueUint32_def ValuesUint32_def Range32_Value_def Let_def
        distinct_update dom_update update_conv')
qed

lemma filter_remove_key:
  "k \<notin> set keys \<Longrightarrow> length (filter (\<lambda>x. x \<notin> set keys) vs) = length (filter (\<lambda>x. x \<notin> set (k # keys)) vs) + count_list vs k"
  "k \<notin> set keys \<Longrightarrow> sum_list (map unat (filter (\<lambda>x. x \<notin> set keys) vs)) =
     sum_list (map unat (filter (\<lambda>x. x \<notin> set (k # keys)) vs)) + count_list vs k * unat (k :: uint32)"
  by (induction vs) auto

lemma filter_at_most:
  assumes "\<forall>x \<in> set vs. x \<notin> set keys \<longleftrightarrow> x \<le> k"
  shows "length (filter (\<lambda>x. x \<notin> set keys) vs) = at_most vs k"
  using assms by (simp add: at_most_def cong: filter_cong)

lemma quantile_eqI:
  assumes "k \<in> set vs" "p * real (length vs) \<le> real (at_most vs k)"
    "\<And>x. x \<in> set vs \<Longrightarrow> x < k \<Longrightarrow> real (at_most vs x) < p * real (length vs)"
  shows "quantile vs p = k"
  unfolding quantile_def
proof (rule Min_eqI)
  fix y
  assume "y \<in> {v \<in> set vs. p * real (length vs) \<le> real (at_most vs v)}"
  then show "k \<le> y" using assms(3) [of y] by fastforce
qed (use assms in auto)

lemma ucast_small: "n < 2 ^ 32 \<Longrightarrow> (ucast (of_nat n :: uint32) :: uint64) = of_nat n"
  by (simp add: unsigned_of_nat take_bit_nat_eq_self)

lemma unat_small: "n < 2 ^ 32 \<Longrightarrow> unat (of_nat n :: uint32) = n"
  by (simp add: unsigned_of_nat take_bit_nat_eq_self)

lemma at_most_mono: "x \<le> y \<Longrightarrow> at_most vs x \<le> at_most vs y"
  unfolding at_most_def by (induction vs) auto

lemma dropWhile_sorted:
  "sorted_wrt (\<lambda>a b. fst a \<le> fst b) qs \<Longrightarrow> q \<in> set (dropWhile (\<lambda>q. fst q \<le> p) qs) \<Longrightarrow> \<not> fst q \<le> (p :: real)"
  by (induction qs) (fastforce split: if_splits)+

lemma meter_loop_spec:
  assumes "vs \<noteq> []" and "length vs < 2 ^ 32" and h: "\<And>x. hist_at h x = of_nat (count_list vs x)"
    and "sorted_wrt (<) keys" "set keys \<subseteq> set vs" "\<forall>x \<in> set vs. \<forall>k \<in> set keys. x \<notin> set keys \<longrightarrow> x < k"
    and "sorted_wrt (\<lambda>a b. fst a \<le> fst b) qs" "\<forall>q \<in> set qs. fst q \<le> 1"
    and "\<forall>q \<in> set qs. \<forall>x \<in> set vs. x \<notin> set keys \<longrightarrow> real (at_most vs x) < fst q * real (length vs)"
    and "rc = of_nat (length (filter (\<lambda>x. x \<notin> set keys) vs))"
    and "rs = of_nat (sum_list (map unat (filter (\<lambda>x. x \<notin> set keys) vs)))"
  shows "meter_loop h (of_nat (length vs)) keys qs rc rs =
    (map (\<lambda>q. (snd q, quantile vs (fst q))) qs, of_nat (sum_list (map unat vs)))"
  using assms(4-)
proof (induction keys arbitrary: qs rc rs)
  case Nil
  have "qs = []"
  proof (rule ccontr)
    assume "qs \<noteq> []"
    then obtain q where q: "q \<in> set qs" by (cases qs) auto
    have "at_most vs (Max (set vs)) = length vs"
      using assms(1) by (simp add: at_most_def)
    then have "real (length vs) < fst q * real (length vs)"
      using Nil.prems(6) q assms(1) Max_in [of "set vs"] by (metis List.finite_set empty_iff list.set(1) set_empty2)
    with Nil.prems(5) q show False by (simp add: mult_le_cancel_right2 not_le [symmetric])
  qed
  then show ?case using Nil by simp
next
  case (Cons k keys)
  have fresh: "k \<notin> set keys" using Cons.prems(1) by auto
  have le: "\<forall>x \<in> set vs. x \<notin> set keys \<longleftrightarrow> x \<le> k"
    using Cons.prems(1,3) fresh by fastforce
  have cnt: "length (filter (\<lambda>x. x \<notin> set keys) vs) = at_most vs k" by (rule filter_at_most [OF le])
  have lt: "at_most vs k < 2 ^ 32" using assms(2) by (simp add: at_most_def le_less_trans [OF length_filter_le])
  have c32: "count_list vs k < 2 ^ 32" using count_le_length [of vs k] assms(2) by simp
  let ?rc = "rc + hist_at h k" and ?rs = "rs + ucast (hist_at h k) * ucast k"
  have rc: "?rc = of_nat (length (filter (\<lambda>x. x \<notin> set keys) vs))"
    using Cons.prems(7) filter_remove_key(1) [OF fresh, of vs] h by (simp del: set_simps)
  have "ucast (hist_at h k) = (of_nat (count_list vs k) :: uint64)"
    unfolding h by (rule ucast_small [OF c32])
  moreover have "ucast k = (of_nat (unat k) :: uint64)" by (rule of_nat_unat [symmetric])
  ultimately have rs: "?rs = of_nat (sum_list (map unat (filter (\<lambda>x. x \<notin> set keys) vs)))"
    unfolding filter_remove_key(2) [OF fresh] Cons.prems(8) of_nat_add of_nat_mult by (simp only:)
  define p where "p = real (unat ?rc) / real (unat (of_nat (length vs) :: uint32))"
  have n0: "0 < real (length vs)" using assms(1) by simp
  have p: "q \<le> p \<longleftrightarrow> q * real (length vs) \<le> real (at_most vs k)" for q
  proof -
    have "unat ?rc = at_most vs k" using unat_small [OF lt] rc cnt by argo
    moreover have "unat (of_nat (length vs) :: uint32) = length vs" by (rule unat_small [OF assms(2)])
    ultimately have "p = real (at_most vs k) / real (length vs)" by (simp only: p_def)
    then show ?thesis using pos_le_divide_eq [OF n0] by blast
  qed
  let ?now = "takeWhile (\<lambda>q. fst q \<le> p) qs" and ?later = "dropWhile (\<lambda>q. fst q \<le> p) qs"
  have below: "x \<in> set vs \<Longrightarrow> x < k \<Longrightarrow> x \<notin> set (k # keys)" for x
    using le by (metis less_imp_le order_less_irrefl set_ConsD)
  have "quantile vs (fst q) = k" if "q \<in> set ?now" for q
  proof (rule quantile_eqI)
    show "k \<in> set vs" using Cons.prems(2) by simp
    show "fst q * real (length vs) \<le> real (at_most vs k)"
      using set_takeWhileD [OF that] p by blast
    show "real (at_most vs x) < fst q * real (length vs)" if "x \<in> set vs" "x < k" for x
      using Cons.prems(6) below [OF that] that set_takeWhileD [OF \<open>q \<in> set ?now\<close>] by blast
  qed
  then have out: "map (\<lambda>q. (snd q, k)) ?now = map (\<lambda>q. (snd q, quantile vs (fst q))) ?now" by simp
  have above: "\<not> fst q \<le> p" if "q \<in> set ?later" for q
    using dropWhile_sorted [OF Cons.prems(4) that] .
  have later: "real (at_most vs x) < fst q * real (length vs)"
    if "q \<in> set ?later" "x \<in> set vs" "x \<notin> set keys" for q x
  proof -
    have "at_most vs x \<le> at_most vs k"
      using le that(2,3) by (blast intro: at_most_mono)
    moreover have "real (at_most vs k) < fst q * real (length vs)" using above [OF that(1)] p by simp
    ultimately show ?thesis by linarith
  qed
  have "meter_loop h (of_nat (length vs)) keys ?later ?rc ?rs =
      (map (\<lambda>q. (snd q, quantile vs (fst q))) ?later, of_nat (sum_list (map unat vs)))"
  proof (rule Cons.IH [OF _ _ _ _ _ _ rc rs])
    show "sorted_wrt (<) keys" "set keys \<subseteq> set vs" using Cons.prems(1,2) by simp_all
    show "\<forall>x \<in> set vs. \<forall>k \<in> set keys. x \<notin> set keys \<longrightarrow> x < k" using Cons.prems(1) le by fastforce
    show "sorted_wrt (\<lambda>a b. fst a \<le> fst b) ?later"
      using Cons.prems(4) by (simp add: dropWhile_eq_drop sorted_wrt_drop)
    show "\<forall>q \<in> set ?later. fst q \<le> 1" using Cons.prems(5) set_dropWhileD by fast
  qed (use later in blast)
  then show ?case
    unfolding meter_loop.simps(2) Let_def p_def [symmetric]
    by (simp only: prod.case out map_append [symmetric] takeWhile_dropWhile_id)
qed

lemma sum_unat_bound: "sum_list (map unat vs) \<le> length vs * (2 ^ 32 - 1)" for vs :: "uint32 list"
proof (induction vs)
  case (Cons v vs)
  have "unat v < 2 ^ LENGTH(32)" by (rule unsigned_less)
  then have "unat v \<le> 2 ^ 32 - 1" by simp
  with Cons show ?case by simp
qed simp

lemma mean_word:
  fixes vs :: "uint32 list"
  assumes "length vs < 2 ^ 32"
  shows "(ucast (of_nat (sum_list (map unat vs)) div ucast (of_nat (length vs) :: uint32) :: uint64) :: uint32) =
    of_nat (sum_list (map unat vs) div length vs)"
proof -
  let ?s = "sum_list (map unat vs)"
  have "length vs * (2 ^ 32 - 1) < 2 ^ 64" using assms by simp
  then have s: "?s < 2 ^ 64" using sum_unat_bound [of vs] by linarith
  have "unat (of_nat ?s div ucast (of_nat (length vs) :: uint32) :: uint64) = ?s div length vs"
    using s assms by (simp add: unat_div ucast_small unsigned_of_nat take_bit_nat_eq_self)
  then show ?thesis by (metis of_nat_unat)
qed

text \<open>C36: A meter without approximation reports the order statistics of the values since its last report, as long as these
  are fewer than \<open>2 ^ 32\<close>: the least values that half, three quarters and nine tenths of them do not exceed, their minimum,
  their mean rounded down, their maximum and their number; then it begins anew.\<close>

theorem meters_report_order_statistics:
  assumes "vs \<noteq> []" and "length vs < 2 ^ 32"
  shows "meter_lines (meter_of since vs) =
      [(''median.gauge32'', quantile vs (1 / 2)), (''p75.gauge32'', quantile vs (3 / 4)), (''p90.gauge32'', quantile vs (9 / 10)),
       (''min.gauge32'', Min (set vs)), (''mean.gauge32'', of_nat (sum_list (map unat vs) div length vs)),
       (''max.gauge32'', Max (set vs)), (''values.count32'', of_nat (length vs))] \<and>
    snd (Meter32_Report ffmt prefix buf now (meter_of since vs)) = NewMeter32 False now"
proof -
  let ?m = "meter_of since vs"
  note F = meter_of_fields [of since vs]
  let ?keys = "sort (map fst (m_hist ?m))"
  have keys: "sorted_wrt (<) ?keys" "set ?keys = set vs"
    using F by (simp_all add: strict_sorted_iff)
  have "meter_loop (m_hist ?m) (of_nat (length vs)) ?keys quantiles 0 0 =
      (map (\<lambda>q. (snd q, quantile vs (fst q))) quantiles, of_nat (sum_list (map unat vs)))"
    by (rule meter_loop_spec [OF assms _ keys(1)]) (use F keys in \<open>simp_all add: quantiles_def\<close>)
  then have l: "meter_lines ?m =
      [(''median.gauge32'', quantile vs (1 / 2)), (''p75.gauge32'', quantile vs (3 / 4)), (''p90.gauge32'', quantile vs (9 / 10)),
       (''min.gauge32'', Min (set vs)), (''mean.gauge32'', of_nat (sum_list (map unat vs) div length vs)),
       (''max.gauge32'', Max (set vs)), (''values.count32'', of_nat (length vs))]"
    using F mean_word [OF assms(2)] by (simp add: meter_lines_def range_of_eq [OF assms(1)] quantiles_def)
  have "unat (m_count ?m) \<noteq> 0"
    using F unat_small [OF assms(2)] assms(1) by simp
  then have "m_count ?m \<noteq> 0" by auto
  then have "snd (Meter32_Report ffmt prefix buf now ?m) = NewMeter32 False now"
    using F by (cases ?m) (simp add: Meter32_Report_def meter_clear_def NewMeter32_def)
  with l show ?thesis by blast
qed

theorem meters_report_order_statistics_witness:
  "meter_lines (meter_of 0 [7, 1, 3, 3]) =
     [(''median.gauge32'', 3), (''p75.gauge32'', 3), (''p90.gauge32'', 7), (''min.gauge32'', 1), (''mean.gauge32'', 3),
      (''max.gauge32'', 7), (''values.count32'', 4)]"
proof -
  have "quantile [7, 1, 3, 3] (1 / 2) = 3" "quantile [7, 1, 3, 3] (3 / 4) = 3" "quantile [7, 1, 3, 3] (9 / 10) = 7"
    by (auto intro!: quantile_eqI simp: at_most_def word_le_nat_alt)
  then show ?thesis
    using meters_report_order_statistics [of "[7, 1, 3, 3]" 0] by simp
qed

end
