(* ===== verification/Stats_Graphite.thy ===== *)
theory Stats_Graphite
  imports Stats_Metrics
begin

text \<open>
  \<^verbatim>\<open>statsmt/out_graphite.go\<close>, \<^verbatim>\<open>statsmt/tick.go\<close>: the two goroutines that send the metrics of the registry to graphite. At
  every tick the reporter puts the lines of all metrics, in the order in which Go goes through the map, into the channel
  \<open>toGraphite\<close>; the writer takes them out and writes each until it succeeds, dialling again after a failure.

  \<^item> The events are the ticks, the receives of the writer, its dials and its writes; after \<open>checkEOF\<close> has closed the connection
    the next write fails. \<open>g_reported\<close> and \<open>g_sent\<close> record what was put into the channel and what was written.
  \<^item> The channel is buffered, as the main program asks for; only the reporter sends to it, and it has looked for space
    before, so that it never waits.
\<close>

text \<open>The time \<open>tick\<close> sleeps before its next tick, in nanoseconds; Go's remainder has the sign of the dividend.\<close>

definition tick_diff :: "int \<Rightarrow> int \<Rightarrow> int outcome" where
  "tick_diff period now =
     (if period = 0 then Panic DivisionByZero else Ok (period - sgn now * (\<bar>now\<bar> mod \<bar>period\<bar>)))"

record Graphite =
  g_prefix :: bytes
  g_cap :: nat
  g_queue :: "bytes list"
  g_writing :: "bytes option"
  g_conn :: bool
  g_registry :: Registry
  g_reported :: "bytes list"
  g_sent :: "bytes list"

definition update_metric :: "bytes \<Rightarrow> (metric \<Rightarrow> metric) \<Rightarrow> Registry \<Rightarrow> Registry" where
  "update_metric name f reg = map (\<lambda>(n, m). (n, if n = name then f m else m)) reg"

fun set_gauge :: "int \<Rightarrow> metric \<Rightarrow> metric" where
  "set_gauge val (MGauge32 g) = MGauge32 (word_of_int val)"
| "set_gauge val m = m"

fun add_range :: "nat \<Rightarrow> metric \<Rightarrow> metric" where
  "add_range val (MRange32 r) = MRange32 (Range32_Value (of_nat val) r)"
| "add_range val m = m"

fun set_bool :: "bool \<Rightarrow> metric \<Rightarrow> metric" where
  "set_bool val (MBool b) = MBool (Bool_Set val)"
| "set_bool val m = m"

definition queueItems :: bytes where
  "queueItems = ''stats.graphite.write_queue.items''"

definition queue_length_seen :: "Graphite \<Rightarrow> Graphite" where
  "queue_length_seen g = g\<lparr>g_registry := update_metric queueItems (add_range (length (g_queue g))) (g_registry g)\<rparr>"

definition set_connected :: "Graphite \<Rightarrow> Graphite" where
  "set_connected g = g\<lparr>g_registry := update_metric ''stats.graphite.connected'' (set_bool (g_conn g)) (g_registry g)\<rparr>"

definition NewGraphite :: "bytes \<Rightarrow> nat \<Rightarrow> Registry \<Rightarrow> Graphite outcome" where
  "NewGraphite prefix bufferSize reg =
     (let p = (if length prefix \<noteq> 0 \<and> last prefix \<noteq> CHR ''.'' then prefix @ ''.'' else prefix)
      in bind_outcome (GetOrAdd ''stats.graphite.write_queue.size'' (MGauge32 0) reg) (\<lambda>reg.
         let reg = update_metric ''stats.graphite.write_queue.size'' (set_gauge (int bufferSize)) reg
         in bind_outcome (GetOrAdd queueItems (MRange32 NewRange32) reg) (\<lambda>reg.
            bind_outcome (GetOrAdd ''stats.generate_message.duration'' (MGauge32 0) reg) (\<lambda>reg.
            bind_outcome (GetOrAdd ''stats.graphite.flush'' (MExternal ''LatencyHistogram15s32'') reg) (\<lambda>reg.
            bind_outcome (GetOrAdd ''stats.message_size'' (MGauge32 0) reg) (\<lambda>reg.
            bind_outcome (GetOrAdd ''stats.graphite.connected'' (MBool 0) reg) (\<lambda>reg.
            Ok \<lparr>g_prefix = p, g_cap = bufferSize, g_queue = [], g_writing = None, g_conn = False, g_registry = reg,
                g_reported = [], g_sent = []\<rparr>)))))))"

text \<open>The lines of all metrics, which are reset as they are reported.\<close>

fun report_all ::
  "(real \<Rightarrow> bytes) \<Rightarrow> (bytes \<Rightarrow> bytes \<Rightarrow> int \<Rightarrow> bytes) \<Rightarrow> bytes \<Rightarrow> int \<Rightarrow> bytes list \<Rightarrow> bytes \<Rightarrow> Registry \<Rightarrow> bytes \<times> Registry" where
  "report_all ffmt ext prefix now [] buf reg = (buf, reg)"
| "report_all ffmt ext prefix now (name # names) buf reg =
     (case map_of reg name of
        None \<Rightarrow> report_all ffmt ext prefix now names buf reg
      | Some m \<Rightarrow>
          (case metric_Report ffmt ext (prefix @ name @ ''.'') buf now m of
             (buf', m') \<Rightarrow> report_all ffmt ext prefix now names buf' (update_metric name (\<lambda>_. m') reg)))"

text \<open>A turn of the reporter: the order of the map and the time that the report took are given.\<close>

definition reporter_turn ::
  "(real \<Rightarrow> bytes) \<Rightarrow> (bytes \<Rightarrow> bytes \<Rightarrow> int \<Rightarrow> bytes) \<Rightarrow> int \<Rightarrow> bytes list \<Rightarrow> int \<Rightarrow> Graphite \<Rightarrow> Graphite" where
  "reporter_turn ffmt ext now names took g =
     (let g1 = queue_length_seen g
      in if g_cap g1 \<noteq> 0 \<and> length (g_queue g1) = g_cap g1 then g1
         else (case report_all ffmt ext (g_prefix g1) now names [] (g_registry g1) of
                 (buf, reg) \<Rightarrow>
                   let reg1 = update_metric ''stats.generate_message.duration'' (set_gauge took) reg;
                       reg2 = update_metric ''stats.message_size'' (set_gauge (int (length buf))) reg1
                   in queue_length_seen (g1\<lparr>g_registry := reg2, g_queue := g_queue g1 @ [buf], g_reported := g_reported g1 @ [buf]\<rparr>)))"

datatype graphite_event = ReportTick int "bytes list" int | WriterReceive | WriterDial bool | WriterWrite bool

definition graphite_step ::
  "(real \<Rightarrow> bytes) \<Rightarrow> (bytes \<Rightarrow> bytes \<Rightarrow> int \<Rightarrow> bytes) \<Rightarrow> graphite_event \<Rightarrow> Graphite \<Rightarrow> Graphite" where
  "graphite_step ffmt ext e g =
     (case e of
        ReportTick now names took \<Rightarrow> reporter_turn ffmt ext now names took g
      | WriterReceive \<Rightarrow>
          (case (g_writing g, g_queue g) of
             (None, buf # rest) \<Rightarrow> set_connected (queue_length_seen (g\<lparr>g_queue := rest, g_writing := Some buf\<rparr>))
           | _ \<Rightarrow> g)
      | WriterDial ok \<Rightarrow>
          if g_writing g \<noteq> None \<and> \<not> g_conn g then set_connected (g\<lparr>g_conn := ok\<rparr>) else g
      | WriterWrite ok \<Rightarrow>
          (case g_writing g of
             Some buf \<Rightarrow>
               if \<not> g_conn g then g
               else if ok then g\<lparr>g_writing := None, g_sent := g_sent g @ [buf]\<rparr>
               else set_connected (g\<lparr>g_conn := False\<rparr>)
           | None \<Rightarrow> g))"

definition graphite_run ::
  "(real \<Rightarrow> bytes) \<Rightarrow> (bytes \<Rightarrow> bytes \<Rightarrow> int \<Rightarrow> bytes) \<Rightarrow> graphite_event list \<Rightarrow> Graphite \<Rightarrow> Graphite" where
  "graphite_run ffmt ext es g = fold (graphite_step ffmt ext) es g"

subsection \<open>Properties\<close>

definition writing_list :: "Graphite \<Rightarrow> bytes list" where
  "writing_list g = (case g_writing g of None \<Rightarrow> [] | Some buf \<Rightarrow> [buf])"

definition graphite_inv :: "Graphite \<Rightarrow> bool" where
  "graphite_inv g \<longleftrightarrow> g_reported g = g_sent g @ writing_list g @ g_queue g \<and> (0 < g_cap g \<longrightarrow> length (g_queue g) \<le> g_cap g)"

lemma seen_fields [simp]:
  "g_queue (queue_length_seen g) = g_queue g" "g_writing (queue_length_seen g) = g_writing g" "g_cap (queue_length_seen g) = g_cap g"
  "g_sent (queue_length_seen g) = g_sent g" "g_reported (queue_length_seen g) = g_reported g" "g_conn (queue_length_seen g) = g_conn g"
  "g_queue (set_connected g) = g_queue g" "g_writing (set_connected g) = g_writing g" "g_cap (set_connected g) = g_cap g"
  "g_sent (set_connected g) = g_sent g" "g_reported (set_connected g) = g_reported g" "g_conn (set_connected g) = g_conn g"
  by (simp_all add: queue_length_seen_def set_connected_def)

lemma graphite_step_inv: "graphite_inv g \<Longrightarrow> graphite_inv (graphite_step ffmt ext e g) \<and> g_cap (graphite_step ffmt ext e g) = g_cap g"
  by (cases e) (auto simp: graphite_inv_def graphite_step_def reporter_turn_def writing_list_def Let_def
      split: prod.splits option.splits list.splits)

lemma graphite_run_inv: "graphite_inv g \<Longrightarrow> graphite_inv (graphite_run ffmt ext es g) \<and> g_cap (graphite_run ffmt ext es g) = g_cap g"
proof (induction es arbitrary: g)
  case (Cons e es)
  then show ?case
    using graphite_step_inv [of g ffmt ext e] Cons.IH [of "graphite_step ffmt ext e g"] by (simp add: graphite_run_def)
qed (simp add: graphite_run_def)

text \<open>The writer, when its dials and writes succeed, empties the channel.\<close>

definition one_delivery :: "graphite_event list" where
  "one_delivery = [WriterReceive, WriterDial True, WriterWrite True]"

lemma writer_empties_channel:
  assumes "g_writing g = None"
  shows "g_sent (graphite_run ffmt ext (concat (replicate (length (g_queue g)) one_delivery)) g) = g_sent g @ g_queue g"
  using assms
proof (induction "length (g_queue g)" arbitrary: g)
  case (Suc n)
  then obtain buf rest where q: "g_queue g = buf # rest" by (cases "g_queue g") auto
  let ?g = "graphite_run ffmt ext one_delivery g"
  have g: "g_queue ?g = rest" "g_writing ?g = None" "g_sent ?g = g_sent g @ [buf]"
    using Suc.prems q by (auto simp: graphite_run_def one_delivery_def graphite_step_def)
  have "graphite_run ffmt ext (concat (replicate (length (g_queue g)) one_delivery)) g =
      graphite_run ffmt ext (concat (replicate (length (g_queue ?g)) one_delivery)) ?g"
    using q g by (simp add: graphite_run_def)
  then show ?case using Suc.hyps(1) [of ?g] Suc.hyps(2) q g by simp
qed (simp add: graphite_run_def)

text \<open>Whatever the interleaving of ticks, dials, writes and failures, the reports written to graphite, the one being
  written and those in the channel are all reports that were made, in order, and the channel never holds more than its
  capacity; once dials and writes succeed, every report in the channel is written.\<close>

theorem reports_are_written_in_order:
  assumes "NewGraphite prefix bufferSize reg = Ok g0" and "0 < bufferSize"
  shows "(let g = graphite_run ffmt ext es g0
    in g_reported g = g_sent g @ writing_list g @ g_queue g \<and> length (g_queue g) \<le> bufferSize \<and>
       (g_writing g = None \<longrightarrow>
          g_sent (graphite_run ffmt ext (concat (replicate (length (g_queue g)) one_delivery)) g) = g_reported g))"
proof -
  have "graphite_inv g0" "g_cap g0 = bufferSize"
    using assms(1) by (auto simp: NewGraphite_def Let_def graphite_inv_def writing_list_def)
  then have inv: "graphite_inv (graphite_run ffmt ext es g0)" "g_cap (graphite_run ffmt ext es g0) = bufferSize"
    using graphite_run_inv by blast+
  then show ?thesis
    using assms(2) writer_empties_channel [of "graphite_run ffmt ext es g0" ffmt ext]
    by (auto simp: Let_def graphite_inv_def writing_list_def)
qed

theorem reports_are_written_in_order_witness:
  "\<exists>g0 g. NewGraphite ''relay'' 10 [] = Ok g0 \<and>
     graphite_run (\<lambda>_. []) (\<lambda>_ _ _. []) [ReportTick (5 * 10 ^ 9) [queueItems] 100, WriterReceive, WriterDial True, WriterWrite True] g0 = g \<and>
     g_reported g = g_sent g \<and> length (g_sent g) = 1"
proof -
  obtain g0 where g0: "NewGraphite ''relay'' 10 [] = Ok g0"
    by (simp add: NewGraphite_def GetOrAdd_def queueItems_def update_metric_def Let_def)
  let ?g = "graphite_run (\<lambda>_. []) (\<lambda>_ _ _. []) [ReportTick (5 * 10 ^ 9) [queueItems] 100, WriterReceive, WriterDial True, WriterWrite True] g0"
  have "g_cap g0 = 10" "g_queue g0 = []" "g_writing g0 = None" "g_conn g0 = False" "g_sent g0 = []"
    using g0 by (auto simp: NewGraphite_def Let_def)
  then have "g_queue ?g = []" "g_writing ?g = None" "length (g_sent ?g) = 1"
    by (auto simp: graphite_run_def graphite_step_def reporter_turn_def Let_def split: prod.splits)
  moreover from this have "g_reported ?g = g_sent ?g"
    using reports_are_written_in_order [OF g0, of "\<lambda>_. []" "\<lambda>_ _ _. []"] by (simp add: Let_def writing_list_def)
  ultimately show ?thesis using g0 by blast
qed

end
