(* ===== verification/Main_Program.thy ===== *)
theory Main_Program
  imports Relay_System Input_Listener Stats_Graphite
begin

text \<open>
  \<^verbatim>\<open>cmd/carbon-relay-ng/carbon-relay-ng.go\<close>: the main program, from its arguments to a running relay, and
  its exit.

  \<^item> \<open>os_Expand\<close> is \<open>os.Expand\<close> of the standard library, which replaces variables in the configuration file before the
    TOML library reads it.
  \<^item> The record \<open>process_env\<close> holds what lies outside: the arguments of the operating system, the files, the TOML
    library and the other libraries that may fail, as whether they succeed, and the starting of the inputs.
  \<^item> Profiling, log formatting and the goroutine that reports memory usage are left out.
\<close>

subsection \<open>Variables of the configuration file\<close>

definition isShellSpecialVar :: "char \<Rightarrow> bool" where
  "isShellSpecialVar c \<longleftrightarrow> c \<in> set ''*#$@!?-'' \<or> is_digit c"

definition getShellName :: "bytes \<Rightarrow> bytes \<times> nat" where
  "getShellName s =
     (if hd s = CHR ''{'' then
        if 2 < length s \<and> isShellSpecialVar (s ! 1) \<and> s ! 2 = CHR ''}'' then ([s ! 1], 3)
        else (case index_byte (tl s) CHR ''}'' of
                None \<Rightarrow> ([], 1)
              | Some 0 \<Rightarrow> ([], 2)
              | Some i \<Rightarrow> (take i (tl s), i + 2))
      else if isShellSpecialVar (hd s) then ([hd s], 1)
      else (takeWhile is_name_char s, length (takeWhile is_name_char s)))"

function os_Expand :: "(bytes \<Rightarrow> bytes) \<Rightarrow> bytes \<Rightarrow> bytes" where
  "os_Expand mapping s =
     (case s of
        [] \<Rightarrow> []
      | c # rest \<Rightarrow>
          if c = CHR ''$'' \<and> rest \<noteq> []
          then (case getShellName rest of
                  (name, w) \<Rightarrow>
                    (if name = [] \<and> w > 0 then [] else if name = [] then [c] else mapping name) @
                    os_Expand mapping (drop w rest))
          else c # os_Expand mapping rest)"
  by pat_completeness auto
termination
  by (relation "measure (\<lambda>(_, s). length s)") auto

declare os_Expand.simps [simp del]

record os_env =
  oe_Hostname :: bytes
  oe_Getenv :: "bytes \<Rightarrow> bytes"

definition expandVars :: "os_env \<Rightarrow> bytes \<Rightarrow> bytes" where
  "expandVars os v =
     (if v = ''HOST'' then hd (split_n (oe_Hostname os) ''.'' 2)
      else if v = ''GRAFANA_NET_ADDR'' then oe_Getenv os ''GRAFANA_NET_ADDR''
      else if v = ''GRAFANA_NET_API_KEY'' then oe_Getenv os ''GRAFANA_NET_API_KEY''
      else if v = ''GRAFANA_NET_USER_ID'' then oe_Getenv os ''GRAFANA_NET_USER_ID''
      else ''$'' @ v)"

definition readConfigFile :: "os_env \<Rightarrow> (bytes \<Rightarrow> bytes option) \<Rightarrow> bytes \<Rightarrow> bytes option" where
  "readConfigFile os read config_file = map_option (os_Expand (expandVars os)) (read config_file)"

subsection \<open>Starting\<close>

record MainConfig =
  mc_Config :: Config
  Listen_addr :: bytes
  Pickle_addr :: bytes
  Admin_addr :: bytes
  Http_addr :: bytes
  Amqp_enabled :: bool
  Instance_id :: bytes
  Log_level :: bytes
  Pid_file :: bytes
  Graphite_addr :: bytes
  Graphite_interval :: int

datatype plugin = PlainListener bytes int | PickleListener bytes int | AmqpPlugin

record process_env =
  pe_os :: os_env
  pe_read :: "bytes \<Rightarrow> bytes option"
  pe_decode :: "bytes \<Rightarrow> (MainConfig \<times> toml_meta) option"
  pe_cpuprofile :: bytes
  pe_level :: "bytes \<Rightarrow> bool"
  pe_create :: "bytes \<Rightarrow> bool"
  pe_resolve :: "bytes \<Rightarrow> bool"
  pe_process_reporter :: bool
  pe_now :: int
  pe_cfg :: cfg_env
  pe_start :: "plugin \<Rightarrow> bool"

datatype process_state = Exits nat | Crashes panic | NeverReady | Running MainConfig tbl "plugin list"

definition inputs_of :: "MainConfig \<Rightarrow> plugin list" where
  "inputs_of c =
     (if Listen_addr c \<noteq> [] then [PlainListener (Listen_addr c) (cf_Plain_read_timeout (mc_Config c))] else []) @
     (if Pickle_addr c \<noteq> [] then [PickleListener (Pickle_addr c) (cf_Pickle_read_timeout (mc_Config c))] else []) @
     (if Amqp_enabled c then [AmqpPlugin] else [])"

text \<open>The reporter of the statistics ticks every \<open>Graphite_interval / 1000\<close> seconds, a quotient that Go truncates.\<close>

definition start_instrumentation :: "process_env \<Rightarrow> MainConfig \<Rightarrow> process_state option" where
  "start_instrumentation env c =
     (if Graphite_addr c = [] then None
      else if \<not> pe_resolve env (Graphite_addr c) \<or> \<not> pe_process_reporter env then Some (Exits 1)
      else (case tick_diff (sgn (Graphite_interval c) * (\<bar>Graphite_interval c\<bar> div 1000) * 10 ^ 9) (pe_now env) of
              Panic p \<Rightarrow> Some (Crashes p)
            | Ok _ \<Rightarrow> None))"

definition start_table :: "process_env \<Rightarrow> MainConfig \<Rightarrow> toml_meta \<Rightarrow> process_state" where
  "start_table env c meta =
     (case Config_TableConfig (mc_Config c) of
        None \<Rightarrow> Exits 1
      | Some tc \<Rightarrow>
          (case InitTable (pe_cfg env) meta (mc_Config c) (table_New tc (\<lambda>_. None)) of
             Panic p \<Rightarrow> Crashes p
           | Ok None \<Rightarrow> NeverReady
           | Ok (Some (t, Some e)) \<Rightarrow> Exits 1
           | Ok (Some (t, None)) \<Rightarrow>
               if Print t = None then NeverReady
               else if list_all (pe_start env) (inputs_of c) then Running c t (inputs_of c)
               else Exits 1))"

definition start_config :: "process_env \<Rightarrow> MainConfig \<Rightarrow> toml_meta \<Rightarrow> process_state" where
  "start_config env c meta =
     (if \<not> pe_level env (Log_level c) then Exits 1
      else if pe_cpuprofile env \<noteq> [] \<and> \<not> pe_create env (pe_cpuprofile env) then Exits 1
      else if length (Instance_id c) = 0 then Exits 1
      else if Pid_file c \<noteq> [] \<and> \<not> pe_create env (Pid_file c) then Exits 1
      else case start_instrumentation env c of
             Some s \<Rightarrow> s
           | None \<Rightarrow> start_table env c meta)"

definition main :: "process_env \<Rightarrow> bytes list \<Rightarrow> process_state" where
  "main env args =
     (if args = [''version''] then Exits 0
      else
        let config_file = (case args of [val] \<Rightarrow> val | _ \<Rightarrow> ''/etc/carbon-relay-ng.ini'')
        in case readConfigFile (pe_os env) (pe_read env) config_file of
             None \<Rightarrow> Exits 1
           | Some config_str \<Rightarrow>
               (case pe_decode env config_str of
                  None \<Rightarrow> Exits 1
                | Some (c, meta) \<Rightarrow> start_config env c meta))"

text \<open>The end: a signal, after which the inputs are stopped and some of them report before the timeout, or an admin
  interface that cannot listen.\<close>

datatype process_event = Signal "bool list" | AdminFails | HttpFails

definition exit_status :: "MainConfig \<Rightarrow> plugin list \<Rightarrow> process_event \<Rightarrow> nat option" where
  "exit_status c inputs e =
     (case e of
        Signal results \<Rightarrow> Some (if manager_Stop (length inputs) results then 0 else 1)
      | AdminFails \<Rightarrow> if Admin_addr c \<noteq> [] then Some 1 else None
      | HttpFails \<Rightarrow> if Http_addr c \<noteq> [] then Some 1 else None)"

subsection \<open>Variables are substituted\<close>

text \<open>A configuration file as a sequence of plain text and of variables, with and without braces.\<close>

datatype segment = Plain_text bytes | Braced bytes | Bare bytes

fun render :: "segment \<Rightarrow> bytes" where
  "render (Plain_text s) = s"
| "render (Braced v) = ''${'' @ v @ ''}''"
| "render (Bare v) = ''$'' @ v"

fun substituted :: "(bytes \<Rightarrow> bytes) \<Rightarrow> segment \<Rightarrow> bytes" where
  "substituted f (Plain_text s) = s"
| "substituted f (Braced v) = f v"
| "substituted f (Bare v) = f v"

definition render_all :: "segment list \<Rightarrow> bytes" where
  "render_all segs = concat (map render segs)"

text \<open>Names in braces contain no closing brace, names without are a letter or an underscore and then as many such
  characters and digits as follow.\<close>

fun segments_ok :: "segment list \<Rightarrow> bool" where
  "segments_ok [] = True"
| "segments_ok (Plain_text s # segs) = (CHR ''$'' \<notin> set s \<and> segments_ok segs)"
| "segments_ok (Braced v # segs) = (v \<noteq> [] \<and> CHR ''}'' \<notin> set v \<and> segments_ok segs)"
| "segments_ok (Bare v # segs) =
     (v \<noteq> [] \<and> list_all is_name_char v \<and> \<not> is_digit (hd v) \<and>
      (render_all segs = [] \<or> \<not> is_name_char (hd (render_all segs))) \<and> segments_ok segs)"

lemma os_Expand_plain: "CHR ''$'' \<notin> set s \<Longrightarrow> os_Expand f (s @ rest) = s @ os_Expand f rest"
  by (induction s) (auto simp: os_Expand.simps)

lemma os_Expand_Nil [simp]: "os_Expand f [] = []"
  by (simp add: os_Expand.simps)

lemma getShellName_braced:
  assumes "v \<noteq> []" and "CHR ''}'' \<notin> set v"
  shows "getShellName (''{'' @ v @ ''}'' @ rest) = (v, length v + 2)"
proof -
  have idx: "index_byte (v @ ''}'' @ rest) CHR ''}'' = Some (length v)"
    using index_byte_append_stop [OF assms(2), of rest] by simp
  obtain c vs where v: "v = c # vs" using assms(1) by (cases v) auto
  show ?thesis
  proof (cases vs)
    case Nil
    then show ?thesis using idx v by (auto simp: getShellName_def split: nat.splits)
  next
    case (Cons d ds)
    then show ?thesis using idx v assms(2) by (auto simp: getShellName_def split: nat.splits)
  qed
qed

lemma getShellName_bare:
  assumes "v \<noteq> []" "list_all is_name_char v" "\<not> is_digit (hd v)" "rest = [] \<or> \<not> is_name_char (hd rest)"
  shows "getShellName (v @ rest) = (v, length v)"
proof -
  have "takeWhile is_name_char (v @ rest) = v"
    using assms(2,4) by (cases rest) (auto simp: list_all_iff takeWhile_append2 takeWhile_tail)
  moreover have "hd (v @ rest) \<noteq> CHR ''{''" "\<not> isShellSpecialVar (hd (v @ rest))"
    using assms(1-3) by (cases v; auto simp: isShellSpecialVar_def is_name_char_def)+
  ultimately show ?thesis by (simp add: getShellName_def)
qed

lemma os_Expand_variable:
  "s \<noteq> [] \<Longrightarrow> getShellName s = (v, w) \<Longrightarrow> v \<noteq> [] \<Longrightarrow> os_Expand f (CHR ''$'' # s) = f v @ os_Expand f (drop w s)"
  by (simp add: os_Expand.simps [of f "CHR ''$'' # s"])

lemma render_all_Cons [simp]: "render_all (s # segs) = render s @ render_all segs"
  by (simp add: render_all_def)

lemma os_Expand_segments: "segments_ok segs \<Longrightarrow> os_Expand f (render_all segs) = concat (map (substituted f) segs)"
proof (induction segs rule: segments_ok.induct)
  case (2 s segs)
  then show ?case by (simp add: os_Expand_plain)
next
  case (3 v segs)
  then show ?case
    using getShellName_braced [of v "render_all segs"]
      os_Expand_variable [of "''{'' @ v @ ''}'' @ render_all segs" v "length v + 2" f] by simp
next
  case (4 v segs)
  then show ?case
    using getShellName_bare [of v "render_all segs"] os_Expand_variable [of "v @ render_all segs" v "length v" f] by simp
qed (simp add: render_all_def)

subsection \<open>Properties\<close>

text \<open>In the configuration file every variable is replaced: the host name up to its first dot, three variables of the
  environment, and any other name by itself with a dollar sign, with or without braces; all other text stays as it is.\<close>

theorem config_variables_are_substituted:
  assumes "segments_ok segs" and "read path = Some (render_all segs)"
  shows "readConfigFile os read path = Some (concat (map (substituted (expandVars os)) segs))"
  using assms by (simp add: readConfigFile_def os_Expand_segments)

definition example_os :: os_env where
  "example_os = \<lparr>oe_Hostname = ''relay1.example.org'', oe_Getenv = (\<lambda>_. [])\<rparr>"

theorem config_variables_are_substituted_witness:
  "readConfigFile example_os (\<lambda>_. Some ''i = ${HOST} x = a_$b ${c}_d'') ''f'' = Some ''i = relay1 x = a_$b $c_d''"
proof -
  let ?segs = "[Plain_text ''i = '', Braced ''HOST'', Plain_text '' x = a_'', Bare ''b'', Plain_text '' '', Braced ''c'', Plain_text ''_d'']"
  have "segments_ok ?segs" by code_simp
  moreover have "render_all ?segs = ''i = ${HOST} x = a_$b ${c}_d''" by (simp add: render_all_def)
  moreover have "concat (map (substituted (expandVars example_os)) ?segs) = ''i = relay1 x = a_$b $c_d''" by code_simp
  ultimately show ?thesis
    using config_variables_are_substituted [of ?segs "\<lambda>_. Some ''i = ${HOST} x = a_$b ${c}_d''" "''f''" example_os] by simp
qed

text \<open>The braces of other variables are lost: \<open>${1}_count\<close> in a rewriter, which means the first group, becomes
  \<open>$1_count\<close>, which means a group of that name, and nothing is left of it.\<close>

theorem braces_of_groups_are_lost:
  "os_Expand (expandVars os) ''${1}_count'' = ''$1_count''"
  "Expand ''${1}_count'' ''app'' (0, 3, [(1, (0, 3))]) = ''app_count''"
  "Expand ''$1_count'' ''app'' (0, 3, [(1, (0, 3))]) = []"
proof -
  have "segments_ok [Braced ''1'', Plain_text ''_count'']" by code_simp
  from os_Expand_segments [OF this] show "os_Expand (expandVars os) ''${1}_count'' = ''$1_count''"
    by (simp add: render_all_def expandVars_def)
  show "Expand ''${1}_count'' ''app'' (0, 3, [(1, (0, 3))]) = ''app_count''" by code_simp
  show "Expand ''$1_count'' ''app'' (0, 3, [(1, (0, 3))]) = []" by code_simp
qed

lemma instrumentation_not_Running: "start_instrumentation env c \<noteq> Some (Running c' t inputs)"
  by (simp add: start_instrumentation_def split: outcome.split)

lemma main_Running:
  assumes "main env args = Running c t inputs"
  obtains meta tc where "Config_TableConfig (mc_Config c) = Some tc" "inputs = inputs_of c" "\<forall>p \<in> set inputs. pe_start env p"
    "InitTable (pe_cfg env) meta (mc_Config c) (table_New tc (\<lambda>_. None)) = Ok (Some (t, None))" "Instance_id c \<noteq> []"
proof -
  obtain path str c0 meta where f: "readConfigFile (pe_os env) (pe_read env) path = Some str" "pe_decode env str = Some (c0, meta)"
    "start_config env c0 meta = Running c t inputs"
    using assms by (auto simp: main_def Let_def split: if_splits option.splits list.splits)
  then have s: "start_table env c0 meta = Running c t inputs" "Instance_id c0 \<noteq> []"
    using instrumentation_not_Running by (auto simp: start_config_def split: if_splits option.splits)
  then obtain tc where "Config_TableConfig (mc_Config c0) = Some tc" "c0 = c" "inputs = inputs_of c0" "list_all (pe_start env) (inputs_of c0)"
    "InitTable (pe_cfg env) meta (mc_Config c0) (table_New tc (\<lambda>_. None)) = Ok (Some (t, None))"
    by (auto simp: start_table_def split: option.splits outcome.splits if_splits)
  with s show ?thesis by (intro that) (auto simp: list_all_iff)
qed

text \<open>C35: A relay that has started has a name, runs the inputs of its configuration, and its table takes every line, as does
  every table it becomes later (\<open>reachable\<close>), when the aggregations of the file have regular expressions and the GrafanaNet
  routes shards. It exits with 0 only after a signal, if it has inputs and all of them stop in time.\<close>

theorem started_relay_takes_every_line:
  assumes "main env args = Running c t inputs" and "accepts_lines vp"
    and "\<forall>a \<in> set (cf_Aggregation (mc_Config c)). ac_Regex a \<noteq> []"
    and "\<forall>g. Grafana g \<in> set (routes (t_config t)) \<longrightarrow> 0 < Concurrency (gn_Cfg g) \<and> Concurrency (gn_Cfg g) < 2 ^ 32"
  shows "Instance_id c \<noteq> [] \<and> inputs = inputs_of c \<and> (\<exists>meta. reachable (pe_cfg env) meta (mc_Config c) vp t) \<and>
    (\<exists>t'. Dispatch (relay_ms (cg_cmd (pe_cfg env))) vp now buf t = Ok t') \<and>
    (exit_status c inputs e = Some 0 \<longrightarrow> inputs \<noteq> [] \<and> (\<exists>results. e = Signal results))"
proof -
  obtain meta tc where m: "Config_TableConfig (mc_Config c) = Some tc" "inputs = inputs_of c" "Instance_id c \<noteq> []"
    "InitTable (pe_cfg env) meta (mc_Config c) (table_New tc (\<lambda>_. None)) = Ok (Some (t, None))"
    using main_Running [OF assms(1)] by blast
  have r: "reachable (pe_cfg env) meta (mc_Config c) vp t"
    by (rule reachable.start [OF m(1,4)])
  have "\<not> manager_Stop 0 results" for results
  proof -
    have "collect_results 0 rs cnt success = None" for rs cnt success
      by (induction rs arbitrary: cnt success) simp_all
    then show ?thesis by (simp add: manager_Stop_def)
  qed
  then have "exit_status c inputs e = Some 0 \<longrightarrow> inputs \<noteq> [] \<and> (\<exists>results. e = Signal results)"
    by (auto simp: exit_status_def split: process_event.splits if_splits)
  with m r reachable_takes_lines [OF r assms(2-4)] show ?thesis by blast
qed

definition example_main_config :: MainConfig where
  "example_main_config = \<lparr>mc_Config = small_config, Listen_addr = '':2003'', Pickle_addr = [], Admin_addr = [], Http_addr = [],
     Amqp_enabled = False, Instance_id = ''relay1'', Log_level = ''info'', Pid_file = [], Graphite_addr = [],
     Graphite_interval = 0\<rparr>"

definition example_process :: process_env where
  "example_process = \<lparr>pe_os = example_os, pe_read = (\<lambda>path. if path = ''relay.ini'' then Some [] else None),
     pe_decode = (\<lambda>_. Some (example_main_config, \<lambda>_. None)), pe_cpuprofile = [], pe_level = (\<lambda>_. True),
     pe_create = (\<lambda>_. True), pe_resolve = (\<lambda>_. True), pe_process_reporter = True, pe_now = 0, pe_cfg = example_cfg_env,
     pe_start = (\<lambda>_. True)\<rparr>"

lemma example_main:
  "main example_process [''relay.ini''] =
     Running example_main_config (relay_table [prefix_matcher ''foo''] []) [PlainListener '':2003'' 120000000000]"
proof -
  have "Print (relay_table [prefix_matcher ''foo''] []) \<noteq> None"
    by (simp add: Print_def tbl_Snapshot_def relay_table_def table_New_def)
  then show ?thesis
    by (simp add: main_def readConfigFile_def example_process_def start_config_def start_instrumentation_def start_table_def
        example_main_config_def small_config_loads inputs_of_def)
      (simp add: small_config_def NewConfig_def)
qed

theorem started_relay_takes_every_line_witness:
  "main example_process [''relay.ini''] =
     Running example_main_config (relay_table [prefix_matcher ''foo''] []) [PlainListener '':2003'' 120000000000] \<and>
   (\<exists>t'. Dispatch (relay_ms example_cmd_env) example_validator 5 ''foo 1 10'' (relay_table [prefix_matcher ''foo''] []) = Ok t')"
proof -
  have "routes (t_config (relay_table [prefix_matcher ''foo''] [])) = []" "cf_Aggregation (mc_Config example_main_config) = []"
    "cg_cmd (pe_cfg example_process) = example_cmd_env"
    by (simp_all add: relay_table_def table_New_def example_main_config_def small_config_def NewConfig_def example_process_def
        example_cfg_env_def)
  then show ?thesis
    using started_relay_takes_every_line [OF example_main example_validator_accepts, of 5 "''foo 1 10''"] example_main by simp
qed

text \<open>A graphite interval below one second, or none, makes the reporter of the statistics divide by zero.\<close>

theorem short_graphite_interval_crashes:
  assumes "pe_level env (Log_level c)" "pe_cpuprofile env = []" "Instance_id c \<noteq> []" "Pid_file c = []"
    and "Graphite_addr c \<noteq> []" "pe_resolve env (Graphite_addr c)" "pe_process_reporter env" "\<bar>Graphite_interval c\<bar> < 1000"
  shows "start_config env c meta = Crashes DivisionByZero"
  using assms by (simp add: start_config_def start_instrumentation_def tick_diff_def)

end
