(* ===== verification/Nsqd_Message.thy ===== *)
theory Nsqd_Message
  imports Nsqd_DiskQueue
begin

text \<open>
  \<^verbatim>\<open>nsqd/message.go\<close> and \<^verbatim>\<open>nsqd/queue.go\<close>: the encoding of a message, the queue that swallows
  everything, and the writing of a message to a queue. The \<open>io.Writer\<close> of \<open>WriteTo\<close> is a function
  from the bytes and its state to the new state, the number of bytes taken and whether it failed;
  the \<open>Put\<close> of a back end is a function of its state.
\<close>

record Message =
  ID :: bytes
  Body :: bytes
  Timestamp :: uint64
  Attempts :: uint16

definition NewMessage :: "bytes \<Rightarrow> bytes \<Rightarrow> uint64 \<Rightarrow> Message" where
  "NewMessage i body now = \<lparr>ID = i, Body = body, Timestamp = now, Attempts = 0\<rparr>"

text \<open>\<open>binary.BigEndian\<close>: the \<open>k\<close> bytes of a number, most significant first.\<close>

fun be_bytes :: "nat \<Rightarrow> nat \<Rightarrow> bytes" where
  "be_bytes 0 n = []"
| "be_bytes (Suc k) n = be_bytes k (n div 256) @ [char_of (n mod 256)]"

type_synonym 's io_writer = "bytes \<Rightarrow> 's \<Rightarrow> 's \<times> nat \<times> bool"

fun write_all :: "'s io_writer \<Rightarrow> bytes list \<Rightarrow> 's \<Rightarrow> nat \<Rightarrow> 's \<times> nat \<times> bool" where
  "write_all w [] s n0 = (s, n0, True)"
| "write_all w (b # bs) s n0 =
     (case w b s of
        (s', n, ok) \<Rightarrow> if ok then write_all w bs s' (n0 + n) else (s', n0 + n, False))"

definition WriteTo :: "Message \<Rightarrow> 's io_writer \<Rightarrow> 's \<Rightarrow> 's \<times> nat \<times> bool" where
  "WriteTo m w s =
     write_all w [be_bytes 8 (unat (Timestamp m)) @ be_bytes 2 (unat (Attempts m)), ID m, Body m] s 0"

definition decodeMessage :: "bytes \<Rightarrow> (dq_error + Message) outcome" where
  "decodeMessage b =
     (if length b < 10 then Panic IndexOutOfRange
      else
        let buf = drop 10 b
        in if length buf < 16 then Ok (Inl (if buf = [] then ErrEOF else ErrUnexpectedEOF))
           else Ok (Inr \<lparr>ID = take 16 buf, Body = drop 16 buf,
                        Timestamp = word_of_int (be_val (take 8 b)),
                        Attempts = word_of_int (be_val (take 2 (drop 8 b)))\<rparr>))"

text \<open>A \<open>bytes.Buffer\<close> takes everything.\<close>

definition buffer_write :: "bytes io_writer" where
  "buffer_write b s = (s @ b, length b, True)"

definition writeMessageToBackend :: "Message \<Rightarrow> (bytes \<Rightarrow> 'q \<Rightarrow> 'q \<times> dq_error option) \<Rightarrow> 'q \<Rightarrow> 'q \<times> dq_error option" where
  "writeMessageToBackend m put q =
     (case WriteTo m buffer_write [] of
        (buf, _, ok) \<Rightarrow> if \<not> ok then (q, Some ErrWrite) else put buf q)"

definition dummy_Put :: "bytes \<Rightarrow> unit \<Rightarrow> unit \<times> dq_error option" where
  "dummy_Put b q = (q, None)"

definition dummy_Depth :: "unit \<Rightarrow> int" where
  "dummy_Depth q = 0"

lemma length_be_bytes [simp]: "length (be_bytes k n) = k"
  by (induction k arbitrary: n) auto

lemma be_val_snoc [simp]: "be_val (s @ [c]) = 256 * be_val s + of_char c"
  by (simp add: be_val_def)

lemma of_char_int: "(of_char (char_of (n :: nat)) :: int) = int (n mod 256)"
  using of_nat_of_char [of "char_of n :: char", where ?'a = int] by simp

lemma be_val_be_bytes: "be_val (be_bytes k n) = int (n mod 256 ^ k)"
proof (induction k arbitrary: n)
  case 0
  then show ?case by (simp add: be_val_def)
next
  case (Suc k)
  then show ?case by (simp add: mod_mult2_eq of_char_int)
qed

text \<open>a message read back from its encoding is the message written, and what is too short for a
  header panics rather than being reported.\<close>

theorem message_roundtrip:
  assumes "length (ID m) = 16"
  shows "decodeMessage (fst (WriteTo m buffer_write [])) = Ok (Inr m)"
proof -
  have "be_val (be_bytes 8 (unat (Timestamp m))) = int (unat (Timestamp m))"
    "be_val (be_bytes 2 (unat (Attempts m))) = int (unat (Attempts m))"
    using unsigned_less [of "Timestamp m", where ?'a = nat] unsigned_less [of "Attempts m", where ?'a = nat]
    by (simp_all add: be_val_be_bytes)
  then show ?thesis
    using assms by (cases m) (simp add: WriteTo_def buffer_write_def decodeMessage_def Let_def)
qed

theorem message_roundtrip_witness:
  "decodeMessage (fst (WriteTo (NewMessage ''0123456789abcdef'' ''foo.bar 1 2'' 1500000000) buffer_write [])) =
   Ok (Inr (NewMessage ''0123456789abcdef'' ''foo.bar 1 2'' 1500000000))"
  by (rule message_roundtrip) (simp add: NewMessage_def)

end
