(* ===== verification/Route_GrafanaPost.thy ===== *)
theory Route_GrafanaPost
  imports Route_GrafanaNet
begin

text \<open>
  The posts of \<^verbatim>\<open>route/grafananet.go\<close>: the request for a batch, and what \<open>flush\<close> makes of its answer
  (\<^verbatim>\<open>route/grafananet_response.go\<close>). \<^theory_text>\<open>Route_GrafanaNet\<close> knows of an answer only its status; the theorem shows when that
  is all that counts.

  \<^item> \<open>decode\<close> is the JSON library on a body; the entries of \<open>ValidationErrors\<close> come in the order in which Go goes through the
    map. A body that cannot be read is \<open>None\<close>.
  \<^item> Of the warning that is logged only the numbers and the examples are modelled. Looking up an example is what can panic.
\<close>

record ValidationError =
  ve_Count :: int
  ExampleIds :: "int list"

record MetricsResponse =
  Invalid :: int
  Published :: int
  ValidationErrors :: "(bytes \<times> ValidationError) list"

record http_answer =
  StatusCode :: int
  ha_body :: "bytes option"

datatype post_error = TransportError | HttpError int

text \<open>The headers of a request for metrics.\<close>

definition post_headers :: "GrafanaNetConfig \<Rightarrow> bytes \<Rightarrow> bytes \<Rightarrow> (bytes \<times> bytes) list" where
  "post_headers cfg UserAgent Instance =
     [(''Authorization'', ''Bearer '' @ ApiKey cfg), (''Content-Type'', ''rt-metric-binary-snappy''), (''User-Agent'', UserAgent),
      (''Carbon-Relay-NG-Instance'', Instance)]"

definition http_ok :: "int \<Rightarrow> bool" where
  "http_ok status \<longleftrightarrow> status \<ge> 200 \<and> status < 300"

fun lookup_examples :: "MetricData list \<Rightarrow> int list \<Rightarrow> MetricData list outcome" where
  "lookup_examples mda [] = Ok []"
| "lookup_examples mda (i # is) =
     (if i < 0 \<or> i \<ge> int (length mda) then Panic IndexOutOfRange
      else bind_outcome (lookup_examples mda is) (\<lambda>ms. Ok (mda ! nat i # ms)))"

fun warn_examples ::
  "MetricData list \<Rightarrow> (bytes \<times> ValidationError) list \<Rightarrow> (bytes \<times> int \<times> MetricData list) list outcome" where
  "warn_examples mda [] = Ok []"
| "warn_examples mda ((key, vErr) # errs) =
     bind_outcome (lookup_examples mda (ExampleIds vErr)) (\<lambda>ms.
       bind_outcome (warn_examples mda errs) (\<lambda>rest. Ok ((key, ve_Count vErr, ms) # rest)))"

text \<open>\<open>flush\<close>: its error, and the warning.\<close>

definition gn_flush ::
  "(bytes \<Rightarrow> MetricsResponse option) \<Rightarrow> MetricData list \<Rightarrow> http_answer option \<Rightarrow>
     (post_error option \<times> (int \<times> int \<times> (bytes \<times> int \<times> MetricData list) list) option) outcome" where
  "gn_flush decode mda answer =
     (case answer of
        None \<Rightarrow> Ok (Some TransportError, None)
      | Some resp \<Rightarrow>
          if http_ok (StatusCode resp)
          then (case ha_body resp of
                  None \<Rightarrow> Ok (None, None)
                | Some bod \<Rightarrow>
                    (case decode bod of
                       None \<Rightarrow> Ok (None, None)
                     | Some mResp \<Rightarrow>
                         if Invalid mResp \<noteq> 0
                         then bind_outcome (warn_examples mda (ValidationErrors mResp)) (\<lambda>ws.
                                Ok (None, Some (Invalid mResp, Published mResp, ws)))
                         else Ok (None, None)))
          else Ok (Some (HttpError (StatusCode resp)), None))"

text \<open>The loop of \<open>retryFlush\<close>: the number of failed posts before the one that succeeds, if any does.\<close>

fun post_loop :: "(bytes \<Rightarrow> MetricsResponse option) \<Rightarrow> MetricData list \<Rightarrow> http_answer option list \<Rightarrow> nat option outcome" where
  "post_loop decode mda [] = Ok None"
| "post_loop decode mda (a # as) =
     bind_outcome (gn_flush decode mda a) (\<lambda>(err, _).
       if err = None then Ok (Some 0) else bind_outcome (post_loop decode mda as) (\<lambda>n. Ok (map_option Suc n)))"

subsection \<open>Properties\<close>

definition accepted_answer :: "http_answer option \<Rightarrow> bool" where
  "accepted_answer a \<longleftrightarrow> (case a of None \<Rightarrow> False | Some resp \<Rightarrow> http_ok (StatusCode resp))"

text \<open>The examples that an answer names are metrics of the batch.\<close>

definition examples_in_batch :: "(bytes \<Rightarrow> MetricsResponse option) \<Rightarrow> MetricData list \<Rightarrow> http_answer option \<Rightarrow> bool" where
  "examples_in_batch decode mda a \<longleftrightarrow>
     (case a of None \<Rightarrow> True | Some resp \<Rightarrow>
        (case ha_body resp of None \<Rightarrow> True | Some bod \<Rightarrow>
           (case decode bod of None \<Rightarrow> True | Some m \<Rightarrow>
              Invalid m = 0 \<or> (\<forall>(key, v) \<in> set (ValidationErrors m). \<forall>i \<in> set (ExampleIds v). 0 \<le> i \<and> i < int (length mda)))))"

lemma lookup_examples_eq:
  "lookup_examples mda is =
     (if \<forall>i \<in> set is. 0 \<le> i \<and> i < int (length mda) then Ok (map (\<lambda>i. mda ! nat i) is) else Panic IndexOutOfRange)"
  by (induction "is") auto

lemma warn_examples_eq:
  "warn_examples mda errs =
     (if \<forall>(key, v) \<in> set errs. \<forall>i \<in> set (ExampleIds v). 0 \<le> i \<and> i < int (length mda)
      then Ok (map (\<lambda>(key, v). (key, ve_Count v, map (\<lambda>i. mda ! nat i) (ExampleIds v))) errs) else Panic IndexOutOfRange)"
  by (induction mda errs rule: warn_examples.induct) (auto simp: lookup_examples_eq)

lemma flush_rejected: "\<not> accepted_answer a \<Longrightarrow> \<exists>e. gn_flush decode mda a = Ok (Some e, None)"
  by (auto simp: accepted_answer_def gn_flush_def split: option.splits)

lemma flush_accepted:
  assumes "accepted_answer a"
  shows "if examples_in_batch decode mda a then \<exists>w. gn_flush decode mda a = Ok (None, w)
    else gn_flush decode mda a = Panic IndexOutOfRange"
proof -
  obtain resp where a: "a = Some resp" "http_ok (StatusCode resp)"
    using assms by (auto simp: accepted_answer_def split: option.splits)
  show ?thesis
  proof (cases "ha_body resp")
    case (Some bod)
    then show ?thesis
      using a by (cases "decode bod") (simp_all add: gn_flush_def examples_in_batch_def warn_examples_eq)
  qed (simp add: a gn_flush_def examples_in_batch_def)
qed

text \<open>C39: A batch is posted until the first answer with a status of success, whatever its body, and that is the number of failed
  posts by the statuses alone; but when that answer names an example that is not in the batch the relay panics.\<close>

theorem posts_end_with_first_success:
  "post_loop decode mda answers =
     (case dropWhile (\<lambda>a. \<not> accepted_answer a) answers of
        [] \<Rightarrow> Ok None
      | a # _ \<Rightarrow> if examples_in_batch decode mda a then Ok (failed_posts (map (map_option StatusCode) answers))
                 else Panic IndexOutOfRange)"
proof (induction answers)
  case (Cons a as)
  show ?case
  proof (cases "accepted_answer a")
    case True
    then have "failed_posts (map (map_option StatusCode) (a # as)) = Some 0"
      by (auto simp: accepted_answer_def http_ok_def split: option.splits)
    then show ?thesis using flush_accepted [OF True, of decode mda] True by (auto split: if_splits)
  next
    case False
    then obtain e where e: "gn_flush decode mda a = Ok (Some e, None)" using flush_rejected by blast
    have "failed_posts (map (map_option StatusCode) (a # as)) = map_option Suc (failed_posts (map (map_option StatusCode) as))"
      using False by (auto simp: accepted_answer_def http_ok_def split: option.splits)
    have "post_loop decode mda (a # as) = bind_outcome (post_loop decode mda as) (\<lambda>n. Ok (map_option Suc n))"
      using e by simp
    moreover have "dropWhile (\<lambda>a. \<not> accepted_answer a) (a # as) = dropWhile (\<lambda>a. \<not> accepted_answer a) as"
      using False by simp
    ultimately show ?thesis
      using \<open>failed_posts (map (map_option StatusCode) (a # as)) = _\<close> unfolding Cons.IH
      by (cases "dropWhile (\<lambda>a. \<not> accepted_answer a) as") simp_all
  qed
qed simp

text \<open>An answer that means the whole batch by the index of its end.\<close>

theorem example_past_the_batch_panics:
  "post_loop (\<lambda>_. Some \<lparr>Invalid = 1, Published = 0, ValidationErrors = [(''invalid mtype'', \<lparr>ve_Count = 1, ExampleIds = [1]\<rparr>)]\<rparr>)
     [md] [Some \<lparr>StatusCode = 200, ha_body = Some ''{}''\<rparr>] = Panic IndexOutOfRange"
  by (simp add: gn_flush_def http_ok_def)

end
