(* ===== verification/Stats_Registry.thy ===== *)
theory Stats_Registry
  imports Stats_Graphite
begin

text \<open>
  The operations of the metrics of \<^verbatim>\<open>statsmt/\<close> that \<^theory_text>\<open>Stats_Metrics\<close> leaves out: constructors, which register the metric
  under its name, setters, the statistics of Kafka consumers (\<^verbatim>\<open>statsmt/kafka.go\<close>), the null output
  (\<^verbatim>\<open>statsmt/out_devnull.go\<close>), and the registry as all of them use it.

  \<^item> A constructor asserts that what the registry has under the name is of its own type; \<open>registry_keeps_types\<close> shows that
    the assertion holds. \<open>int\<close> arguments are converted to the width of the metric.
\<close>

subsection \<open>Setters\<close>

definition Gauge32_AddUint32 :: "uint32 \<Rightarrow> uint32 \<Rightarrow> uint32" where
  "Gauge32_AddUint32 val g = g + val"

definition Gauge32_DecUint32 :: "uint32 \<Rightarrow> uint32 \<Rightarrow> uint32" where
  "Gauge32_DecUint32 val g = g + NOT (val - 1)"

definition Gauge32_Set :: "int \<Rightarrow> uint32 \<Rightarrow> uint32" where
  "Gauge32_Set val g = word_of_int val"

definition Gauge32_SetUint32 :: "uint32 \<Rightarrow> uint32 \<Rightarrow> uint32" where
  "Gauge32_SetUint32 val g = val"

definition Gauge64_AddUint64 :: "uint64 \<Rightarrow> uint64 \<Rightarrow> uint64" where
  "Gauge64_AddUint64 val g = g + val"

definition Gauge64_DecUint64 :: "uint64 \<Rightarrow> uint64 \<Rightarrow> uint64" where
  "Gauge64_DecUint64 val g = g + NOT (val - 1)"

definition Gauge64_Set :: "int \<Rightarrow> uint64 \<Rightarrow> uint64" where
  "Gauge64_Set val g = word_of_int val"

definition Gauge64_SetUint64 :: "uint64 \<Rightarrow> uint64 \<Rightarrow> uint64" where
  "Gauge64_SetUint64 val g = val"

definition Counter32_SetUint32 :: "uint32 \<Rightarrow> uint32 \<Rightarrow> uint32" where
  "Counter32_SetUint32 val c = val"

definition Counter32_Inc :: "uint32 \<Rightarrow> uint32" where
  "Counter32_Inc c = c + 1"

definition Counter32_AddUint32 :: "uint32 \<Rightarrow> uint32 \<Rightarrow> uint32" where
  "Counter32_AddUint32 val c = c + val"

definition Counter64_SetUint64 :: "uint64 \<Rightarrow> uint64 \<Rightarrow> uint64" where
  "Counter64_SetUint64 val c = val"

definition Counter64_Inc :: "uint64 \<Rightarrow> uint64" where
  "Counter64_Inc c = c + 1"

definition CounterRate32_SetUint32 :: "uint32 \<Rightarrow> CounterRate32 \<Rightarrow> CounterRate32" where
  "CounterRate32_SetUint32 val c = c\<lparr>cr_val := val\<rparr>"

definition CounterRate32_Inc :: "CounterRate32 \<Rightarrow> CounterRate32" where
  "CounterRate32_Inc c = c\<lparr>cr_val := cr_val c + 1\<rparr>"

definition CounterRate32_AddUint32 :: "uint32 \<Rightarrow> CounterRate32 \<Rightarrow> CounterRate32" where
  "CounterRate32_AddUint32 val c = c\<lparr>cr_val := cr_val c + val\<rparr>"

definition TimeDiffReporter32_Set :: "uint32 \<Rightarrow> uint32 \<Rightarrow> uint32" where
  "TimeDiffReporter32_Set target t = target"

definition Bool_SetTrue :: "uint32 \<Rightarrow> uint32" where
  "Bool_SetTrue b = 1"

definition Bool_SetFalse :: "uint32 \<Rightarrow> uint32" where
  "Bool_SetFalse b = 0"

definition Range32_Value_int :: "int \<Rightarrow> Range32 \<Rightarrow> Range32" where
  "Range32_Value_int val r = Range32_Value (word_of_int val) r"

definition Meter32_Value :: "(uint32 \<Rightarrow> uint32) \<Rightarrow> int \<Rightarrow> Meter32 \<Rightarrow> Meter32" where
  "Meter32_Value lin val m = ValueUint32 lin (word_of_int val) m"

definition Meter32_Values :: "(uint32 \<Rightarrow> uint32) \<Rightarrow> int \<Rightarrow> int \<Rightarrow> Meter32 \<Rightarrow> Meter32" where
  "Meter32_Values lin val num m = ValuesUint32 lin (word_of_int val) (word_of_int num) m"

subsection \<open>Constructors\<close>

definition NewGauge32 :: "bytes \<Rightarrow> Registry \<Rightarrow> Registry outcome" where
  "NewGauge32 name reg = GetOrAdd name (MGauge32 0) reg"

definition NewGauge64 :: "bytes \<Rightarrow> Registry \<Rightarrow> Registry outcome" where
  "NewGauge64 name reg = GetOrAdd name (MGauge64 0) reg"

definition NewCounter32 :: "bytes \<Rightarrow> Registry \<Rightarrow> Registry outcome" where
  "NewCounter32 name reg = GetOrAdd name (MCounter32 0) reg"

definition NewCounter64 :: "bytes \<Rightarrow> Registry \<Rightarrow> Registry outcome" where
  "NewCounter64 name reg = GetOrAdd name (MCounter64 0) reg"

definition NewCounterRate32 :: "bytes \<Rightarrow> int \<Rightarrow> Registry \<Rightarrow> Registry outcome" where
  "NewCounterRate32 name now reg = GetOrAdd name (MCounterRate32 \<lparr>cr_prev = 0, cr_val = 0, cr_since = now\<rparr>) reg"

definition NewTimeDiffReporter32 :: "bytes \<Rightarrow> uint32 \<Rightarrow> Registry \<Rightarrow> Registry outcome" where
  "NewTimeDiffReporter32 name target reg = GetOrAdd name (MTimeDiff target) reg"

definition NewBool :: "bytes \<Rightarrow> Registry \<Rightarrow> Registry outcome" where
  "NewBool name reg = GetOrAdd name (MBool 0) reg"

text \<open>The metrics of a partition, and of the partitions of a consumer.\<close>

definition NewKafkaPartition :: "bytes \<Rightarrow> Registry \<Rightarrow> Registry outcome" where
  "NewKafkaPartition prefix reg =
     bind_outcome (GetOrAdd (prefix @ ''.offset'') (MGauge64 0) reg) (\<lambda>reg.
       bind_outcome (GetOrAdd (prefix @ ''.log_size'') (MGauge64 0) reg) (\<lambda>reg.
         GetOrAdd (prefix @ ''.lag'') (MGauge64 0) reg))"

fun NewKafka :: "bytes \<Rightarrow> int list \<Rightarrow> Registry \<Rightarrow> Registry outcome" where
  "NewKafka prefix [] reg = Ok reg"
| "NewKafka prefix (part # parts) reg =
     bind_outcome (NewKafkaPartition (prefix @ ''.partition.'' @ format_int part) reg) (NewKafka prefix parts)"

text \<open>A turn of the null output: every metric reports into a buffer that is thrown away.\<close>

fun devnull_turn :: "(real \<Rightarrow> bytes) \<Rightarrow> (bytes \<Rightarrow> bytes \<Rightarrow> int \<Rightarrow> bytes) \<Rightarrow> int \<Rightarrow> bytes list \<Rightarrow> Registry \<Rightarrow> Registry" where
  "devnull_turn ffmt ext now [] reg = reg"
| "devnull_turn ffmt ext now (name # names) reg =
     (case map_of reg name of
        None \<Rightarrow> devnull_turn ffmt ext now names reg
      | Some m \<Rightarrow>
          (case metric_Report ffmt ext [] [] now m of
             (_, m') \<Rightarrow> devnull_turn ffmt ext now names (update_metric name (\<lambda>_. m') reg)))"

subsection \<open>The registry in use\<close>

datatype metric_change = ChInc | ChDec | ChAdd int | ChSet int | ChSetBool bool | ChValues int int

fun change_metric :: "(uint32 \<Rightarrow> uint32) \<Rightarrow> metric_change \<Rightarrow> metric \<Rightarrow> metric" where
  "change_metric lin ChInc (MGauge32 g) = MGauge32 (Gauge32_Inc g)"
| "change_metric lin ChDec (MGauge32 g) = MGauge32 (Gauge32_Dec g)"
| "change_metric lin (ChAdd val) (MGauge32 g) = MGauge32 (Gauge32_Add val g)"
| "change_metric lin (ChSet val) (MGauge32 g) = MGauge32 (Gauge32_Set val g)"
| "change_metric lin ChInc (MGauge64 g) = MGauge64 (Gauge64_Inc g)"
| "change_metric lin ChDec (MGauge64 g) = MGauge64 (Gauge64_Dec g)"
| "change_metric lin (ChAdd val) (MGauge64 g) = MGauge64 (Gauge64_Add val g)"
| "change_metric lin (ChSet val) (MGauge64 g) = MGauge64 (Gauge64_Set val g)"
| "change_metric lin ChInc (MCounter32 c) = MCounter32 (Counter32_Inc c)"
| "change_metric lin (ChAdd val) (MCounter32 c) = MCounter32 (Counter32_Add val c)"
| "change_metric lin (ChSet val) (MCounter32 c) = MCounter32 (Counter32_SetUint32 (word_of_int val) c)"
| "change_metric lin ChInc (MCounter64 c) = MCounter64 (Counter64_Inc c)"
| "change_metric lin (ChAdd val) (MCounter64 c) = MCounter64 (Counter64_AddUint64 (word_of_int val) c)"
| "change_metric lin (ChSet val) (MCounter64 c) = MCounter64 (Counter64_SetUint64 (word_of_int val) c)"
| "change_metric lin ChInc (MCounterRate32 c) = MCounterRate32 (CounterRate32_Inc c)"
| "change_metric lin (ChAdd val) (MCounterRate32 c) = MCounterRate32 (CounterRate32_Add val c)"
| "change_metric lin (ChSet val) (MCounterRate32 c) = MCounterRate32 (CounterRate32_SetUint32 (word_of_int val) c)"
| "change_metric lin (ChSet val) (MTimeDiff t) = MTimeDiff (TimeDiffReporter32_Set (word_of_int val) t)"
| "change_metric lin (ChSetBool val) (MBool b) = MBool (Bool_Set val)"
| "change_metric lin (ChValues val num) (MMeter32 m) = MMeter32 (Meter32_Values lin val num m)"
| "change_metric lin (ChSet val) (MRange32 r) = MRange32 (Range32_Value_int val r)"
| "change_metric lin ch m = m"

datatype registry_op = RNew bytes metric | RChange bytes metric_change | RReport int "bytes list" | RDevnull int "bytes list"

definition registry_step ::
  "(uint32 \<Rightarrow> uint32) \<Rightarrow> (real \<Rightarrow> bytes) \<Rightarrow> (bytes \<Rightarrow> bytes \<Rightarrow> int \<Rightarrow> bytes) \<Rightarrow> bytes \<Rightarrow> registry_op \<Rightarrow> Registry \<Rightarrow> Registry outcome" where
  "registry_step lin ffmt ext prefix op reg =
     (case op of
        RNew name m \<Rightarrow> GetOrAdd name m reg
      | RChange name ch \<Rightarrow> Ok (update_metric name (change_metric lin ch) reg)
      | RReport now names \<Rightarrow> Ok (snd (report_all ffmt ext prefix now names [] reg))
      | RDevnull now names \<Rightarrow> Ok (devnull_turn ffmt ext now names reg))"

fun registry_run ::
  "(uint32 \<Rightarrow> uint32) \<Rightarrow> (real \<Rightarrow> bytes) \<Rightarrow> (bytes \<Rightarrow> bytes \<Rightarrow> int \<Rightarrow> bytes) \<Rightarrow> bytes \<Rightarrow> registry_op list \<Rightarrow> Registry \<Rightarrow> Registry outcome" where
  "registry_run lin ffmt ext prefix [] reg = Ok reg"
| "registry_run lin ffmt ext prefix (op # ops) reg =
     bind_outcome (registry_step lin ffmt ext prefix op reg) (registry_run lin ffmt ext prefix ops)"

subsection \<open>Properties\<close>

lemma same_type_refl [simp]: "same_type m m"
  by (cases m) (simp_all add: same_type_def)

lemma same_type_trans: "same_type a b \<Longrightarrow> same_type b c \<Longrightarrow> same_type a c"
  by (auto simp: same_type_def split: metric.splits)

lemma same_type_sym: "same_type a b = same_type b a"
  by (auto simp: same_type_def split: metric.splits)

lemma change_type: "same_type m (change_metric lin ch m)"
  by (cases "(lin, ch, m)" rule: change_metric.cases) (simp_all add: same_type_def)

lemma report_type: "same_type m (snd (metric_Report ffmt ext prefix buf now m))"
  by (cases m) (simp_all add: metric_Report_def same_type_def)

text \<open>What an operation may do to a registry: it keeps the type of every entry.\<close>

definition keeps_types :: "Registry \<Rightarrow> Registry \<Rightarrow> bool" where
  "keeps_types reg reg' \<longleftrightarrow> (\<forall>name m. map_of reg name = Some m \<longrightarrow> (\<exists>m'. map_of reg' name = Some m' \<and> same_type m m'))"

lemma keeps_types_refl [simp]: "keeps_types reg reg"
  by (auto simp: keeps_types_def)

lemma keeps_types_trans: "keeps_types a b \<Longrightarrow> keeps_types b c \<Longrightarrow> keeps_types a c"
  unfolding keeps_types_def by (meson same_type_trans)

lemma map_of_update_metric: "map_of (update_metric name f reg) k = map_option (if k = name then f else id) (map_of reg k)"
  by (induction reg) (auto simp: update_metric_def)

lemma update_keeps_types:
  "(\<And>m. map_of reg name = Some m \<Longrightarrow> same_type m (f m)) \<Longrightarrow> keeps_types reg (update_metric name f reg)"
  by (auto simp: keeps_types_def map_of_update_metric)

lemma report_keeps_types:
  assumes "map_of reg name = Some m" and "metric_Report ffmt ext prefix buf now m = (buf', m')"
    and "keeps_types (update_metric name (\<lambda>_. m') reg) reg'"
  shows "keeps_types reg reg'"
proof -
  have "same_type m m'" using report_type [of m ffmt ext prefix buf now] assms(2) by simp
  then have "keeps_types reg (update_metric name (\<lambda>_. m') reg)" using assms(1) by (intro update_keeps_types) simp
  then show ?thesis using assms(3) by (rule keeps_types_trans)
qed

lemma report_all_keeps_types: "keeps_types reg (snd (report_all ffmt ext prefix now names buf reg))"
  by (induction names arbitrary: buf reg) (auto intro: report_keeps_types split: option.split prod.split)

lemma devnull_keeps_types: "keeps_types reg (devnull_turn ffmt ext now names reg)"
  by (induction names arbitrary: reg) (auto intro: report_keeps_types split: option.split prod.split)

lemma GetOrAdd_keeps_types:
  "GetOrAdd name m reg = Ok reg' \<Longrightarrow> keeps_types reg reg' \<and> (\<exists>m'. map_of reg' name = Some m' \<and> same_type m m')"
  by (auto simp: GetOrAdd_def keeps_types_def update_conv same_type_sym split: option.splits if_splits)

lemma registry_step_keeps_types: "registry_step lin ffmt ext prefix op reg = Ok reg' \<Longrightarrow> keeps_types reg reg'"
  by (cases op) (auto simp: registry_step_def GetOrAdd_keeps_types report_all_keeps_types devnull_keeps_types
      intro: update_keeps_types change_type)

lemma registry_run_keeps_types: "registry_run lin ffmt ext prefix ops reg = Ok reg' \<Longrightarrow> keeps_types reg reg'"
proof (induction ops arbitrary: reg)
  case (Cons op ops)
  then obtain r where "registry_step lin ffmt ext prefix op reg = Ok r" "registry_run lin ffmt ext prefix ops r = Ok reg'" by auto
  then show ?case using Cons.IH registry_step_keeps_types keeps_types_trans by blast
qed simp

text \<open>C40: A metric keeps its type for as long as the process runs, whatever is registered, changed and reported. So the type
  assertion of a constructor holds: a name that a constructor has registered is of its type ever after, the constructor
  called again succeeds and changes nothing, and one of another type panics.\<close>

theorem registry_keeps_types:
  assumes "GetOrAdd name m reg0 = Ok reg1" and "registry_run lin ffmt ext prefix ops reg1 = Ok reg"
  shows "(\<exists>m'. map_of reg name = Some m' \<and> same_type m m') \<and> GetOrAdd name m reg = Ok reg \<and>
    (\<not> same_type m other \<longrightarrow> (\<exists>p. GetOrAdd name other reg = Panic p))"
proof -
  obtain m1 where m1: "map_of reg1 name = Some m1" "same_type m m1" using GetOrAdd_keeps_types [OF assms(1)] by blast
  then obtain m' where m': "map_of reg name = Some m'" "same_type m m'"
    using registry_run_keeps_types [OF assms(2)] same_type_trans unfolding keeps_types_def by blast
  then have "same_type m' other \<longrightarrow> same_type m other" using same_type_trans by blast
  with m' show ?thesis by (auto simp: GetOrAdd_def same_type_sym)
qed

theorem registry_keeps_types_witness:
  "\<exists>reg. registry_run (\<lambda>_. 0) (\<lambda>_. []) (\<lambda>_ _ _. []) ''p.''
      [RChange ''a'' ChInc, RReport 5 [''a''], RNew ''b'' (MBool 0)] [(''a'', MGauge32 0)] = Ok reg \<and>
    GetOrAdd ''a'' (MGauge32 0) reg = Ok reg \<and> (\<exists>p. GetOrAdd ''a'' (MBool 0) reg = Panic p)"
proof -
  let ?ops = "[RChange ''a'' ChInc, RReport 5 [''a''], RNew ''b'' (MBool 0)]"
  have g: "GetOrAdd ''a'' (MGauge32 0) [] = Ok [(''a'', MGauge32 0)]" by (simp add: GetOrAdd_def)
  have n: "\<not> same_type (MGauge32 0) (MBool 0)" by (simp add: same_type_def)
  obtain reg where "registry_run (\<lambda>_. 0) (\<lambda>_. []) (\<lambda>_ _ _. []) ''p.'' ?ops [(''a'', MGauge32 0)] = Ok reg"
    by (simp add: registry_step_def update_metric_def metric_Report_def GetOrAdd_def)
  with registry_keeps_types [OF g this] n show ?thesis by blast
qed

text \<open>The setters that take words agree with those that take integers.\<close>

theorem word_setters_agree:
  "Gauge32_AddUint32 (word_of_int i) g = g + word_of_int i" "Gauge32_DecUint32 (word_of_int i) g = g - word_of_int i"
  "0 < i \<Longrightarrow> Gauge32_Add i g = Gauge32_AddUint32 (word_of_int i) g" "0 < i \<Longrightarrow> Gauge32_Add (- i) g = Gauge32_DecUint32 (word_of_int i) g"
  "0 < i \<Longrightarrow> Gauge64_Add i h = Gauge64_AddUint64 (word_of_int i) h" "0 < i \<Longrightarrow> Gauge64_Add (- i) h = Gauge64_DecUint64 (word_of_int i) h"
  by (simp_all add: Gauge32_AddUint32_def Gauge32_DecUint32_def Gauge64_AddUint64_def Gauge64_DecUint64_def
      Gauge32_Add_def Gauge64_Add_def add_word NOT_word)

end
