(* ===== verification/Stats_Reporters.thy ===== *)
theory Stats_Reporters
  imports Stats_Metrics
begin

text \<open>
  The reporters of \<^verbatim>\<open>statsmt/\<close> that read other sources: the runtime's memory statistics, the process under \<^verbatim>\<open>/proc\<close>, the
  latency histograms of a third-party library, and the buckets of the aggregators
  (\<^verbatim>\<open>aggregator/aggregator_reporter.go\<close>). What they read is an argument.
\<close>

subsection \<open>Memory\<close>

record mem_stats =
  ms_TotalAlloc :: uint64
  ms_Alloc :: uint64
  ms_Sys :: uint64
  ms_NumGC :: uint32
  ms_GCCPUFraction :: real
  ms_HeapObjects :: uint64
  ms_PauseNs :: "uint64 list"

definition getGcPercent :: "bytes \<Rightarrow> int" where
  "getGcPercent gogc =
     (if gogc = [] then 100
      else if gogc = ''off'' then - 1
      else (case atoi gogc of Inl _ \<Rightarrow> 100 | Inr val \<Rightarrow> val))"

definition MemoryReporter_Report :: "bytes \<Rightarrow> mem_stats \<Rightarrow> bytes \<Rightarrow> bytes \<Rightarrow> int \<Rightarrow> uint32 \<Rightarrow> bytes \<times> uint32" where
  "MemoryReporter_Report gogc mem prefix buf now gcCyclesTotal =
     (let buf = WriteUint64 buf prefix ''total_bytes_allocated.counter64'' (ms_TotalAlloc mem) now;
          buf = WriteUint64 buf prefix ''bytes.allocated_in_heap.gauge64'' (ms_Alloc mem) now;
          buf = WriteUint64 buf prefix ''bytes.obtained_from_sys.gauge64'' (ms_Sys mem) now;
          buf = WriteUint32 buf prefix ''total_gc_cycles.counter64'' (ms_NumGC mem) now;
          buf = WriteUint32 buf prefix ''gc.cpu_fraction.gauge32'' (word_of_int \<lfloor>1000 * ms_GCCPUFraction mem\<rfloor>) now;
          buf = WriteUint64 buf prefix ''gc.heap_objects.gauge64'' (ms_HeapObjects mem) now;
          (buf, total_seen) =
            (if gcCyclesTotal \<noteq> ms_NumGC mem
             then (WriteUint64 buf prefix ''gc.last_duration.gauge64''
                     (ms_PauseNs mem ! unat ((ms_NumGC mem + 255) mod 256)) now, ms_NumGC mem)
             else (buf, gcCyclesTotal));
          buf = WriteInt32 buf prefix ''gc.gogc.sgauge32'' (word_of_int (getGcPercent gogc)) now
      in (buf, total_seen))"

subsection \<open>The process\<close>

record proc_stat =
  ps_VirtualMemory :: uint64
  ps_ResidentMemory :: uint64
  ps_MinFlt :: uint64
  ps_MajFlt :: uint64
  ps_CPUTime :: real

definition ProcessReporter_Report :: "(real \<Rightarrow> bytes) \<Rightarrow> proc_stat option \<Rightarrow> bytes \<Rightarrow> bytes \<Rightarrow> int \<Rightarrow> bytes" where
  "ProcessReporter_Report ffmt stat prefix buf now =
     (case stat of
        None \<Rightarrow> buf
      | Some st \<Rightarrow>
          let buf = WriteUint64 buf prefix ''virtual_memory_bytes.gauge64'' (ps_VirtualMemory st) now;
              buf = WriteUint64 buf prefix ''resident_memory_bytes.gauge64'' (ps_ResidentMemory st) now;
              buf = WriteUint64 buf prefix ''minor_page_faults.counter64'' (ps_MinFlt st) now;
              buf = WriteUint64 buf prefix ''major_page_faults.counter64'' (ps_MajFlt st) now
          in WriteFloat64 ffmt buf prefix ''cpu_seconds_total.counter64'' (ps_CPUTime st) now)"

subsection \<open>Latencies\<close>

text \<open>The summary that the library gives of its snapshot, in microseconds, and whether there was any value.\<close>

record hist_report =
  hr_Min :: uint32
  hr_Mean :: uint32
  hr_Median :: uint32
  hr_P75 :: uint32
  hr_P90 :: uint32
  hr_Max :: uint32
  hr_Count :: uint32

definition latency_lines :: "hist_report \<Rightarrow> uint32 \<Rightarrow> bytes \<Rightarrow> bytes \<Rightarrow> int \<Rightarrow> bytes" where
  "latency_lines r mean prefix buf now =
     (let buf = WriteUint32 buf prefix ''latency.min.gauge32'' (hr_Min r div 1000) now;
          buf = WriteUint32 buf prefix ''latency.mean.gauge32'' mean now;
          buf = WriteUint32 buf prefix ''latency.median.gauge32'' (hr_Median r div 1000) now;
          buf = WriteUint32 buf prefix ''latency.p75.gauge32'' (hr_P75 r div 1000) now;
          buf = WriteUint32 buf prefix ''latency.p90.gauge32'' (hr_P90 r div 1000) now
      in WriteUint32 buf prefix ''latency.max.gauge32'' (hr_Max r div 1000) now)"

definition count_lines :: "(real \<Rightarrow> bytes) \<Rightarrow> hist_report \<Rightarrow> int \<Rightarrow> bytes \<Rightarrow> bytes \<Rightarrow> int \<Rightarrow> bytes" where
  "count_lines ffmt r since prefix buf now =
     WriteFloat64 ffmt (WriteUint32 buf prefix ''values.count32'' (hr_Count r) now) prefix ''values.rate32''
       (real (unat (hr_Count r)) / seconds (now - since)) now"

text \<open>The histogram of up to twelve hours, with the mean of the library.\<close>

definition LatencyHistogram12h32_Report ::
  "(real \<Rightarrow> bytes) \<Rightarrow> hist_report \<Rightarrow> bool \<Rightarrow> bytes \<Rightarrow> bytes \<Rightarrow> int \<Rightarrow> int \<Rightarrow> bytes \<times> int" where
  "LatencyHistogram12h32_Report ffmt r ok prefix buf now since =
     (count_lines ffmt r since prefix (if ok then latency_lines r (hr_Mean r div 1000) prefix buf now else buf) now, now)"

text \<open>The histogram of up to fifteen seconds, with a mean of the exact sum, which is reset. Durations are nanoseconds.\<close>

definition LatencyHistogram15s32_Value :: "int \<Rightarrow> uint64 \<Rightarrow> uint64" where
  "LatencyHistogram15s32_Value t total_sum = total_sum + word_of_int (sgn t * (\<bar>t\<bar> div 1000))"

definition LatencyHistogram15s32_Report ::
  "(real \<Rightarrow> bytes) \<Rightarrow> hist_report \<Rightarrow> bool \<Rightarrow> bytes \<Rightarrow> bytes \<Rightarrow> int \<Rightarrow> uint64 \<Rightarrow> int \<Rightarrow> (bytes \<times> uint64 \<times> int) outcome" where
  "LatencyHistogram15s32_Report ffmt r ok prefix buf now total_sum since =
     (if \<not> ok then Ok (count_lines ffmt r since prefix buf now, total_sum, now)
      else if hr_Count r = 0 then Panic DivisionByZero
      else Ok (count_lines ffmt r since prefix
                 (latency_lines r (ucast (total_sum div ucast (hr_Count r) div 1000)) prefix buf now) now, 0, now))"

subsection \<open>Aggregators\<close>

text \<open>The buckets that were flushed since the last report, each at its own time.\<close>

fun AggregatorReporter_Report :: "bytes \<Rightarrow> bytes \<Rightarrow> (bytes \<times> uint32 \<times> uint32) list \<Rightarrow> bytes" where
  "AggregatorReporter_Report prefix buf [] = buf"
| "AggregatorReporter_Report prefix buf ((key, ts, cnt) # rest) =
     AggregatorReporter_Report prefix
       (WriteUint64 buf prefix (''aggregator.'' @ key @ ''.in_logical'') (ucast cnt) (uint ts * 10 ^ 9)) rest"

subsection \<open>Properties\<close>

text \<open>Every flushed bucket gives one line, in order, with its count and its time.\<close>

theorem aggregator_reports_every_bucket:
  "AggregatorReporter_Report prefix buf reps =
     buf @ concat (map (\<lambda>(key, ts, cnt).
       prefix @ ''aggregator.'' @ key @ ''.in_logical '' @ format_nat (unat cnt) @ '' '' @ format_nat (unat ts) @ [CHR 0x0A]) reps)"
proof (induction prefix buf reps rule: AggregatorReporter_Report.induct)
  case (2 prefix buf key ts cnt rest)
  have "unat (ucast cnt :: uint64) = unat cnt"
  proof -
    have "unat cnt < 2 ^ LENGTH(32)" by (rule unsigned_less)
    then show ?thesis by (simp add: unsigned_ucast_eq take_bit_nat_eq_self)
  qed
  then show ?case
    using 2 by (simp add: WriteUint64_def write_line_def unix_def format_int_def)
qed simp

text \<open>The mean of the exact latencies: while the sum of the microseconds does not overflow, the reported mean is the mean
  of the durations in milliseconds, rounded down.\<close>

theorem latency_mean_is_exact:
  assumes "\<forall>t \<in> set ts. 0 \<le> t" and "sum_list (map (\<lambda>t. t div 1000) ts) < 2 ^ 64" and "ts \<noteq> []" "length ts < 2 ^ 32"
  shows "uint (fold LatencyHistogram15s32_Value ts 0 div ucast (of_nat (length ts) :: uint32) div 1000) =
    sum_list (map (\<lambda>t. t div 1000) ts) div int (length ts) div 1000"
proof -
  have val: "LatencyHistogram15s32_Value t s = s + word_of_int (t div 1000)" if "0 \<le> t" for t s
  proof -
    have "sgn t * (\<bar>t\<bar> div 1000) = t div 1000" using that by (cases "t = 0") auto
    then show ?thesis by (simp only: LatencyHistogram15s32_Value_def)
  qed
  have "fold LatencyHistogram15s32_Value ts s = s + word_of_int (sum_list (map (\<lambda>t. t div 1000) ts))" for s
    using assms(1) by (induction ts arbitrary: s) (simp_all add: val)
  then have f: "fold LatencyHistogram15s32_Value ts 0 = word_of_int (sum_list (map (\<lambda>t. t div 1000) ts))" by simp
  have pos: "0 \<le> sum_list (map (\<lambda>t. t div 1000) ts)" using assms(1) by (intro sum_list_nonneg) auto
  have s: "uint (fold LatencyHistogram15s32_Value ts 0) = sum_list (map (\<lambda>t. t div 1000) ts)"
    unfolding f using pos assms(2) by (simp add: uint_word_of_int_eq take_bit_int_eq_self)
  have n: "uint (ucast (of_nat (length ts) :: uint32) :: uint64) = int (length ts)"
    using assms(4) by (simp add: ucast_small unsigned_of_nat take_bit_nat_eq_self)
  show ?thesis by (simp add: uint_div s n)
qed

end
