(* ===== verification/Table_Slices.thy ===== *)
theory Table_Slices
  imports Prelude
begin

text \<open>
  The slices of the table's and the routes' configurations. Writers hold a lock and store a new
  configuration; readers (\<open>Dispatch\<close>) load one without a lock and iterate over its slices. A slice is
  an address of a backing array with a length and a capacity, so that two configurations may share
  an array; \<open>append_one\<close> is \<open>append(s, x)\<close> and \<open>delete_at\<close> is \<open>append(s[:i], s[i+1:]...)\<close>, as in
  \<open>AddRoute\<close>, \<open>AddBlocklist\<close>, \<open>AddAggregator\<close>, \<open>AddRewriter\<close>, \<open>DelRoute\<close>, \<open>DelBlocklist\<close>,
  \<open>DelAggregator\<close>, \<open>DelRewriter\<close> of \<^verbatim>\<open>table/table.go\<close> and \<open>delDestination\<close> of \<^verbatim>\<open>route/route.go\<close>.
  The growth of a full array is an argument.
\<close>

record 'a store =
  arrays :: "nat \<Rightarrow> 'a list"
  next_addr :: nat

record slice =
  sl_addr :: nat
  sl_len :: nat
  sl_cap :: nat

definition view :: "'a store \<Rightarrow> slice \<Rightarrow> 'a list" where
  "view st s = take (sl_len s) (arrays st (sl_addr s))"

definition write_array :: "nat \<Rightarrow> nat \<Rightarrow> 'a list \<Rightarrow> 'a store \<Rightarrow> 'a store" where
  "write_array a p xs st =
     st\<lparr>arrays := (arrays st)(a := take p (arrays st a) @ xs @ drop (p + length xs) (arrays st a))\<rparr>"

definition append_one :: "nat \<Rightarrow> 'a \<Rightarrow> slice \<Rightarrow> 'a store \<Rightarrow> slice \<times> 'a store" where
  "append_one growth x s st =
     (if sl_len s < sl_cap s
      then (s\<lparr>sl_len := sl_len s + 1\<rparr>, write_array (sl_addr s) (sl_len s) [x] st)
      else (\<lparr>sl_addr = next_addr st, sl_len = sl_len s + 1, sl_cap = sl_len s + 1 + growth\<rparr>,
            st\<lparr>arrays := (arrays st)(next_addr st := view st s @ [x]), next_addr := next_addr st + 1\<rparr>))"

definition delete_at :: "nat \<Rightarrow> slice \<Rightarrow> 'a store \<Rightarrow> slice \<times> 'a store" where
  "delete_at i s st =
     (s\<lparr>sl_len := sl_len s - 1\<rparr>, write_array (sl_addr s) i (drop (i + 1) (view st s)) st)"

text \<open>A slice whose elements are in its array.\<close>

definition slice_ok :: "'a store \<Rightarrow> slice \<Rightarrow> bool" where
  "slice_ok st s \<longleftrightarrow> sl_len s \<le> length (arrays st (sl_addr s)) \<and> sl_len s \<le> sl_cap s \<and> sl_addr s < next_addr st"

lemma append_one_view:
  assumes "slice_ok st s" "append_one g x s st = (s', st')"
  shows "view st' s' = view st s @ [x]" "slice_ok st' s'"
  using assms
  by (auto simp: append_one_def view_def write_array_def slice_ok_def min_def split: if_splits)

lemma append_one_older:
  assumes "slice_ok st s" "append_one g x s st = (s', st')"
    and "slice_ok st o'" "sl_addr o' = sl_addr s \<longrightarrow> sl_len o' \<le> sl_len s"
  shows "view st' o' = view st o'" "slice_ok st' o'"
    "sl_addr o' = sl_addr s' \<longrightarrow> sl_len o' \<le> sl_len s'"
  using assms
  by (auto simp: append_one_def view_def write_array_def slice_ok_def min_def split: if_splits)

fun append_all :: "(nat \<times> 'a) list \<Rightarrow> slice \<Rightarrow> 'a store \<Rightarrow> slice \<times> 'a store" where
  "append_all [] s st = (s, st)"
| "append_all ((g, x) # xs) s st = (case append_one g x s st of (s', st') \<Rightarrow> append_all xs s' st')"

lemma append_all_view:
  "slice_ok st s \<Longrightarrow> append_all xs s st = (s', st') \<Longrightarrow> slice_ok st o' \<Longrightarrow>
   (sl_addr o' = sl_addr s \<longrightarrow> sl_len o' \<le> sl_len s) \<Longrightarrow>
     view st' s' = view st s @ map snd xs \<and> view st' o' = view st o'"
proof (induction xs s st rule: append_all.induct)
  case (2 g x xs s st)
  obtain s1 st1 where a: "append_one g x s st = (s1, st1)" by fastforce
  show ?case
    using 2(1) [OF a [symmetric]] append_one_view [OF 2(2) a] append_one_older [OF 2(2) a 2(4,5)] 2(3) a
    by simp
qed simp

subsection \<open>Properties\<close>

text \<open>additions to the configuration are safe for concurrent readers: however many entries are added,
  the new slice has them at its end, and a reader that loaded the configuration before any of them
  still sees exactly what it loaded.\<close>

theorem additions_keep_readers_view:
  assumes "slice_ok st s" and "append_all xs s st = (s', st')"
  shows "view st' s' = view st s @ map snd xs \<and> view st' s = view st s"
  using append_all_view [OF assms assms(1)] by simp

theorem additions_keep_readers_view_witness:
  "\<exists>s' st'. append_all [(1, ''b''), (1, ''c'')] \<lparr>sl_addr = 0, sl_len = 1, sl_cap = 2\<rparr>
      \<lparr>arrays = (\<lambda>_. [''a'']), next_addr = 1\<rparr> = (s', st') \<and>
    view st' s' = [''a'', ''b'', ''c''] \<and> view st' \<lparr>sl_addr = 0, sl_len = 1, sl_cap = 2\<rparr> = [''a'']"
proof -
  let ?s = "\<lparr>sl_addr = 0, sl_len = 1, sl_cap = 2\<rparr>" and ?st = "\<lparr>arrays = (\<lambda>_. [''a'']), next_addr = 1\<rparr>"
  obtain s' st' where a: "append_all [(1, ''b''), (1, ''c'')] ?s ?st = (s', st')" by fastforce
  have "slice_ok ?st ?s" by (simp add: slice_ok_def)
  from additions_keep_readers_view [OF this a] a show ?thesis by (auto simp: view_def)
qed

text \<open>deletions are not: the deletion moves the later entries down in the array that the readers share,
  so that a reader that loaded the configuration before it finds, behind the entries it has already
  visited up to the deleted one, the next entry skipped and the last one repeated.\<close>

theorem deletion_changes_readers_view:
  assumes "slice_ok st s" and "i < sl_len s" and "delete_at i s st = (s', st')"
  shows "view st' s' = remove_nth i (view st s) \<and>
    view st' s = remove_nth i (view st s) @ [last (view st s)]"
proof -
  let ?A = "arrays st (sl_addr s)" and ?n = "sl_len s"
  have n: "?n \<le> length ?A" using assms(1) by (simp add: slice_ok_def)
  let ?B = "take i ?A @ drop (i + 1) (take ?n ?A) @ drop (i + (?n - (i + 1))) ?A"
  have B: "arrays st' (sl_addr s) = ?B"
    using assms n by (auto simp: delete_at_def write_array_def view_def min_def)
  have idx: "i + (?n - (i + 1)) = ?n - 1" using assms(2) by simp
  have lens: "length (take i ?A @ drop (i + 1) (take ?n ?A)) = ?n - 1"
    using n assms(2) by simp
  have "take (?n - 1) ?B = take i ?A @ drop (i + 1) (take ?n ?A)"
    by (metis append_eq_conv_conj append_assoc lens)
  then have one: "take (?n - 1) ?B = remove_nth i (take ?n ?A)"
    using assms(2) by (simp add: remove_nth_def min_def)
  have "drop (?n - 1) ?A = ?A ! (?n - 1) # drop ?n ?A"
    using n assms(2) by (metis Cons_nth_drop_Suc One_nat_def Suc_pred le_less_trans less_le_trans not_less_zero
        diff_less gr_zeroI zero_less_one)
  then have "take ?n ?B = (take i ?A @ drop (i + 1) (take ?n ?A)) @ [?A ! (?n - 1)]"
    using n assms(2) unfolding idx by (simp add: min_def take_Cons')
  moreover have "last (take ?n ?A) = ?A ! (?n - 1)"
    using n assms(2) by (subst last_conv_nth) (auto simp: min_def)
  ultimately have "take ?n ?B = remove_nth i (take ?n ?A) @ [last (take ?n ?A)]"
    using assms(2) by (simp add: remove_nth_def min_def)
  moreover have "sl_addr s' = sl_addr s" "sl_len s' = ?n - 1"
    using assms(3) by (auto simp: delete_at_def)
  ultimately show ?thesis using one B by (simp add: view_def)
qed

theorem deletion_changes_readers_view_witness:
  "\<exists>s' st'. delete_at 0 \<lparr>sl_addr = 0, sl_len = 3, sl_cap = 3\<rparr>
      \<lparr>arrays = (\<lambda>_. [''a'', ''b'', ''c'']), next_addr = 1\<rparr> = (s', st') \<and>
    view st' s' = [''b'', ''c''] \<and> view st' \<lparr>sl_addr = 0, sl_len = 3, sl_cap = 3\<rparr> = [''b'', ''c'', ''c'']"
proof -
  let ?s = "\<lparr>sl_addr = 0, sl_len = 3, sl_cap = 3\<rparr>" and ?st = "\<lparr>arrays = (\<lambda>_. [''a'', ''b'', ''c'']), next_addr = 1\<rparr>"
  obtain s' st' where d: "delete_at 0 ?s ?st = (s', st')" by fastforce
  have "slice_ok ?st ?s" by (simp add: slice_ok_def)
  from deletion_changes_readers_view [OF this _ d] d show ?thesis by (auto simp: view_def remove_nth_def)
qed

end
