(* ===== verification/Util_Logger.thy ===== *)
theory Util_Logger
  imports Go_Strings
begin

text \<open>
  \<^verbatim>\<open>logger/logger.go\<close>, the formatter of log entries, and \<^verbatim>\<open>util/limiter.go\<close>, a limit of concurrency.

  \<^item> The time of an entry is given as formatted by \<open>time.Format\<close> for the layout; levels are ASCII. The data of an entry
    comes in the order in which Go goes through the map; a value that is no string and no error is given as \<open>fmt\<close> prints it.
\<close>

subsection \<open>The formatter\<close>

record TextFormatter =
  DisableTimestamp :: bool
  DisableUppercase :: bool
  TimestampFormat :: bytes
  DisableSorting :: bool
  QuoteEmptyFields :: bool
  QuoteCharacter :: bytes
  ModuleName :: bytes

datatype log_value = LogString bytes | LogError bytes | LogOther bytes

record log_entry =
  le_Time :: "bytes \<Rightarrow> bytes"
  le_Level :: bytes
  le_Message :: bytes
  le_Data :: "(bytes \<times> log_value) list"

definition upper_char :: "char \<Rightarrow> char" where
  "upper_char c = (if CHR ''a'' \<le> c \<and> c \<le> CHR ''z'' then char_of (of_char c - 32 :: nat) else c)"

definition defaultTimestampFormat :: bytes where
  "defaultTimestampFormat = ''2006-01-02T15:04:05Z07:00''"

definition formatter_init :: "TextFormatter \<Rightarrow> TextFormatter" where
  "formatter_init f = (if length (QuoteCharacter f) = 0 then f\<lparr>QuoteCharacter := [CHR 0x22]\<rparr> else f)"

definition plain_char :: "char \<Rightarrow> bool" where
  "plain_char c \<longleftrightarrow> (CHR ''a'' \<le> c \<and> c \<le> CHR ''z'') \<or> (CHR ''A'' \<le> c \<and> c \<le> CHR ''Z'') \<or> (CHR ''0'' \<le> c \<and> c \<le> CHR ''9'') \<or>
     c = CHR ''-'' \<or> c = CHR ''.''"

definition needsQuoting :: "TextFormatter \<Rightarrow> bytes \<Rightarrow> bool" where
  "needsQuoting f txt' \<longleftrightarrow> (QuoteEmptyFields f \<and> length txt' = 0) \<or> list_ex (\<lambda>c. \<not> plain_char c) txt'"

definition quoted :: "TextFormatter \<Rightarrow> bytes \<Rightarrow> bytes" where
  "quoted f s = (if \<not> needsQuoting f s then s else QuoteCharacter f @ s @ QuoteCharacter f)"

definition value_text :: "TextFormatter \<Rightarrow> log_value \<Rightarrow> bytes" where
  "value_text f v = (case v of LogString s \<Rightarrow> quoted f s | LogError s \<Rightarrow> quoted f s | LogOther s \<Rightarrow> s)"

definition appendKeyValue :: "TextFormatter \<Rightarrow> bytes \<Rightarrow> bytes \<Rightarrow> log_value \<Rightarrow> bool \<Rightarrow> bytes" where
  "appendKeyValue f b key v appendSpace = b @ key @ ''='' @ value_text f v @ (if appendSpace then '' '' else [])"

fun append_fields :: "TextFormatter \<Rightarrow> bytes \<Rightarrow> (bytes \<times> log_value) list \<Rightarrow> bytes list \<Rightarrow> bytes" where
  "append_fields f b data [] = b"
| "append_fields f b data (key # keys) =
     append_fields f (case map_of data key of None \<Rightarrow> b | Some v \<Rightarrow> appendKeyValue f b key v (keys \<noteq> [])) data keys"

definition Format :: "TextFormatter \<Rightarrow> log_entry \<Rightarrow> bytes" where
  "Format f0 entry =
     (let f = formatter_init f0;
          keys = (if DisableSorting f then map fst (le_Data entry) else sort (map fst (le_Data entry)));
          timestampFormat = (if TimestampFormat f = [] then defaultTimestampFormat else TimestampFormat f);
          b = (if \<not> DisableTimestamp f then le_Time entry timestampFormat @ '' '' else []);
          b = b @ ''['' @ (if \<not> DisableUppercase f then map upper_char (le_Level entry) else le_Level entry) @ '']'' @ '' '';
          b = b @ (if ModuleName f \<noteq> [] then ''['' @ ModuleName f @ '']'' @ '' '' else []);
          b = b @ (if le_Message entry \<noteq> [] then le_Message entry @ (if keys \<noteq> [] then '' '' else []) else [])
      in append_fields f b (le_Data entry) keys @ [CHR 0x0A])"

subsection \<open>The limiter\<close>

text \<open>A buffered channel: its capacity and how many are in it. A call that blocks gives \<open>None\<close>.\<close>

type_synonym Limiter = "nat \<times> nat"

definition NewLimiter :: "nat \<Rightarrow> Limiter" where
  "NewLimiter limit = (limit, 0)"

definition Limiter_Add :: "Limiter \<Rightarrow> Limiter option" where
  "Limiter_Add l = (if snd l < fst l then Some (fst l, snd l + 1) else None)"

definition Limiter_Done :: "Limiter \<Rightarrow> Limiter option" where
  "Limiter_Done l = (if 0 < snd l then Some (fst l, snd l - 1) else None)"

text \<open>The calls of any number of goroutines, in the order in which they get through; blocked calls are tried again
  later.\<close>

definition limiter_call :: "bool \<Rightarrow> Limiter \<Rightarrow> Limiter" where
  "limiter_call add l = (case if add then Limiter_Add l else Limiter_Done l of None \<Rightarrow> l | Some l' \<Rightarrow> l')"

definition limiter_run :: "bool list \<Rightarrow> Limiter \<Rightarrow> Limiter" where
  "limiter_run = fold limiter_call"

subsection \<open>Properties\<close>

lemma limiter_never_exceeds:
  "snd l \<le> fst l \<Longrightarrow> snd (limiter_run calls l) \<le> fst l \<and> fst (limiter_run calls l) = fst l"
proof (induction calls arbitrary: l)
  case (Cons c calls)
  have "snd (limiter_call c l) \<le> fst l" "fst (limiter_call c l) = fst l"
    using Cons.prems by (auto simp: limiter_call_def Limiter_Add_def Limiter_Done_def)
  with Cons.IH [of "limiter_call c l"] show ?case by (simp add: limiter_run_def)
qed (simp add: limiter_run_def)

text \<open>An entry is one line, unless its texts contain line ends: the time, the level, the module, the message and the
  fields in the order of their keys, with a space between one another.\<close>

definition log_parts :: "TextFormatter \<Rightarrow> log_entry \<Rightarrow> bytes list" where
  "log_parts f0 entry =
     (let f = formatter_init f0
      in (if DisableTimestamp f then []
          else [le_Time entry (if TimestampFormat f = [] then defaultTimestampFormat else TimestampFormat f)]) @
         [''['' @ (if DisableUppercase f then le_Level entry else map upper_char (le_Level entry)) @ '']''] @
         (if ModuleName f = [] then [] else [''['' @ ModuleName f @ '']'']) @
         (if le_Message entry = [] then [] else [le_Message entry]) @
         map (\<lambda>key. key @ ''='' @ value_text f (the (map_of (le_Data entry) key)))
           (if DisableSorting f then map fst (le_Data entry) else sort (map fst (le_Data entry))))"

lemma append_fields_join:
  "set keys \<subseteq> fst ` set data \<Longrightarrow>
     append_fields f b data keys = b @ go_join (map (\<lambda>key. key @ ''='' @ value_text f (the (map_of data key))) keys) '' ''"
proof (induction keys arbitrary: b)
  case (Cons key keys)
  then obtain v where "map_of data key = Some v" by (metis in_mono list.set_intros(1) map_of_eq_None_iff not_Some_eq)
  with Cons show ?case by (cases keys) (simp_all add: appendKeyValue_def)
qed simp

lemma go_join_heads: "rest \<noteq> [] \<Longrightarrow> go_join (hs @ rest) '' '' = concat (map (\<lambda>p. p @ '' '') hs) @ go_join rest '' ''"
  by (induction hs) (simp_all add: go_join_Cons)

theorem log_lines_join_their_parts:
  assumes "le_Message entry \<noteq> [] \<or> le_Data entry \<noteq> []"
  shows "Format f0 entry = go_join (log_parts f0 entry) '' '' @ [CHR 0x0A]"
proof -
  define f where "f = formatter_init f0"
  define keys where "keys = (if DisableSorting f then map fst (le_Data entry) else sort (map fst (le_Data entry)))"
  define hs where "hs = (if DisableTimestamp f then []
      else [le_Time entry (if TimestampFormat f = [] then defaultTimestampFormat else TimestampFormat f)]) @
    [''['' @ (if DisableUppercase f then le_Level entry else map upper_char (le_Level entry)) @ '']''] @
    (if ModuleName f = [] then [] else [''['' @ ModuleName f @ '']''])"
  define flds where "flds = map (\<lambda>key. key @ ''='' @ value_text f (the (map_of (le_Data entry) key))) keys"
  define rest where "rest = (if le_Message entry = [] then [] else [le_Message entry]) @ flds"
  have sub: "set keys \<subseteq> fst ` set (le_Data entry)" unfolding keys_def by auto
  have "length keys = length (le_Data entry)" by (simp add: keys_def)
  then have ne: "rest \<noteq> []" "flds = [] \<longleftrightarrow> keys = []"
    using assms by (auto simp: rest_def flds_def)
  have "Format f0 entry = concat (map (\<lambda>p. p @ '' '') hs) @
      (if le_Message entry \<noteq> [] then le_Message entry @ (if keys \<noteq> [] then '' '' else []) else []) @ go_join flds '' '' @ [CHR 0x0A]"
    unfolding Format_def Let_def f_def [symmetric] keys_def [symmetric] append_fields_join [OF sub]
    by (simp add: hs_def flds_def)
  also have "\<dots> = concat (map (\<lambda>p. p @ '' '') hs) @ go_join rest '' '' @ [CHR 0x0A]"
    using ne(2) by (cases flds) (auto simp: rest_def)
  also have "\<dots> = go_join (hs @ rest) '' '' @ [CHR 0x0A]"
    by (simp add: go_join_heads [OF ne(1)])
  also have "hs @ rest = log_parts f0 entry"
    unfolding log_parts_def Let_def f_def [symmetric] keys_def [symmetric] by (simp add: hs_def rest_def flds_def)
  finally show ?thesis .
qed

end
