(* ===== verification/Whisper_Retentions.thy ===== *)
theory Whisper_Retentions
  imports Persist_Schemas
begin

text \<open>
  The rest of \<^verbatim>\<open>go-whisper/whisper.go\<close>, the part of that library that the repository has a copy of: lists of retentions,
  their validation, and the order by precision. \<^theory_text>\<open>Persist_Schemas\<close> has \<open>ParseRetentionDef\<close>, the one part the
  relay calls. Products of retentions are 64-bit and wrap.
\<close>

definition PointSize :: int where
  "PointSize = 12"

definition NewRetention :: "int \<Rightarrow> int \<Rightarrow> Retention" where
  "NewRetention seconds points = \<lparr>secondsPerPoint = seconds, numberOfPoints = points\<rparr>"

definition wrap_int :: "int \<Rightarrow> int" where
  "wrap_int i = sint (word_of_int i :: uint64)"

definition MaxRetention :: "Retention \<Rightarrow> int" where
  "MaxRetention r = wrap_int (secondsPerPoint r * numberOfPoints r)"

definition Retention_Size :: "Retention \<Rightarrow> int" where
  "Retention_Size r = wrap_int (numberOfPoints r * PointSize)"

text \<open>\<open>mod\<close>, over the reals for floats.\<close>

definition whisper_mod :: "int \<Rightarrow> int \<Rightarrow> int" where
  "whisper_mod a b = a - b * \<lfloor>real_of_int a / real_of_int b\<rfloor>"

definition whisper_ParseRetentionDefs :: "(bytes \<Rightarrow> uint32 option) \<Rightarrow> bytes \<Rightarrow> (schema_error + Retention list) outcome" where
  "whisper_ParseRetentionDefs dur retentionDefs =
     foldr (\<lambda>def rest. bind_try (ParseRetentionDef dur def) (\<lambda>ret. bind_try rest (\<lambda>rets. Ok (Inr (ret # rets)))))
       (go_split retentionDefs '','') (Ok (Inr []))"

text \<open>Division of Go, which truncates.\<close>

definition quotient :: "int \<Rightarrow> int \<Rightarrow> int" where
  "quotient a b = sgn a * sgn b * (\<bar>a\<bar> div \<bar>b\<bar>)"

datatype retention_problem = NoRetentions | SamePrecision nat | NotDividing nat | CoversLess nat | TooFewPoints nat

fun validate_from :: "nat \<Rightarrow> Retention list \<Rightarrow> retention_problem option outcome" where
  "validate_from i [] = Ok None"
| "validate_from i [r] = Ok None"
| "validate_from i (r # next_r # rs) =
     (if \<not> secondsPerPoint r < secondsPerPoint next_r then Ok (Some (SamePrecision i))
      else if whisper_mod (secondsPerPoint next_r) (secondsPerPoint r) \<noteq> 0 then Ok (Some (NotDividing i))
      else if MaxRetention r \<ge> MaxRetention next_r then Ok (Some (CoversLess i))
      else if secondsPerPoint r = 0 then Panic DivisionByZero
      else if numberOfPoints r < quotient (secondsPerPoint next_r) (secondsPerPoint r) then Ok (Some (TooFewPoints i))
      else validate_from (Suc i) (next_r # rs))"

definition validateRetentions :: "Retention list \<Rightarrow> retention_problem option outcome" where
  "validateRetentions rs = (if length rs = 0 then Ok (Some NoRetentions) else validate_from 0 rs)"

definition Retentions_Swap :: "nat \<Rightarrow> nat \<Rightarrow> Retention list \<Rightarrow> Retention list" where
  "Retentions_Swap i j rs = rs[i := rs ! j, j := rs ! i]"

definition Precision_Less :: "Retention list \<Rightarrow> nat \<Rightarrow> nat \<Rightarrow> bool" where
  "Precision_Less rs i j \<longleftrightarrow> secondsPerPoint (rs ! i) < secondsPerPoint (rs ! j)"

subsection \<open>Properties\<close>

lemma whisper_mod_eq: "whisper_mod a b = a mod b"
proof (cases "b = 0")
  case False
  have "\<lfloor>real_of_int a / real_of_int b\<rfloor> = a div b" by (rule floor_divide_of_int_eq)
  then show ?thesis by (simp add: whisper_mod_def minus_mult_div_eq_mod)
qed (simp add: whisper_mod_def)

lemma quotient_pos: "0 < b \<Longrightarrow> b < a \<Longrightarrow> quotient a b = a div b"
  by (simp add: quotient_def)

text \<open>What a pair of neighbours has to satisfy.\<close>

definition consolidates :: "Retention \<Rightarrow> Retention \<Rightarrow> bool" where
  "consolidates r next_r \<longleftrightarrow> secondsPerPoint r < secondsPerPoint next_r \<and> secondsPerPoint r dvd secondsPerPoint next_r \<and>
     MaxRetention r < MaxRetention next_r \<and> secondsPerPoint next_r div secondsPerPoint r \<le> numberOfPoints r"

lemma validate_from_iff:
  "\<forall>r \<in> set rs. 0 < secondsPerPoint r \<Longrightarrow>
     (validate_from i rs = Ok None) = (\<forall>k. Suc k < length rs \<longrightarrow> consolidates (rs ! k) (rs ! Suc k)) \<and>
     (\<exists>res. validate_from i rs = Ok res)"
proof (induction i rs rule: validate_from.induct)
  case (3 i r next_r rs)
  have split: "(\<forall>k. Suc k < length (r # next_r # rs) \<longrightarrow> consolidates ((r # next_r # rs) ! k) ((r # next_r # rs) ! Suc k)) \<longleftrightarrow>
      consolidates r next_r \<and> (\<forall>k. Suc k < length (next_r # rs) \<longrightarrow> consolidates ((next_r # rs) ! k) ((next_r # rs) ! Suc k))"
    by (auto simp: nth_Cons split: nat.splits)
  have pos: "0 < secondsPerPoint r" using "3.prems" by simp
  show ?case
  proof (cases "consolidates r next_r")
    case True
    then have "validate_from i (r # next_r # rs) = validate_from (Suc i) (next_r # rs)"
      using pos by (auto simp: consolidates_def whisper_mod_eq quotient_pos)
    moreover have "secondsPerPoint r < secondsPerPoint next_r"
      "whisper_mod (secondsPerPoint next_r) (secondsPerPoint r) = 0" "MaxRetention r < MaxRetention next_r" "secondsPerPoint r \<noteq> 0"
      "\<not> numberOfPoints r < quotient (secondsPerPoint next_r) (secondsPerPoint r)"
      using True pos by (auto simp: consolidates_def whisper_mod_eq quotient_pos)
    ultimately show ?thesis using 3 True unfolding split by simp
  next
    case False
    then have "validate_from i (r # next_r # rs) \<noteq> Ok None \<and> (\<exists>res. validate_from i (r # next_r # rs) = Ok res)"
      using pos by (auto simp: consolidates_def whisper_mod_eq quotient_pos dvd_eq_mod_eq_0)
    then show ?thesis using False unfolding split by blast
  qed
qed simp_all

text \<open>A list of retentions with positive precisions is valid exactly when it is not empty and every retention can be
  consolidated into the next: coarser by a factor, longer, and with enough points.\<close>

theorem valid_retentions_consolidate:
  assumes "\<forall>r \<in> set rs. 0 < secondsPerPoint r"
  shows "validateRetentions rs = Ok None \<longleftrightarrow>
    rs \<noteq> [] \<and> (\<forall>k. Suc k < length rs \<longrightarrow> consolidates (rs ! k) (rs ! Suc k))"
  using validate_from_iff [OF assms, of 0] by (simp add: validateRetentions_def)

end
