(* ===== verification/Spec2Isabelle.thy ===== *)
theory Spec2Isabelle
  imports Admin_Telnet Admin_Web Agg_Correct Dest_Correct Dest_Lifecycle Input_Amqp Input_Sockets Main_Program Nsqd_Correct
    Nsqd_Message Relay_BadMetrics Relay_System Persist_Schemas Relay_Matcher Relay_Rewriter Relay_Validate Route_GrafanaPost
    Route_Route Stats_Registry Stats_Reporters Table_Correct Table_Slices Util_Logger Whisper_Retentions
begin

text \<open>
  Verification of carbon-relay-ng, a relay for metrics in the Graphite protocols.

  \<^bold>\<open>The program.\<close> Inputs (\<^verbatim>\<open>input/\<close>) read lines and pickles from the network and give each line to the
  table (\<^verbatim>\<open>table/table.go\<close>). The table validates the line, drops it when its key is blocklisted
  (\<^verbatim>\<open>matcher/\<close>), rewrites its key (\<^verbatim>\<open>rewriter/\<close>), offers it to the aggregators (\<^verbatim>\<open>aggregator/\<close>), whose own
  lines come back to the table, and hands it to every route that matches (\<^verbatim>\<open>route/\<close>). A carbon route
  passes it to its destinations (\<^verbatim>\<open>destination/\<close>), each a connection with a buffered writer and, when the
  connection is down, a spool on disk (\<^verbatim>\<open>nsqd/\<close>); the other routes batch the lines for GrafanaNet, Kafka,
  Google PubSub and CloudWatch. The configuration file (\<^verbatim>\<open>cfg/\<close>) and the commands
  (\<^verbatim>\<open>imperatives/\<close>), given over TCP or HTTP (\<^verbatim>\<open>ui/\<close>), build and change the table while it runs. The main
  program (\<^verbatim>\<open>cmd/\<close>) puts these together, and \<^verbatim>\<open>statsmt/\<close> reports on the relay itself.

  \<^bold>\<open>Theories.\<close>
  \<^item> \<^theory_text>\<open>Prelude\<close>: byte strings, machine words, \<open>outcome\<close> (a panic or a value), results, helpers. The
    \<open>Go_...\<close> theories are the parts of Go's standard library that the sources use: \<^theory_text>\<open>Go_Strings\<close> (strings, bytes),
    \<^theory_text>\<open>Go_Strconv\<close> (numbers and \<open>fmt\<close> verbs), \<^theory_text>\<open>Go_Duration\<close> (\<open>time.ParseDuration\<close>), \<^theory_text>\<open>Go_Regexp\<close> and
    \<^theory_text>\<open>Go_Expand\<close> (regular expressions, templates), \<^theory_text>\<open>Go_Hash\<close> (FNV, MD5).
  \<^item> \<^theory_text>\<open>Relay_Matcher\<close> (\<^verbatim>\<open>matcher/matcher.go\<close>), \<^theory_text>\<open>Relay_Rewriter\<close> (\<^verbatim>\<open>rewriter/rewriter.go\<close>), \<^theory_text>\<open>Relay_Validate\<close>
    (\<^verbatim>\<open>validate/\<close>), \<^theory_text>\<open>Relay_BadMetrics\<close> (\<^verbatim>\<open>badmetrics/\<close>): a matcher decides the conjunction of its
    conditions, a rewriter is split and join, the order check accepts increasing timestamps, the record
    of bad metrics gives the latest of each within a window.
  \<^item> \<^theory_text>\<open>Agg_Processor\<close>, \<^theory_text>\<open>Agg_Aggregator\<close>, \<^theory_text>\<open>Agg_Correct\<close> (\<^verbatim>\<open>aggregator/\<close>, \<^verbatim>\<open>clock/\<close>): the processors compute their
    mathematical functions; \<open>agg_step\<close> is the goroutine of an aggregator, one event at a time; a flush sends the
    aggregate of exactly the matching points of a bucket, no bucket twice, and the cache is invisible.
  \<^item> \<^theory_text>\<open>Nsqd_DiskQueue\<close>, \<^theory_text>\<open>Nsqd_Message\<close>, \<^theory_text>\<open>Nsqd_Correct\<close> (\<^verbatim>\<open>nsqd/\<close>): files as maps from names to contents,
    \<open>dq_step\<close> as the loop of the queue; it refines a first-in first-out list, and a restart keeps its messages.
  \<^item> \<^theory_text>\<open>Dest_Conn\<close>, \<^theory_text>\<open>Dest_Destination\<close>, \<^theory_text>\<open>Dest_Correct\<close> (\<^verbatim>\<open>destination/\<close>): the writer, the buffer of lines
    kept for a new connection, the connection, the relay goroutine (\<open>relay_step\<close>), the spool (\<open>spool_step\<close>);
    every metric is sent, spooled or counted by one drop counter, and the spool conserves metrics.
    \<^theory_text>\<open>Dest_Lifecycle\<close>: the goroutines of a connection from its first error to its end, and when \<open>Close\<close> returns.
  \<^item> \<^theory_text>\<open>Route_Hashing\<close>, \<^theory_text>\<open>Route_Route\<close> (\<^verbatim>\<open>route/consistent_hashing.go\<close>, \<^verbatim>\<open>route/route.go\<close>): the ring and the carbon
    routes with all changes of their configuration. \<^theory_text>\<open>Route_Dispatch\<close> (\<^verbatim>\<open>route/dispatch.go\<close>): the channel
    that the other routes share, and the locale \<open>lossless\<close> with the argument that a run neither loses nor reorders
    what was taken in, interpreted by \<^theory_text>\<open>Route_Kafka\<close>, \<^theory_text>\<open>Route_PubSub\<close> and \<^theory_text>\<open>Route_CloudWatch\<close>;
    \<^theory_text>\<open>Route_GrafanaNet\<close> has its shards, retries and uploads, \<^theory_text>\<open>Route_GrafanaPost\<close> the answers to its posts. \<^theory_text>\<open>Persist_Schemas\<close> (\<^verbatim>\<open>persister/\<close>,
    \<^verbatim>\<open>route/schemas.go\<close>) and \<^theory_text>\<open>MtConf_Aggregations\<close> (\<^verbatim>\<open>pkg/mt-conf/\<close>) are the files these routes read;
    \<^theory_text>\<open>Whisper_Retentions\<close> is the rest of \<^verbatim>\<open>go-whisper/\<close>.
  \<^item> \<^theory_text>\<open>Table_Slices\<close>, \<^theory_text>\<open>Table_Table\<close>, \<^theory_text>\<open>Table_Correct\<close>, \<^theory_text>\<open>Table_Routes\<close> (\<^verbatim>\<open>table/table.go\<close>): \<open>Dispatch\<close> and the
    operations on the configuration, over the interface of a route, the locale \<open>route_interface\<close>, which
    \<open>carbon\<close> and \<open>relay\<close> (the sum of all kinds of routes) interpret; every line has one fate, and the counters count
    the fates. The slices that a deletion shares with its readers have a theory of their own.
  \<^item> \<^theory_text>\<open>Cmd_Imperatives\<close>, \<^theory_text>\<open>Cmd_Correct\<close> (\<^verbatim>\<open>imperatives/imperatives.go\<close>) and \<^theory_text>\<open>Cfg_Table\<close>, \<^theory_text>\<open>Cfg_Correct\<close>
    (\<^verbatim>\<open>cfg/\<close>): every command and every section of the file, with the rules \<open>cmd_rules\<close> for their
    postconditions; what a command may change, and that a file is loaded in order up to its first error.
  \<^item> \<^theory_text>\<open>Input_Handlers\<close>, \<^theory_text>\<open>Input_Listener\<close>, \<^theory_text>\<open>Input_Sockets\<close>, \<^theory_text>\<open>Input_Amqp\<close> (\<^verbatim>\<open>input/\<close>): from bytes
    to calls of the table, for lines, pickles and AMQP deliveries; listeners that are reopened and stopped, with their
    connections; the AMQP input as all its goroutines over the fields that they share.
  \<^item> \<^theory_text>\<open>Table_View\<close> (\<open>Print\<close> and \<open>Snapshot\<close>), \<^theory_text>\<open>Admin_Telnet\<close> (\<^verbatim>\<open>telnet/\<close>, \<^verbatim>\<open>ui/telnet/\<close>) and \<^theory_text>\<open>Admin_Web\<close>
    (\<^verbatim>\<open>ui/web/web.go\<close>): the printed table has every entry in aligned columns; sessions and requests change what they name.
  \<^item> \<^theory_text>\<open>Stats_Metrics\<close>, \<^theory_text>\<open>Stats_Graphite\<close>, \<^theory_text>\<open>Stats_Reporters\<close> (\<^verbatim>\<open>statsmt/\<close>, \<^verbatim>\<open>stats/\<close>): the metrics of the relay
    about itself, their lines, and the goroutines that send them; a meter reports order statistics, no report is lost.
    \<^theory_text>\<open>Stats_Registry\<close> has their constructors and setters, and that a metric keeps its type.
    \<^theory_text>\<open>Util_Logger\<close> (\<^verbatim>\<open>logger/\<close>, \<^verbatim>\<open>util/limiter.go\<close>): log lines and the semaphore.
  \<^item> \<^theory_text>\<open>Relay_System\<close>: the tables that any interleaving of lines, commands, aggregates and goroutines reaches from a
    loaded configuration file, and that none of them panics on a line. \<^theory_text>\<open>Main_Program\<close>
    (\<^verbatim>\<open>cmd/carbon-relay-ng/\<close>): from the arguments of the process and the variables of the file to a running relay,
    which is one of those tables with its inputs, and to the exit.

  \<^bold>\<open>Conventions.\<close> A goroutine is a step function on its state and an event, and its theorems are over all lists of
  events; a send to a full channel or a timer is an event too. What the code gets from outside (clock, files, network
  answers, third-party packages) is an argument, and what is assumed of it a hypothesis. \<open>int\<close> fields are
  unbounded integers where the code does not compute with them, and words of their width where it does; floats are
  reals, so rounding, infinities and NaN are not modelled. Durations are nanoseconds and wrap at 64 bits where
  configuration values are multiplied. Fuel is used once, in \<open>bump\<close>: 65536 steps visit all positions of a
  ring, so that running out of it is the loop that does not end.

  \<^bold>\<open>Not modelled.\<close> \<open>String\<close> methods that only logs use, help texts, the go-metrics library (the counters that matter
  are fields of the states), sockets, HTTP and AMQP clients below their calls and answers, profiling and the goroutine
  that samples memory in the main program, the debug endpoints and the routing of \<^verbatim>\<open>ui/web/\<close>, and the generated
  \<^verbatim>\<open>ui/web/bindata.go\<close>. These are output to the operator, third-party code or data.

  \<^bold>\<open>Plan.\<close> Every component that decides about lines is modelled. What could follow is their composition under one
  scheduler: \<^theory_text>\<open>Dest_Correct\<close> takes the turns of a connection as those of \<^theory_text>\<open>Dest_Conn\<close>, in which \<open>close\<close> is one turn, and
  not as those of \<^theory_text>\<open>Dest_Lifecycle\<close>, in which it can block.
\<close>

end
